(* ===== verification/Prelude.thy ===== *)
theory Prelude
  imports Main "HOL-Library.Word" "HOL-Library.AList"
begin

text \<open>
  Shared vocabulary of the development: the machine integers and byte strings of the Rust
  sources, Rust's \<open>Result\<close> and \<open>?\<close> operator as a sum type with a bind, computations that also
  thread a state (calls to a remote node), the search loop \<open>for (i, x) in xs.iter().enumerate()
  { if p(x) { r = Some(i); break } }\<close> that the chain code repeats, and decimal printing.
  Only facts about these notions are proved here.
\<close>

named_theorems result_simps \<open>rewrite rules for Result-valued code\<close>
named_theorems step_simps \<open>unfolding rules for the handlers of a component\<close>

section \<open>Machine integers and strings\<close>

type_synonym u8 = "8 word"
type_synonym u16 = "16 word"
type_synonym u32 = "32 word"
type_synonym u64 = "64 word"
type_synonym u128 = "128 word"
type_synonym bytes = "u8 list"

text \<open>A Rust \<open>String\<close> is its sequence of UTF-8 bytes; a HOL \<open>char\<close> is one byte.\<close>

definition bytes_of :: "string \<Rightarrow> bytes" where
  "bytes_of s = map (\<lambda>c. word_of_nat (of_char c)) s"

lemma unat_byte_of_char: "unat (word_of_nat (of_char c) :: u8) = of_char c"
proof -
  have "unat (word_of_nat (of_char c) :: u8) = of_char c mod 2 ^ LENGTH(8)"
    by (rule unat_of_nat)
  also have "\<dots> = of_char c mod (256::nat)" by simp
  also have "\<dots> = of_char c" by (rule of_char_mod_256)
  finally show ?thesis .
qed

lemma byte_of_char_inj: "(word_of_nat (of_char c) :: u8) = word_of_nat (of_char d) \<longleftrightarrow> c = d"
proof
  assume "(word_of_nat (of_char c) :: u8) = word_of_nat (of_char d)"
  then have "(of_char c :: nat) = of_char d" by (metis unat_byte_of_char)
  then show "c = d" by simp
qed simp

lemma bytes_of_inj [simp]: "bytes_of s = bytes_of t \<longleftrightarrow> s = t"
proof
  assume "bytes_of s = bytes_of t"
  then show "s = t"
    unfolding bytes_of_def
    by (induction s t rule: list_induct2') (auto simp: byte_of_char_inj)
qed simp

lemma length_bytes_of [simp]: "length (bytes_of s) = length s"
  by (simp add: bytes_of_def)

text \<open>A checked conversion to a narrower unsigned type keeps the value.\<close>

lemma unat_ucast_small:
  fixes n :: "'a::len word"
  assumes "unat n < 2 ^ LENGTH('b::len)"
  shows "unat (ucast n :: 'b word) = unat n"
  using assms by (simp add: unsigned_ucast_eq take_bit_nat_eq_self)

section \<open>Results and the question mark\<close>

text \<open>\<open>Result<T, E>\<close> is the sum type \<open>'e + 'a\<close>: \<open>Err e\<close> is \<open>Inl e\<close> and \<open>Ok x\<close> is \<open>Inr x\<close>.\<close>

definition and_then :: "'e + 'a \<Rightarrow> ('a \<Rightarrow> 'e + 'b) \<Rightarrow> 'e + 'b" where
  "and_then r f = (case r of Inl e \<Rightarrow> Inl e | Inr x \<Rightarrow> f x)"

definition map_err :: "('e \<Rightarrow> 'f) \<Rightarrow> 'e + 'a \<Rightarrow> 'f + 'a" where
  "map_err f r = (case r of Inl e \<Rightarrow> Inl (f e) | Inr x \<Rightarrow> Inr x)"

definition ok_or :: "'e \<Rightarrow> 'a option \<Rightarrow> 'e + 'a" where
  "ok_or e x = (case x of None \<Rightarrow> Inl e | Some y \<Rightarrow> Inr y)"

definition result_ok :: "'e + 'a \<Rightarrow> 'a option" where
  "result_ok r = (case r of Inl _ \<Rightarrow> None | Inr x \<Rightarrow> Some x)"

lemma and_then_simps [simp, result_simps]:
  "and_then (Inl e) f = Inl e" "and_then (Inr x) f = f x"
  by (simp_all add: and_then_def)

lemma map_err_simps [simp, result_simps]:
  "map_err g (Inl e) = Inl (g e)" "map_err g (Inr x) = Inr x"
  by (simp_all add: map_err_def)

lemma ok_or_simps [simp, result_simps]: "ok_or e None = Inl e" "ok_or e (Some x) = Inr x"
  by (simp_all add: ok_or_def)

lemma result_ok_simps [simp, result_simps]:
  "result_ok (Inl e) = None" "result_ok (Inr x) = Some x"
  by (simp_all add: result_ok_def)

lemma and_then_Inr_iff:
  "and_then r f = Inr y \<longleftrightarrow> (\<exists>x. r = Inr x \<and> f x = Inr y)"
  by (cases r) auto

lemma and_then_Inl_iff:
  "and_then r f = Inl e \<longleftrightarrow> r = Inl e \<or> (\<exists>x. r = Inr x \<and> f x = Inl e)"
  by (cases r) auto

lemma map_err_Inr_iff [simp]: "map_err g r = Inr y \<longleftrightarrow> r = Inr y"
  by (cases r) auto

lemma map_err_Inl_iff: "map_err g r = Inl e \<longleftrightarrow> (\<exists>d. r = Inl d \<and> e = g d)"
  by (cases r) auto

lemma ok_or_Inr_iff [simp]: "ok_or e x = Inr y \<longleftrightarrow> x = Some y"
  by (cases x) auto

lemma ok_or_Inl_iff [simp]: "ok_or e x = Inl d \<longleftrightarrow> x = None \<and> d = e"
  by (cases x) auto

text \<open>The same with a threaded state \<open>'w\<close>: an asynchronous call that may fail.\<close>

type_synonym ('w, 'e, 'a) call = "'w \<Rightarrow> ('e + 'a) \<times> 'w"

definition call_ok :: "'a \<Rightarrow> ('w, 'e, 'a) call" where
  "call_ok x = (\<lambda>w. (Inr x, w))"

definition call_err :: "'e \<Rightarrow> ('w, 'e, 'a) call" where
  "call_err e = (\<lambda>w. (Inl e, w))"

definition call_of :: "'e + 'a \<Rightarrow> ('w, 'e, 'a) call" where
  "call_of r = (\<lambda>w. (r, w))"

definition call_then ::
    "('w, 'e, 'a) call \<Rightarrow> ('a \<Rightarrow> ('w, 'e, 'b) call) \<Rightarrow> ('w, 'e, 'b) call" where
  "call_then c f = (\<lambda>w. case c w of (Inl e, w') \<Rightarrow> (Inl e, w') | (Inr x, w') \<Rightarrow> f x w')"

definition call_map_err :: "('e \<Rightarrow> 'f) \<Rightarrow> ('w, 'e, 'a) call \<Rightarrow> ('w, 'f, 'a) call" where
  "call_map_err g c = (\<lambda>w. case c w of (r, w') \<Rightarrow> (map_err g r, w'))"

lemma call_simps [simp, result_simps]:
  "call_ok x w = (Inr x, w)" "call_err e w = (Inl e, w)" "call_of r w = (r, w)"
  by (simp_all add: call_ok_def call_err_def call_of_def)

lemma call_then_apply [result_simps]:
  "call_then c f w = (case c w of (Inl e, w') \<Rightarrow> (Inl e, w') | (Inr x, w') \<Rightarrow> f x w')"
  by (simp add: call_then_def)

lemma call_then_ok [simp]: "call_then (call_ok x) f = f x"
  by (rule ext) (simp add: call_then_def)

lemma call_then_err [simp]: "call_then (call_err e) f = call_err e"
  by (rule ext) (simp add: call_then_def)

lemma call_then_InrE:
  assumes "call_then c f w = (Inr y, w2)"
  obtains x w1 where "c w = (Inr x, w1)" and "f x w1 = (Inr y, w2)"
  using assms by (auto simp: call_then_def split: prod.splits sum.splits)

section \<open>The search loop\<close>

text \<open>
  \<open>for (index, x) in xs.iter().enumerate() { if p(x) { found = Some(index); break; } }\<close>:
  the least index whose element satisfies \<open>p\<close>.
\<close>

fun position_from :: "nat \<Rightarrow> ('a \<Rightarrow> bool) \<Rightarrow> 'a list \<Rightarrow> nat option" where
  "position_from i p [] = None"
| "position_from i p (x # xs) = (if p x then Some i else position_from (Suc i) p xs)"

definition position :: "('a \<Rightarrow> bool) \<Rightarrow> 'a list \<Rightarrow> nat option" where
  "position p xs = position_from 0 p xs"

lemma position_from_None: "position_from i p xs = None \<longleftrightarrow> (\<forall>x \<in> set xs. \<not> p x)"
  by (induction i p xs rule: position_from.induct) auto

lemma position_from_Some:
  "position_from i p xs = Some j \<longleftrightarrow>
     i \<le> j \<and> j - i < length xs \<and> p (xs ! (j - i)) \<and> (\<forall>k < j - i. \<not> p (xs ! k))"
proof (induction i p xs arbitrary: j rule: position_from.induct)
  case (1 i p)
  then show ?case by simp
next
  case (2 i p x xs)
  show ?case
  proof (cases "p x")
    case True
    then show ?thesis
      by (auto simp: nth_Cons split: nat.splits)
  next
    case False
    have "position_from i p (x # xs) = Some j \<longleftrightarrow>
        Suc i \<le> j \<and> j - Suc i < length xs \<and> p (xs ! (j - Suc i)) \<and>
        (\<forall>k < j - Suc i. \<not> p (xs ! k))"
      using False 2 by simp
    also have "\<dots> \<longleftrightarrow> i \<le> j \<and> j - i < length (x # xs) \<and> p ((x # xs) ! (j - i)) \<and>
        (\<forall>k < j - i. \<not> p ((x # xs) ! k))"
    proof (cases "i < j")
      case True
      then have "j - i = Suc (j - Suc i)" by simp
      with True False show ?thesis
        by (auto simp: less_Suc_eq_0_disj)
    next
      case False
      with \<open>\<not> p x\<close> show ?thesis by (auto simp: le_less)
    qed
    finally show ?thesis .
  qed
qed

lemma position_None [simp]: "position p xs = None \<longleftrightarrow> (\<forall>x \<in> set xs. \<not> p x)"
  by (simp add: position_def position_from_None)

lemma position_Some:
  "position p xs = Some j \<longleftrightarrow> j < length xs \<and> p (xs ! j) \<and> (\<forall>k < j. \<not> p (xs ! k))"
  by (simp add: position_def position_from_Some)

lemma position_SomeD:
  assumes "position p xs = Some j"
  shows "j < length xs" "p (xs ! j)"
  using assms by (simp_all add: position_Some)

lemma position_eval [simp]:
  "position p [] = None"
  "position p (x # xs) = (if p x then Some 0 else map_option Suc (position p xs))"
proof -
  have shift: "position_from (Suc i) p ys = map_option Suc (position_from i p ys)" for i p and ys :: "'a list"
    by (induction i p ys rule: position_from.induct) auto
  show "position p [] = None" by (simp add: position_def)
  show "position p (x # xs) = (if p x then Some 0 else map_option Suc (position p xs))"
    by (simp add: position_def shift)
qed

section \<open>Decimal numbers\<close>

fun show_nat :: "nat \<Rightarrow> string" where
  "show_nat n = (if n < 10 then [char_of (48 + n)]
     else show_nat (n div 10) @ [char_of (48 + n mod 10)])"

declare show_nat.simps [simp del]

lemma show_nat_nonempty: "show_nat n \<noteq> []"
  by (subst show_nat.simps) simp

end
