(* ===== verification/Floats.thy ===== *)
theory Floats
  imports Complex_Main "HOL-Library.Log_Nat" Prelude
begin

text \<open>
  Rust's \<open>f64\<close> (IEEE 754 binary64) as far as the amounts of the daemon use it: conversion from
  \<open>u128\<close>, multiplication, division, \<open>powi\<close>, \<open>round\<close>, the comparison \<open><\<close> and the
  saturating cast \<open>as u128\<close>. A finite float is its exact rational value; every operation is
  computed exactly and then rounded to the nearest float, ties to even. The sign of zero is
  not kept: no operation the code applies to amounts tells the two zeros apart. \<open>powi\<close> is
  computed by repeated squaring, each product rounded. The lemmas bound the rounding error
  and show where the operations are exact.
\<close>

section \<open>Binary exponents\<close>

definition pow2 :: "int \<Rightarrow> rat" where
  "pow2 e = (if 0 \<le> e then 2 ^ nat e else 1 / 2 ^ nat (- e))"

lemma pow2_powi: "pow2 e = 2 powi e"
  by (simp add: pow2_def power_int_def power_one_over inverse_eq_divide)

lemma pow2_add: "pow2 a * pow2 b = pow2 (a + b)"
  by (simp add: pow2_powi power_int_add)

lemma pow2_diff: "pow2 a / pow2 b = pow2 (a - b)"
  by (simp add: pow2_powi power_int_diff)

lemma pow2_pos [simp]: "0 < pow2 e"
  by (simp add: pow2_def)

lemma pow2_nonneg [simp]: "0 \<le> pow2 e" and pow2_nonzero [simp]: "pow2 e \<noteq> 0"
  using pow2_pos [of e] by linarith+

lemma pow2_0 [simp]: "pow2 0 = 1"
  by (simp add: pow2_def)

lemma pow2_of_int: "0 \<le> e \<Longrightarrow> pow2 e = of_int (2 ^ nat e)"
  by (simp add: pow2_def)

lemma pow2_less_iff: "pow2 a < pow2 b \<longleftrightarrow> a < b"
proof -
  have less: "pow2 c < pow2 d" if "c < d" for c d
    unfolding pow2_powi using that by (intro power_int_strict_increasing) auto
  show ?thesis
    using less [of a b] less [of b a] by (cases a b rule: linorder_cases) auto
qed

lemma pow2_le_iff: "pow2 a \<le> pow2 b \<longleftrightarrow> a \<le> b"
  using pow2_less_iff [of b a] by (simp add: not_less [symmetric])

definition ilog2 :: "rat \<Rightarrow> int" where
  "ilog2 x = (case quotient_of x of (n, d) \<Rightarrow>
     let e = bitlen n - bitlen d in if pow2 e \<le> x then e else e - 1)"

lemma bitlen_powi:
  fixes n :: int
  assumes "0 < n"
  shows "pow2 (bitlen n - 1) \<le> of_int n" and "of_int n < pow2 (bitlen n)"
proof -
  have b: "0 < bitlen n" using assms bitlen_nonneg [of n] bitlen_eq_zero_iff [of n] by linarith
  from bitlen_bounds [OF assms]
  have lo: "2 ^ nat (bitlen n - 1) \<le> n" and hi: "n < 2 ^ nat (bitlen n)" by auto
  have "pow2 (bitlen n - 1) = of_int (2 ^ nat (bitlen n - 1))"
    using b by (intro pow2_of_int) simp
  also have "\<dots> \<le> of_int n" using lo by (simp only: of_int_le_iff)
  finally show "pow2 (bitlen n - 1) \<le> of_int n" .
  have "of_int n < (of_int (2 ^ nat (bitlen n)) :: rat)" using hi by (simp only: of_int_less_iff)
  also have "\<dots> = pow2 (bitlen n)" using b by (intro pow2_of_int [symmetric]) simp
  finally show "of_int n < pow2 (bitlen n)" .
qed

lemma ilog2_bounds:
  assumes "0 < x"
  shows "pow2 (ilog2 x) \<le> x" and "x < pow2 (ilog2 x + 1)"
proof -
  obtain n d where q: "quotient_of x = (n, d)" by fastforce
  then have d: "0 < d" and x: "x = of_int n / of_int d"
    by (auto simp: quotient_of_denom_pos quotient_of_div)
  with assms have n: "0 < n" by (simp add: zero_less_divide_iff)
  define e where "e = bitlen n - bitlen d"
  have lo: "pow2 (e - 1) \<le> x"
  proof -
    have "pow2 (e - 1) * of_int d \<le> pow2 (e - 1) * pow2 (bitlen d)"
      using bitlen_powi(2) [OF d] by (intro mult_left_mono) auto
    also have "\<dots> = pow2 (bitlen n - 1)"
      by (simp add: e_def pow2_add)
    also have "\<dots> \<le> of_int n" by (rule bitlen_powi(1) [OF n])
    finally show ?thesis using d by (simp add: x pos_le_divide_eq)
  qed
  have hi: "x < pow2 (e + 1)"
  proof -
    have "of_int n < pow2 (bitlen n)" by (rule bitlen_powi(2) [OF n])
    also have "\<dots> = pow2 (e + 1) * pow2 (bitlen d - 1)"
      by (simp add: e_def pow2_add)
    also have "\<dots> \<le> pow2 (e + 1) * of_int d"
      using bitlen_powi(1) [OF d] by (intro mult_left_mono) auto
    finally show ?thesis using d by (simp add: x pos_divide_less_eq)
  qed
  have il: "ilog2 x = (if pow2 e \<le> x then e else e - 1)"
    by (simp add: ilog2_def q e_def Let_def)
  show "pow2 (ilog2 x) \<le> x" using lo by (simp add: il)
  show "x < pow2 (ilog2 x + 1)" using hi by (auto simp: il not_le)
qed

lemma ilog2_unique:
  assumes "pow2 e \<le> x" and "x < pow2 (e + 1)"
  shows "ilog2 x = e"
proof -
  have pos: "0 < x" using assms(1) by (rule less_le_trans [rotated]) simp
  have "pow2 e < pow2 (ilog2 x + 1)" and "pow2 (ilog2 x) < pow2 (e + 1)"
    using assms ilog2_bounds [OF pos] by (auto intro: le_less_trans)
  then show ?thesis by (simp add: pow2_less_iff)
qed

section \<open>Rounding to the nearest float\<close>

datatype f64 = NaN | Infinity bool | Finite rat

text \<open>\<open>Infinity True\<close> is minus infinity.\<close>

definition half_even :: "rat \<Rightarrow> int" where
  "half_even x = (let f = \<lfloor>x\<rfloor>; r = x - of_int f in
     if r < 1 / 2 then f else if 1 / 2 < r then f + 1 else if even f then f else f + 1)"

lemma half_even_error: "\<bar>of_int (half_even x) - x\<bar> \<le> 1 / 2"
proof -
  have "of_int \<lfloor>x\<rfloor> \<le> x" and "x < of_int \<lfloor>x\<rfloor> + 1"
    using floor_correct [of x] by auto
  then show ?thesis by (auto simp: half_even_def Let_def abs_le_iff)
qed

lemma half_even_of_int [simp]: "half_even (of_int k) = k"
  by (simp add: half_even_def)

definition ulp :: "rat \<Rightarrow> rat" where
  "ulp x = pow2 (max (ilog2 \<bar>x\<bar>) (- 1022) - 52)"

definition round_exact :: "rat \<Rightarrow> rat" where
  "round_exact x = (if x = 0 then 0 else of_int (half_even (x / ulp x)) * ulp x)"

definition f64_of :: "rat \<Rightarrow> f64" where
  "f64_of x = (let y = round_exact x in
     if \<bar>y\<bar> < pow2 1024 then Finite y else Infinity (x < 0))"

lemma ulp_pos [simp]: "0 < ulp x"
  by (simp add: ulp_def)

lemma ulp_nonzero [simp]: "ulp x \<noteq> 0"
  using ulp_pos [of x] by linarith

lemma round_exact_error:
  assumes "pow2 (- 1022) \<le> \<bar>x\<bar>"
  shows "\<bar>round_exact x - x\<bar> \<le> \<bar>x\<bar> * pow2 (- 53)"
proof -
  have x: "x \<noteq> 0"
  proof
    assume "x = 0"
    then have "pow2 (- 1022) \<le> 0" using assms by simp
    then show False using pow2_pos [of "- 1022"] by linarith
  qed
  then have pos: "0 < \<bar>x\<bar>" by simp
  have "pow2 (- 1022) < pow2 (ilog2 \<bar>x\<bar> + 1)"
    using assms ilog2_bounds(2) [OF pos] by (rule le_less_trans)
  then have "- 1022 \<le> ilog2 \<bar>x\<bar>" unfolding pow2_less_iff by simp
  then have u: "ulp x = pow2 (ilog2 \<bar>x\<bar> - 52)" by (simp add: ulp_def max_absorb1)
  have "\<bar>round_exact x - x\<bar> = \<bar>of_int (half_even (x / ulp x)) - x / ulp x\<bar> * ulp x"
    using x by (simp add: round_exact_def abs_mult [symmetric] left_diff_distrib)
       (metis (no_types, opaque_lifting) abs_mult abs_of_pos left_diff_distrib
         nonzero_eq_divide_eq less_irrefl ulp_pos)
  also have "\<dots> \<le> 1 / 2 * ulp x"
    using half_even_error by (intro mult_right_mono) (auto simp: less_imp_le)
  also have "\<dots> = pow2 (ilog2 \<bar>x\<bar>) * pow2 (- 53)"
  proof -
    have "(1::rat) / 2 = pow2 (- 1)" by (simp add: pow2_def)
    then show ?thesis unfolding u by (simp only: pow2_add) (simp add: algebra_simps)
  qed
  also have "\<dots> \<le> \<bar>x\<bar> * pow2 (- 53)"
    using ilog2_bounds(1) [OF pos] by (intro mult_right_mono) auto
  finally show ?thesis .
qed


lemma significand_bound:
  assumes "\<bar>m\<bar> < (2::int) ^ 53"
  shows "of_int \<bar>m\<bar> < pow2 53"
proof -
  have "(of_int \<bar>m\<bar> :: rat) < of_int (2 ^ nat 53)" using assms by (simp only: of_int_less_iff) simp
  also have "\<dots> = pow2 53" by (rule pow2_of_int [symmetric]) simp
  finally show ?thesis .
qed

text \<open>A number with a 53-bit significand in the exponent range is not changed.\<close>

lemma round_exact_repr:
  assumes x: "x = of_int m * pow2 e" and m: "\<bar>m\<bar> < 2 ^ 53" and e: "- 1074 \<le> e"
  shows "round_exact x = x"
proof (cases "x = 0")
  case True
  then show ?thesis by (simp add: round_exact_def)
next
  case False
  then have pos: "0 < \<bar>x\<bar>" by simp
  define E where "E = max (ilog2 \<bar>x\<bar>) (- 1022)"
  have ax: "\<bar>x\<bar> = of_int \<bar>m\<bar> * pow2 e"
    by (simp add: x abs_mult)
  have "\<bar>x\<bar> < pow2 53 * pow2 e"
    unfolding ax using significand_bound [OF m] by (intro mult_strict_right_mono) simp_all
  then have "pow2 (ilog2 \<bar>x\<bar>) < pow2 (53 + e)"
    using ilog2_bounds(1) [OF pos] by (simp only: pow2_add)
  then have "ilog2 \<bar>x\<bar> < 53 + e" by (simp add: pow2_less_iff)
  with e have ge: "0 \<le> e - (E - 52)" by (simp add: E_def)
  have "x / ulp x = of_int m * (pow2 e / pow2 (E - 52))"
    by (simp add: x ulp_def E_def)
  also have "pow2 e / pow2 (E - 52) = pow2 (e - (E - 52))"
    by (rule pow2_diff)
  also have "\<dots> = of_int (2 ^ nat (e - (E - 52)))"
    using ge by (rule pow2_of_int)
  finally have "x / ulp x = of_int (m * 2 ^ nat (e - (E - 52)))"
    by (simp only: of_int_mult)
  then have "of_int (half_even (x / ulp x)) = x / ulp x"
    by (simp only: half_even_of_int)
  with False show ?thesis by (simp add: round_exact_def)
qed

lemma round_exact_int:
  assumes "\<bar>k\<bar> < 2 ^ 53"
  shows "round_exact (of_int k) = of_int k"
  by (rule round_exact_repr [where m = k and e = 0]) (use assms in auto)

lemma round_exact_sign:
  shows "0 \<le> x \<Longrightarrow> 0 \<le> round_exact x" and "x \<le> 0 \<Longrightarrow> round_exact x \<le> 0"
proof -
  have "0 \<le> half_even y" if "0 \<le> y" for y
    using that by (auto simp: half_even_def Let_def)
  moreover have "half_even y \<le> 0" if "y \<le> 0" for y
  proof -
    have "\<lfloor>y\<rfloor> + 1 \<le> 0 \<or> \<lfloor>y\<rfloor> = 0 \<and> y = 0" using that by linarith
    then show ?thesis by (auto simp: half_even_def Let_def)
  qed
  ultimately show "0 \<le> x \<Longrightarrow> 0 \<le> round_exact x" and "x \<le> 0 \<Longrightarrow> round_exact x \<le> 0"
    by (auto simp: round_exact_def mult_nonneg_nonneg mult_nonpos_nonneg divide_nonpos_pos
        less_imp_le)
qed

section \<open>The operations\<close>

definition f64_of_nat :: "nat \<Rightarrow> f64" where
  "f64_of_nat n = f64_of (of_nat n)"

fun f64_mul :: "f64 \<Rightarrow> f64 \<Rightarrow> f64" where
  "f64_mul (Finite x) (Finite y) = f64_of (x * y)"
| "f64_mul (Infinity s) (Finite y) = (if y = 0 then NaN else Infinity (s \<noteq> (y < 0)))"
| "f64_mul (Finite x) (Infinity s) = (if x = 0 then NaN else Infinity (s \<noteq> (x < 0)))"
| "f64_mul (Infinity s) (Infinity t) = Infinity (s \<noteq> t)"
| "f64_mul _ _ = NaN"

text \<open>Division by zero is division by plus zero; the code divides by powers of ten only.\<close>

fun f64_div :: "f64 \<Rightarrow> f64 \<Rightarrow> f64" where
  "f64_div (Finite x) (Finite y) =
     (if y = 0 then (if x = 0 then NaN else Infinity (x < 0)) else f64_of (x / y))"
| "f64_div (Infinity s) (Finite y) = Infinity (s \<noteq> (y < 0))"
| "f64_div (Finite x) (Infinity s) = Finite 0"
| "f64_div _ _ = NaN"

fun f64_less :: "f64 \<Rightarrow> f64 \<Rightarrow> bool" where
  "f64_less (Finite x) (Finite y) = (x < y)"
| "f64_less (Infinity s) (Finite y) = s"
| "f64_less (Finite x) (Infinity s) = (\<not> s)"
| "f64_less (Infinity s) (Infinity t) = (s \<and> \<not> t)"
| "f64_less _ _ = False"

text \<open>\<open>f64::round\<close>: to the nearest integer, halves away from zero.\<close>

definition half_away :: "rat \<Rightarrow> int" where
  "half_away x = (if 0 \<le> x then \<lfloor>x + 1 / 2\<rfloor> else \<lceil>x - 1 / 2\<rceil>)"

fun f64_round :: "f64 \<Rightarrow> f64" where
  "f64_round (Finite x) = Finite (of_int (half_away x))"
| "f64_round f = f"

text \<open>\<open>x as u128\<close>: towards zero, saturating at both ends, NaN to 0.\<close>

fun f64_to_u128 :: "f64 \<Rightarrow> u128" where
  "f64_to_u128 NaN = 0"
| "f64_to_u128 (Infinity s) = (if s then 0 else - 1)"
| "f64_to_u128 (Finite x) =
     (if x < 1 then 0 else if 2 ^ 128 \<le> x then - 1 else word_of_int \<lfloor>x\<rfloor>)"

text \<open>\<open>powi\<close> by repeated squaring.\<close>

function powi_loop :: "f64 \<Rightarrow> f64 \<Rightarrow> nat \<Rightarrow> f64" where
  "powi_loop r a b = (let r' = (if odd b then f64_mul r a else r) in
     if b div 2 = 0 then r' else powi_loop r' (f64_mul a a) (b div 2))"
  by pat_completeness auto
termination by (relation "measure (\<lambda>(r, a, b). b)") auto

declare powi_loop.simps [simp del]

definition f64_powi :: "f64 \<Rightarrow> nat \<Rightarrow> f64" where
  "f64_powi a n = powi_loop (Finite 1) a n"

section \<open>Where the operations are exact\<close>

lemma f64_of_repr:
  assumes "x = of_int m * pow2 e" and "\<bar>m\<bar> < 2 ^ 53" and "- 1074 \<le> e" and "e \<le> 900"
  shows "f64_of x = Finite x"
proof -
  have "\<bar>x\<bar> \<le> pow2 53 * pow2 e"
    unfolding assms(1) abs_mult using significand_bound [OF assms(2)]
    by (intro mult_mono) (simp_all add: less_imp_le)
  also have "\<dots> = pow2 (53 + e)" by (rule pow2_add)
  also have "\<dots> < pow2 1024" unfolding pow2_less_iff using assms(4) by linarith
  finally have "\<bar>x\<bar> < pow2 1024" .
  then show ?thesis by (simp only: f64_of_def Let_def round_exact_repr [OF assms(1,2,3)] if_True)
qed

lemma f64_of_int:
  assumes "\<bar>k\<bar> < 2 ^ 53"
  shows "f64_of (of_int k) = Finite (of_int k)"
  by (rule f64_of_repr [where m = k and e = 0]) (use assms in auto)

lemma f64_of_ten_power:
  assumes "n \<le> 22"
  shows "f64_of (10 ^ n) = Finite (10 ^ n)"
proof (rule f64_of_repr [where m = "5 ^ n" and e = "int n"])
  have "(10::rat) ^ n = 5 ^ n * 2 ^ n" by (simp flip: power_mult_distrib)
  then show "(10::rat) ^ n = of_int (5 ^ n) * pow2 (int n)" by (simp add: pow2_def)
  have "(5::int) ^ n \<le> 5 ^ 22" using assms by (intro power_increasing) auto
  then show "\<bar>(5::int) ^ n\<bar> < 2 ^ 53" by simp
qed (use assms in auto)

lemma powi_loop_ten:
  assumes "i + j * b \<le> 22"
  shows "powi_loop (Finite (10 ^ i)) (Finite (10 ^ j)) b = Finite (10 ^ (i + j * b))"
  using assms
proof (induction b arbitrary: i j rule: less_induct)
  case (less b)
  define i' where "i' = (if odd b then i + j else i)"
  have sum: "i + j * b = i' + (j + j) * (b div 2)"
    by (cases "odd b") (auto simp: i'_def algebra_simps elim!: oddE evenE)
  have "f64_mul (Finite (10 ^ i)) (Finite (10 ^ j)) = Finite (10 ^ (i + j))" if "odd b"
  proof -
    have "j * 1 \<le> j * b" using that by (intro mult_le_mono) (auto elim: oddE)
    then have "i + j \<le> 22" using less.prems by linarith
    then show ?thesis by (simp add: f64_of_ten_power flip: power_add)
  qed
  then have r': "(if odd b then f64_mul (Finite (10 ^ i)) (Finite (10 ^ j)) else Finite (10 ^ i))
      = Finite (10 ^ i')"
    by (simp add: i'_def)
  show ?case
  proof (cases "b div 2 = 0")
    case True
    have "i + j * b = i'" using sum True by simp
    with True show ?thesis by (subst powi_loop.simps) (simp only: r' Let_def refl if_True)
  next
    case False
    have "1 \<le> b div 2" using False by simp
    then have "(j + j) * 1 \<le> (j + j) * (b div 2)" by (intro mult_le_mono) auto
    then have "j + j \<le> (j + j) * (b div 2)" by (simp only: mult_1_right)
    also have "\<dots> \<le> i + j * b" unfolding sum by (rule le_add2)
    also have "\<dots> \<le> 22" by (rule less.prems)
    finally have "j + j \<le> 22" .
    then have sq: "f64_mul (Finite (10 ^ j)) (Finite (10 ^ j)) = Finite (10 ^ (j + j))"
      by (simp add: f64_of_ten_power flip: power_add)
    have "powi_loop (Finite (10 ^ i')) (Finite (10 ^ (j + j))) (b div 2)
        = Finite (10 ^ (i' + (j + j) * (b div 2)))"
      using False less.prems sum by (intro less.IH) auto
    then show ?thesis using False by (subst powi_loop.simps) (simp only: r' Let_def sq sum if_False)
  qed
qed

lemma f64_powi_ten: "n \<le> 22 \<Longrightarrow> f64_powi (Finite 10) n = Finite (10 ^ n)"
  using powi_loop_ten [of 0 1 n] by (simp add: f64_powi_def)

lemma half_away_error:
  assumes "\<bar>x - of_int k\<bar> < 1 / 2"
  shows "half_away x = k"
proof (cases "0 \<le> x")
  case True
  have "\<lfloor>x + 1 / 2\<rfloor> = k" using assms by (intro floor_unique) linarith+
  with True show ?thesis by (simp add: half_away_def)
next
  case False
  have "\<lceil>x - 1 / 2\<rceil> = k" using assms by (intro ceiling_unique) linarith+
  with False show ?thesis by (simp add: half_away_def)
qed

lemma f64_to_u128_int:
  assumes "0 \<le> k" and "k < 2 ^ 128"
  shows "f64_to_u128 (Finite (of_int k)) = word_of_int k"
proof (cases "k = 0")
  case False
  then have "\<not> (of_int k :: rat) < 1" using assms(1) by simp
  moreover have "\<not> (2 ^ 128 \<le> (of_int k :: rat))"
  proof -
    have "(of_int k :: rat) < of_int (2 ^ 128)" using assms(2) by (simp only: of_int_less_iff)
    then show ?thesis by simp
  qed
  ultimately show ?thesis by simp
qed simp


section \<open>Rounding is monotone\<close>

lemma half_even_mono:
  assumes "x \<le> y"
  shows "half_even x \<le> half_even y"
proof (cases "\<lfloor>x\<rfloor> = \<lfloor>y\<rfloor>")
  case True
  then show ?thesis using assms by (auto simp: half_even_def Let_def)
next
  case False
  then have "\<lfloor>x\<rfloor> + 1 \<le> \<lfloor>y\<rfloor>" using floor_mono [OF assms] by linarith
  moreover have "half_even x \<le> \<lfloor>x\<rfloor> + 1" and "\<lfloor>y\<rfloor> \<le> half_even y"
    by (auto simp: half_even_def Let_def)
  ultimately show ?thesis by linarith
qed

text \<open>The significand stays within its bounds: in the binade that ends at \<open>pow2 (E + 1)\<close> nothing is
  rounded past that end, in the one that begins at \<open>pow2 F\<close> nothing below that beginning.\<close>

lemma significand_le:
  assumes "x < pow2 (E + 1)"
  shows "of_int (half_even (x / pow2 (E - 52))) * pow2 (E - 52) \<le> pow2 (E + 1)"
proof -
  have "x / pow2 (E - 52) \<le> pow2 (E + 1) / pow2 (E - 52)"
    using assms by (intro divide_right_mono) auto
  also have "\<dots> = of_int (2 ^ 53)" by (simp add: pow2_diff pow2_of_int)
  finally have "half_even (x / pow2 (E - 52)) \<le> 2 ^ 53"
    using half_even_mono [of _ "of_int (2 ^ 53)"] unfolding half_even_of_int by blast
  then have "of_int (half_even (x / pow2 (E - 52))) * pow2 (E - 52) \<le> of_int (2 ^ 53) * pow2 (E - 52)"
    by (intro mult_right_mono) (simp_all only: of_int_le_iff, auto)
  also have "\<dots> = pow2 53 * pow2 (E - 52)" by (simp add: pow2_def)
  also have "\<dots> = pow2 (E + 1)" by (simp only: pow2_add) (simp add: add.commute)
  finally show ?thesis .
qed

lemma significand_ge:
  assumes "pow2 F \<le> y"
  shows "pow2 F \<le> of_int (half_even (y / pow2 (F - 52))) * pow2 (F - 52)"
proof -
  have "(of_int (2 ^ 52) :: rat) = pow2 F / pow2 (F - 52)" by (simp add: pow2_diff pow2_of_int)
  also have "\<dots> \<le> y / pow2 (F - 52)" using assms by (intro divide_right_mono) auto
  finally have "2 ^ 52 \<le> half_even (y / pow2 (F - 52))"
    using half_even_mono [of "of_int (2 ^ 52)"] unfolding half_even_of_int by blast
  then have ge: "(of_int (2 ^ 52) :: rat) \<le> of_int (half_even (y / pow2 (F - 52)))"
    by (simp only: of_int_le_iff)
  have "pow2 F = pow2 52 * pow2 (F - 52)" by (simp only: pow2_add) (simp add: algebra_simps)
  also have "\<dots> = of_int (2 ^ 52) * pow2 (F - 52)" by (simp add: pow2_def)
  also have "\<dots> \<le> of_int (half_even (y / pow2 (F - 52))) * pow2 (F - 52)"
    using ge by (intro mult_right_mono) auto
  finally show ?thesis .
qed

lemma round_exact_mono:
  assumes "0 \<le> x" and "x \<le> y"
  shows "round_exact x \<le> round_exact y"
proof (cases "x = 0")
  case True
  then show ?thesis using round_exact_sign(1) [of y] assms by (simp add: round_exact_def)
next
  case False
  with assms have x: "0 < x" and y: "0 < y" by auto
  define E F where "E = max (ilog2 x) (- 1022)" and "F = max (ilog2 y) (- 1022)"
  have rx: "round_exact x = of_int (half_even (x / pow2 (E - 52))) * pow2 (E - 52)"
    and ry: "round_exact y = of_int (half_even (y / pow2 (F - 52))) * pow2 (F - 52)"
    using x y by (simp_all add: round_exact_def ulp_def E_def F_def)
  have "pow2 (ilog2 x) < pow2 (ilog2 y + 1)"
    using ilog2_bounds(1) [OF x] ilog2_bounds(2) [OF y] assms(2) by linarith
  then have "E \<le> F" by (simp add: pow2_less_iff E_def F_def)
  show ?thesis
  proof (cases "E = F")
    case True
    have "half_even (x / pow2 (F - 52)) \<le> half_even (y / pow2 (F - 52))"
      using assms(2) by (intro half_even_mono divide_right_mono) auto
    then show ?thesis unfolding rx ry True by (intro mult_right_mono) auto
  next
    case False
    with \<open>E \<le> F\<close> have lt: "E < F" by simp
    then have F: "F = ilog2 y" by (auto simp: E_def F_def)
    have "pow2 (ilog2 x + 1) \<le> pow2 (E + 1)"
      unfolding pow2_le_iff E_def by simp
    with ilog2_bounds(2) [OF x] have "round_exact x \<le> pow2 (E + 1)"
      unfolding rx by (intro significand_le) (rule less_le_trans)
    also have "\<dots> \<le> pow2 F" unfolding pow2_le_iff using lt by simp
    also have "\<dots> \<le> round_exact y"
      unfolding ry using ilog2_bounds(1) [OF y] by (intro significand_ge) (simp only: F)
    finally show ?thesis .
  qed
qed

lemma half_away_mono: "x \<le> y \<Longrightarrow> half_away x \<le> half_away y"
proof -
  assume le: "x \<le> y"
  have "\<lceil>x - 1 / 2\<rceil> \<le> \<lfloor>y + 1 / 2\<rfloor>" if "x < 0" "0 \<le> y"
  proof -
    have "\<lceil>x - 1 / 2\<rceil> \<le> 0" using that(1) by linarith
    also have "0 \<le> \<lfloor>y + 1 / 2\<rfloor>" using that(2) by simp
    finally show ?thesis .
  qed
  with le show "half_away x \<le> half_away y"
    by (auto simp: half_away_def intro: floor_mono ceiling_mono)
qed

end
