(* ===== verification/Json.thy ===== *)
theory Json
  imports Floats
begin

text \<open>
  The JSON values the daemon receives from a node (\<open>serde_json::Value\<close>). A number is, as in
  that crate's documentation, an unsigned 64-bit integer, a negative 64-bit integer or a
  float; \<open>as_u64\<close> answers for the first kind only. An object is the list of its members.
\<close>

datatype number = PosInt u64 | NegInt int | Float f64

datatype json =
    JNull
  | JBool bool
  | JNumber number
  | JString string
  | JArray "json list"
  | JObject "(string \<times> json) list"

type_synonym json_map = "(string \<times> json) list"

fun as_u64 :: "number \<Rightarrow> u64 option" where
  "as_u64 (PosInt n) = Some n"
| "as_u64 _ = None"

text \<open>\<open>u64::try_into\<close> a narrower unsigned type: \<open>None\<close> stands for the conversion error.\<close>

definition u64_to_u8 :: "u64 \<Rightarrow> u8 option" where
  "u64_to_u8 n = (if unat n < 256 then Some (ucast n) else None)"

definition u64_to_u16 :: "u64 \<Rightarrow> u16 option" where
  "u64_to_u16 n = (if unat n < 65536 then Some (ucast n) else None)"

lemma u64_to_u8_Some: "u64_to_u8 n = Some d \<longleftrightarrow> unat n = unat d"
proof -
  have "unat d < 256" using unsigned_less [of d] by simp
  moreover have "unat (ucast n :: u8) = unat n" if "unat n < 256"
    using that by (intro unat_ucast_small) simp
  ultimately show ?thesis
    by (auto simp: u64_to_u8_def word_unat_eq_iff)
qed

lemma u64_to_u16_Some: "u64_to_u16 n = Some d \<longleftrightarrow> unat n = unat d"
proof -
  have "unat d < 65536" using unsigned_less [of d] by simp
  moreover have "unat (ucast n :: u16) = unat n" if "unat n < 65536"
    using that by (intro unat_ucast_small) simp
  ultimately show ?thesis
    by (auto simp: u64_to_u16_def word_unat_eq_iff)
qed

end
