(* ===== verification/Definitions.thy ===== *)
theory Definitions
  imports Json
begin

text \<open>
  The objects of \<open>src/definitions.rs\<close>: chain configuration, balances and their conversion
  from and to the floating-point amounts of the API, orders, currencies and server
  information. Field names carry the name of their struct where two structs of the source
  share one. The lemmas are about \<open>Balance\<close>: which integer an amount stands for.
\<close>

section \<open>Chain configuration\<close>

datatype timestamp = Timestamp (ts_millis: u64)

record native_token =
  native_name :: string
  native_decimals :: u8

record asset_info =
  asset_name :: string
  asset_id :: u32

record chain_config =
  chain_name :: string
  endpoints :: "string list"
  native_token :: "native_token option"
  assets :: "asset_info list"

section \<open>Balances\<close>

datatype balance = Balance (units: u128)

text \<open>\<open>derive(PartialOrd)\<close> on the newtype compares the wrapped integers.\<close>

instantiation balance :: linorder
begin

definition less_eq_balance :: "balance \<Rightarrow> balance \<Rightarrow> bool" where
  "less_eq_balance a b = (units a \<le> units b)"

definition less_balance :: "balance \<Rightarrow> balance \<Rightarrow> bool" where
  "less_balance a b = (units a < units b)"

instance
  by standard
    (auto simp: less_eq_balance_def less_balance_def intro: balance.expand)

end

text \<open>\<open>impl Sub\<close>: the subtraction of the wrapped \<open>u128\<close> values, which wraps around in the
  release profile.\<close>

instantiation balance :: minus
begin

definition minus_balance :: "balance \<Rightarrow> balance \<Rightarrow> balance" where
  "minus_balance a b = Balance (units a - units b)"

instance ..

end

definition decimal_exponent_product :: "u8 \<Rightarrow> f64" where
  "decimal_exponent_product decimals = f64_powi (Finite 10) (unat decimals)"

definition balance_format :: "balance \<Rightarrow> u8 \<Rightarrow> f64" where
  "balance_format b decimals =
     f64_div (f64_of_nat (unat (units b))) (decimal_exponent_product decimals)"

definition balance_parse :: "f64 \<Rightarrow> u8 \<Rightarrow> balance" where
  "balance_parse float decimals =
     Balance (f64_to_u128 (f64_round (f64_mul float (decimal_exponent_product decimals))))"

section \<open>Orders, currencies, server information\<close>

datatype token_kind = Asset | Native

datatype payment_status = Pending | Paid

datatype withdrawal_status = Waiting | Failed | Completed

datatype tx_status = TxPending | TxFinalized | TxFailed

datatype amount = AmountAll | AmountExact f64

datatype health = HealthOk | HealthDegraded | HealthCritical

record currency_info =
  ci_currency :: string
  ci_chain_name :: string
  ci_kind :: token_kind
  ci_decimals :: u8
  ci_rpc_url :: string
  ci_asset_id :: "u32 option"
  ci_ss58 :: u16

record currency_properties =
  cp_chain_name :: string
  cp_kind :: token_kind
  cp_decimals :: u8
  cp_rpc_url :: string
  cp_asset_id :: "u32 option"
  cp_ss58 :: u16

definition properties :: "currency_info \<Rightarrow> currency_properties" where
  "properties c = \<lparr>cp_chain_name = ci_chain_name c, cp_kind = ci_kind c,
     cp_decimals = ci_decimals c, cp_rpc_url = ci_rpc_url c, cp_asset_id = ci_asset_id c,
     cp_ss58 = ci_ss58 c\<rparr>"

definition info :: "currency_properties \<Rightarrow> string \<Rightarrow> currency_info" where
  "info p currency = \<lparr>ci_currency = currency, ci_chain_name = cp_chain_name p,
     ci_kind = cp_kind p, ci_decimals = cp_decimals p, ci_rpc_url = cp_rpc_url p,
     ci_asset_id = cp_asset_id p, ci_ss58 = cp_ss58 p\<rparr>"

lemma properties_info [simp]: "properties (info p c) = p"
  by (simp add: properties_def info_def)

lemma info_currency [simp]: "ci_currency (info p c) = c"
  by (simp add: info_def)

record finalized_tx =
  block_number :: u64
  position_in_block :: u32
  tx_timestamp :: string

record transaction_info =
  tx_finalized :: "finalized_tx option"
  transaction_bytes :: string
  tx_sender :: string
  tx_recipient :: string
  tx_amount :: amount
  tx_currency :: currency_info
  tx_status :: tx_status

record order_query =
  query_order :: string
  query_amount :: f64
  query_callback :: string
  query_currency :: string

record order_info =
  withdrawal_status :: withdrawal_status
  payment_status :: payment_status
  order_amount :: f64
  order_currency :: currency_info
  order_callback :: string
  transactions :: "transaction_info list"
  payment_account :: string
  order_death :: timestamp

definition order_info_new :: "order_query \<Rightarrow> currency_info \<Rightarrow> string \<Rightarrow> timestamp \<Rightarrow> order_info" where
  "order_info_new query currency account death =
     \<lparr>withdrawal_status = Waiting, payment_status = Pending,
      order_amount = query_amount query, order_currency = currency,
      order_callback = query_callback query, transactions = [],
      payment_account = account, order_death = death\<rparr>"

datatype order_create_response = New order_info | Modified order_info | Collision order_info

record server_info =
  version :: string
  instance_id :: string
  debug :: bool
  kalatori_remark :: "string option"

record order_status =
  status_order :: string
  status_message :: string
  status_recipient :: string
  status_server_info :: server_info
  status_order_info :: order_info
  payment_page :: string
  redirect_url :: string

datatype order_response =
    NewOrder order_status
  | FoundOrder order_status
  | ModifiedOrder order_status
  | CollidedOrder order_status
  | NotFound

record server_status =
  ss_server_info :: server_info
  supported_currencies :: "string \<rightharpoonup> currency_properties"

record invalid_parameter =
  parameter :: string
  message :: string

end
