(* ===== verification/Amounts.thy ===== *)
theory Amounts
  imports Definitions
begin

text \<open>
  The integer amounts behind the floating-point amounts of the API: \<open>Balance::format\<close> and
  \<open>Balance::parse\<close> of \<open>src/definitions.rs\<close>. Every statement is for at most 22 decimals, where
  the power of ten is exact; the chains the daemon serves have at most 18.
\<close>

lemma product_exact: "unat d \<le> 22 \<Longrightarrow> decimal_exponent_product d = Finite (10 ^ unat d)"
  by (simp add: decimal_exponent_product_def f64_powi_ten)

lemma f64_of_bounded:
  assumes "\<bar>x\<bar> \<le> pow2 1000" and "pow2 (- 1022) \<le> \<bar>x\<bar>"
  shows "f64_of x = Finite (round_exact x)"
proof -
  have "\<bar>round_exact x - x\<bar> \<le> \<bar>x\<bar> * pow2 (- 53)" by (rule round_exact_error [OF assms(2)])
  also have "\<dots> \<le> \<bar>x\<bar> * pow2 0" by (rule mult_left_mono) (simp_all add: pow2_le_iff del: pow2_0)
  finally have "\<bar>round_exact x\<bar> \<le> \<bar>x\<bar> + \<bar>x\<bar>" by simp
  also have "\<dots> \<le> pow2 1000 + pow2 1000" using assms(1) by simp
  also have "\<dots> = pow2 1 * pow2 1000" by (simp add: pow2_def)
  also have "\<dots> < pow2 1024" unfolding pow2_add pow2_less_iff by simp
  finally have "\<bar>round_exact x\<bar> < pow2 1024" .
  then show ?thesis by (simp only: f64_of_def Let_def if_True)
qed

lemma relative_error_small: "pow2 (- 53) = 1 / 9007199254740992"
  by (simp add: pow2_def)

lemma wide_range: "2 ^ 60 \<le> pow2 1000" "pow2 (- 1022) \<le> 1 / 2 ^ 100"
proof -
  have "(2::rat) ^ 60 = pow2 60" by (simp add: pow2_def)
  also have "\<dots> \<le> pow2 1000" unfolding pow2_le_iff by simp
  finally show "2 ^ 60 \<le> pow2 1000" .
  have "pow2 (- 1022) \<le> pow2 (- 100)" unfolding pow2_le_iff by simp
  also have "\<dots> = 1 / 2 ^ 100" by (simp add: pow2_def)
  finally show "pow2 (- 1022) \<le> 1 / 2 ^ 100" .
qed

lemma ten_power_bounds: "n \<le> 22 \<Longrightarrow> 1 \<le> (10::rat) ^ n \<and> (10::rat) ^ n \<le> 10 ^ 22"
  by (intro conjI power_increasing one_le_power) simp_all

lemma f64_of_middle:
  assumes "1 / 2 ^ 100 \<le> x" and "x \<le> 2 ^ 60"
  shows "f64_of x = Finite (round_exact x)" and "\<bar>round_exact x - x\<bar> \<le> x / 9007199254740992"
proof -
  have pos: "0 < x" using assms(1) by (rule less_le_trans [rotated]) simp
  have lo: "pow2 (- 1022) \<le> \<bar>x\<bar>" and hi: "\<bar>x\<bar> \<le> pow2 1000"
    using assms pos wide_range by linarith+
  show "f64_of x = Finite (round_exact x)" by (rule f64_of_bounded [OF hi lo])
  show "\<bar>round_exact x - x\<bar> \<le> x / 9007199254740992"
    using round_exact_error [OF lo] pos by (simp add: relative_error_small)
qed

lemma f64_of_nat_exact:
  assumes "m < 2 ^ 53"
  shows "f64_of_nat m = Finite (of_nat m)"
proof -
  have "int m < int (2 ^ 53)" using assms by (simp only: of_nat_less_iff)
  then show ?thesis using f64_of_int [of "int m"] by (simp add: f64_of_nat_def)
qed

text \<open>Dividing and multiplying back, with a rounding each, stays within half a unit.\<close>

lemma divide_multiply_back:
  fixes k P :: rat
  assumes k: "1 \<le> k" "k \<le> 2 ^ 50" and P: "1 \<le> P" "P \<le> 10 ^ 22"
  shows "f64_of (k / P) = Finite (round_exact (k / P))"
    and "f64_of (round_exact (k / P) * P) = Finite (round_exact (round_exact (k / P) * P))"
    and "\<bar>round_exact (round_exact (k / P) * P) - k\<bar> < 1 / 2"
proof -
  define q z where "q = round_exact (k / P)" and "z = q * P"
  have quot: "1 / 2 ^ 100 \<le> k / P" "k / P \<le> 2 ^ 60"
  proof -
    have "1 / 2 ^ 100 \<le> 1 / (10::rat) ^ 22" by simp
    also have "\<dots> \<le> k / P" using k P by (intro frac_le) auto
    finally show "1 / 2 ^ 100 \<le> k / P" .
    have "k / P \<le> k / 1" using k P by (intro frac_le) auto
    then show "k / P \<le> 2 ^ 60" using k by simp
  qed
  have "\<bar>q - k / P\<bar> \<le> k / P / 9007199254740992" unfolding q_def by (rule f64_of_middle(2) [OF quot])
  then have "\<bar>q - k / P\<bar> * P \<le> k / P / 9007199254740992 * P" using P by (intro mult_right_mono) auto
  moreover have "\<bar>q - k / P\<bar> * P = \<bar>(q - k / P) * P\<bar>" using P by (simp add: abs_mult)
  ultimately have z: "\<bar>z - k\<bar> \<le> k / 9007199254740992"
    using P by (simp add: z_def left_diff_distrib)
  then have zd: "z - k \<le> k / 9007199254740992" "k - z \<le> k / 9007199254740992"
    by (simp_all only: abs_le_iff minus_diff_eq)
  then have zb: "k / 2 \<le> z" "z \<le> 2 * k" using k by linarith+
  have zr: "1 / 2 ^ 100 \<le> z" "z \<le> 2 ^ 60" using zb k by simp_all
  have w: "\<bar>round_exact z - z\<bar> \<le> z / 9007199254740992" by (rule f64_of_middle(2) [OF zr])
  then have "round_exact z - z \<le> z / 9007199254740992" "z - round_exact z \<le> z / 9007199254740992"
    by (simp_all only: abs_le_iff minus_diff_eq)
  with zd zb k have "round_exact z - k < 1 / 2" "k - round_exact z < 1 / 2" by simp_all
  then have "\<bar>round_exact z - k\<bar> < 1 / 2" by (simp only: abs_less_iff minus_diff_eq)
  then show "\<bar>round_exact (round_exact (k / P) * P) - k\<bar> < 1 / 2" by (simp add: z_def q_def)
  show "f64_of (k / P) = Finite (round_exact (k / P))" by (rule f64_of_middle(1) [OF quot])
  show "f64_of (round_exact (k / P) * P) = Finite (round_exact (round_exact (k / P) * P))"
    using f64_of_middle(1) [OF zr] by (simp add: z_def q_def)
qed

text \<open>C32. An integer amount of at most \<open>2 ^ 50\<close> units that is formatted for the API with up to
  22 decimals and parsed back is the same amount: the two roundings on the way never lose a
  unit.\<close>

theorem format_parse_roundtrip:
  assumes n: "unat (units b) \<le> 2 ^ 50" and d: "unat d \<le> 22"
  shows "balance_parse (balance_format b d) d = b"
proof (cases "units b = 0")
  case True
  then show ?thesis
    by (cases b) (simp add: balance_parse_def balance_format_def product_exact [OF d]
        f64_of_nat_def f64_of_def round_exact_def half_away_def)
next
  case False
  define k P where "k = (of_nat (unat (units b)) :: rat)" and "P = (10::rat) ^ unat d"
  have P: "1 \<le> P" "P \<le> 10 ^ 22" using ten_power_bounds [OF d] by (auto simp: P_def)
  have k: "1 \<le> k" "k \<le> 2 ^ 50"
  proof -
    have "1 \<le> unat (units b)" using False by (simp add: Suc_leI unat_gt_0)
    then have "(of_nat 1 :: rat) \<le> of_nat (unat (units b))" by (simp only: of_nat_le_iff)
    then show "1 \<le> k" by (simp add: k_def)
    have "(of_nat (unat (units b)) :: rat) \<le> of_nat (2 ^ 50)" using n by (simp only: of_nat_le_iff)
    then show "k \<le> 2 ^ 50" by (simp add: k_def)
  qed
  define q z where "q = round_exact (k / P)" and "z = q * P"
  note near = divide_multiply_back [OF k P, folded q_def, folded z_def]
  have half: "half_away (round_exact z) = int (unat (units b))"
    using near(3) by (intro half_away_error) (simp add: k_def)
  have exact: "f64_of_nat (unat (units b)) = Finite k"
    unfolding k_def using n by (intro f64_of_nat_exact) simp
  have fmt: "balance_format b d = Finite q"
    using P by (simp add: balance_format_def exact product_exact [OF d] near(1)
        flip: P_def)
  have "f64_mul (Finite q) (Finite P) = Finite (round_exact z)"
    by (simp add: near(2) flip: z_def)
  then have "balance_parse (balance_format b d) d
      = Balance (f64_to_u128 (Finite (of_int (int (unat (units b))))))"
    by (simp add: balance_parse_def fmt product_exact [OF d] half flip: P_def)
  also have "\<dots> = Balance (word_of_int (int (unat (units b))))"
    using unsigned_less [of "units b"] by (subst f64_to_u128_int) auto
  finally show ?thesis by (cases b) simp
qed

theorem format_parse_roundtrip_witness:
  "balance_parse (balance_format (Balance 12345678) 6) 6 = Balance 12345678"
  by (rule format_parse_roundtrip) simp_all


text \<open>An API amount that is a whole number of units below \<open>2 ^ 53\<close> is parsed to exactly that
  number of units.\<close>

theorem parse_exact:
  assumes "x * 10 ^ unat d = of_nat k" and "k < 2 ^ 53" and "unat d \<le> 22"
  shows "units (balance_parse (Finite x) d) = word_of_nat k"
proof -
  have "f64_mul (Finite x) (decimal_exponent_product d) = Finite (of_int (int k))"
    using f64_of_nat_exact [OF assms(2)]
    by (simp add: product_exact [OF assms(3)] assms(1) f64_of_nat_def)
  moreover have "half_away (of_int (int k)) = int k" by (rule half_away_error) simp
  ultimately show ?thesis
    using assms(2) f64_to_u128_int [of "int k"] by (simp add: balance_parse_def)
qed

theorem parse_exact_witness: "units (balance_parse (Finite (5 / 2)) 6) = 2500000"
  using parse_exact [of "5 / 2" 6 2500000] by simp

lemma parse_finite:
  assumes "unat d \<le> 22"
  shows "balance_parse (Finite x) d =
    Balance (f64_to_u128 (f64_round (f64_of (x * 10 ^ unat d))))"
  by (simp add: balance_parse_def product_exact [OF assms])

lemma u128_of_int_mono:
  assumes "0 \<le> k" and "k \<le> l" and "l < 2 ^ 128"
  shows "(word_of_int k :: u128) \<le> word_of_int l"
  using assms by (simp add: word_le_def uint_word_of_int)

lemma to_u128_mono:
  assumes "x \<le> y"
  shows "f64_to_u128 (Finite x) \<le> f64_to_u128 (Finite y)"
proof (cases "1 \<le> x \<and> y < 2 ^ 128")
  case True
  have fl: "\<lfloor>x\<rfloor> \<le> \<lfloor>y\<rfloor>" using assms by (rule floor_mono)
  have x: "1 \<le> \<lfloor>x\<rfloor>" using True by simp
  have "\<lfloor>y\<rfloor> < 2 ^ 128"
  proof -
    have "of_int \<lfloor>y\<rfloor> < (of_int (2 ^ 128) :: rat)" using True of_int_floor_le [of y] by simp
    then show ?thesis by (simp only: of_int_less_iff)
  qed
  with fl x have "(word_of_int \<lfloor>x\<rfloor> :: u128) \<le> word_of_int \<lfloor>y\<rfloor>"
    by (intro u128_of_int_mono) linarith+
  then show ?thesis using True assms by simp
next
  case False
  then show ?thesis using assms by auto
qed

lemma parse_nonpos:
  assumes "unat d \<le> 22" and "x \<le> 0"
  shows "units (balance_parse (Finite x) d) = 0"
proof -
  have le: "x * 10 ^ unat d \<le> 0" using assms(2) by (simp add: mult_nonpos_nonneg)
  then have "half_away (round_exact (x * 10 ^ unat d)) \<le> half_away 0"
    by (intro half_away_mono round_exact_sign(2))
  moreover have "half_away 0 = 0" using half_away_error [of 0 0] by simp
  ultimately have "\<not> 1 \<le> (of_int (half_away (round_exact (x * 10 ^ unat d))) :: rat)" by simp
  moreover have "x < 0" if "\<not> \<bar>round_exact (x * 10 ^ unat d)\<bar> < pow2 1024"
    using that assms(2) by (cases "x = 0") (auto simp: round_exact_def)
  ultimately show ?thesis
    using le by (auto simp: parse_finite [OF assms(1)] f64_of_def Let_def mult_neg_pos not_le)
qed

lemma parse_pos_mono:
  assumes d: "unat d \<le> 22" and "0 < x" and "x \<le> y"
  shows "balance_parse (Finite x) d \<le> balance_parse (Finite y) d"
proof -
  let ?x = "x * 10 ^ unat d" and ?y = "y * 10 ^ unat d"
  have m: "round_exact ?x \<le> round_exact ?y" and x: "0 \<le> round_exact ?x"
    using assms by (auto intro!: round_exact_mono round_exact_sign(1) mult_right_mono)
  show ?thesis
  proof (cases "\<bar>round_exact ?y\<bar> < pow2 1024")
    case True
    then have "\<bar>round_exact ?x\<bar> < pow2 1024" using m x by linarith
    moreover have "f64_to_u128 (Finite (of_int (half_away (round_exact ?x))))
        \<le> f64_to_u128 (Finite (of_int (half_away (round_exact ?y))))"
      using half_away_mono [OF m] by (intro to_u128_mono) (simp only: of_int_le_iff)
    ultimately show ?thesis using True
      by (simp add: parse_finite [OF d] f64_of_def Let_def less_eq_balance_def del: f64_to_u128.simps)
  next
    case False
    then have "f64_of ?y = Infinity False"
      using assms by (simp add: f64_of_def Let_def mult_less_0_iff)
    then show ?thesis by (simp add: parse_finite [OF d] less_eq_balance_def)
  qed
qed

lemma parse_bounds:
  assumes "unat d \<le> 22"
  shows "balance_parse x d \<le> balance_parse (Infinity False) d"
    and "balance_parse (Infinity True) d \<le> balance_parse x d"
  using zero_less_power [of "10 :: rat" "unat d"]
  by (simp_all add: balance_parse_def product_exact [OF assms] less_eq_balance_def)

text \<open>Parsing is monotone: a larger amount never stands for fewer units. This covers every
  pair of floats the comparison orders, infinities and overflow of the product included.\<close>

theorem parse_mono:
  assumes less: "f64_less a b" and d: "unat d \<le> 22"
  shows "balance_parse a d \<le> balance_parse b d"
proof -
  have "balance_parse (Finite x) d \<le> balance_parse (Finite y) d" if "x \<le> y" for x y
    using parse_pos_mono [OF d _ that] parse_nonpos [OF d, of x]
    by (cases "0 < x") (simp_all add: less_eq_balance_def)
  with less parse_bounds [OF d] show ?thesis by (cases a; cases b) (auto split: if_splits)
qed

theorem parse_mono_witness:
  "balance_parse (Finite (7 / 100)) 10 \<le> balance_parse (Finite 3) 10"
  by (rule parse_mono) simp_all




text \<open>Rounding is to the nearest unit, so a backend amount can exceed the amount of the API.\<close>

lemma parse_rounds_up: "units (balance_parse (Finite (3 / 4)) 0) = 1"
proof -
  have "f64_of (3 / 4) = Finite (3 / 4)"
    by (rule f64_of_repr [where m = 3 and e = "- 2"]) (simp_all add: pow2_def)
  moreover have "half_away (3 / 4) = 1" by (rule half_away_error) simp
  ultimately show ?thesis by (simp add: parse_finite)
qed

lemma half_even_near:
  assumes "\<bar>x - of_int m\<bar> < 1 / 2"
  shows "half_even x = m"
proof -
  have "\<bar>of_int (half_even x) - of_int m\<bar> < (1 :: rat)"
    using half_even_error [of x] assms by linarith
  then show ?thesis by linarith
qed

text \<open>Evaluating one rounding: the binade \<open>e\<close> and the nearest significand \<open>m\<close>.\<close>

lemma f64_of_eval:
  assumes "pow2 e \<le> x" and "x < pow2 (e + 1)" and "- 1022 \<le> e" and "e < 1000"
    and "\<bar>x / pow2 (e - 52) - of_int m\<bar> < 1 / 2"
  shows "f64_of x = Finite (of_int m * pow2 (e - 52))"
proof -
  have pos: "0 < x" using assms(1) by (rule less_le_trans [rotated]) simp
  have "ulp x = pow2 (e - 52)"
    using pos assms(3) ilog2_unique [OF assms(1,2)] by (simp add: ulp_def)
  then have "round_exact x = of_int m * pow2 (e - 52)"
    using pos half_even_near [OF assms(5)] by (simp add: round_exact_def)
  moreover have "\<bar>x\<bar> \<le> pow2 1000"
    using pos assms(2,4) pow2_le_iff [of "e + 1" 1000] by (simp del: pow2_0)
  moreover have "pow2 (- 1022) \<le> \<bar>x\<bar>"
    using pos assms(1,3) pow2_le_iff [of "- 1022" e] by simp
  ultimately show ?thesis using f64_of_bounded by simp
qed

lemma pow2_numeral: "pow2 1 = 2" "pow2 (numeral n) = 2 ^ numeral n"
  "pow2 (- numeral n) = 1 / 2 ^ numeral n"
  by (simp_all add: pow2_powi power_int_def field_simps)

text \<open>The expectations of the unit test \<open>balance_insufficient_precision\<close>: the double written
  \<open>931395.8622198153\<close> is parsed at 10 decimals to 9313958622198152 units, which are formatted as the
  double written \<open>931395.8622198151\<close>: the sixteenth digit is lost in each direction.\<close>

theorem balance_insufficient_precision:
  "\<exists>float. f64_of (9313958622198153 / 10 ^ 10) = Finite float \<and>
    balance_parse (Finite float) 10 = Balance 9313958622198152 \<and>
    balance_format (Balance 9313958622198152) 10 = f64_of (9313958622198151 / 10 ^ 10)"
proof -
  let ?float = "8000629535727657 / 2 ^ 33 :: rat"
  have literal: "f64_of (9313958622198153 / 10 ^ 10) = Finite ?float"
    by (subst f64_of_eval [where e = 19 and m = 8000629535727657]) (simp_all add: pow2_numeral)
  have "f64_of (?float * 10 ^ 10) = Finite 9313958622198152"
    by (subst f64_of_eval [where e = 53 and m = 4656979311099076]) (simp_all add: pow2_numeral)
  then have "f64_mul (Finite ?float) (decimal_exponent_product 10) = Finite (of_int 9313958622198152)"
    by (simp add: product_exact)
  moreover have "half_away (of_int 9313958622198152) = 9313958622198152" by (rule half_away_error) simp
  ultimately have parse: "balance_parse (Finite ?float) 10 = Balance 9313958622198152"
    using f64_to_u128_int [of 9313958622198152] by (simp add: balance_parse_def)
  have "f64_of 9313958622198152 = Finite 9313958622198152"
    by (subst f64_of_eval [where e = 53 and m = 4656979311099076]) (simp_all add: pow2_numeral)
  moreover have "f64_of (9313958622198152 / 10 ^ 10) = Finite (8000629535727656 / 2 ^ 33)"
    by (subst f64_of_eval [where e = 19 and m = 8000629535727656]) (simp_all add: pow2_numeral)
  moreover have "f64_of (9313958622198151 / 10 ^ 10) = Finite (8000629535727656 / 2 ^ 33)"
    by (subst f64_of_eval [where e = 19 and m = 8000629535727656]) (simp_all add: pow2_numeral)
  ultimately have "balance_format (Balance 9313958622198152) 10 = f64_of (9313958622198151 / 10 ^ 10)"
    by (simp add: balance_format_def product_exact f64_of_nat_def)
  with literal parse show ?thesis by blast
qed

end
