(* ===== verification/Errors.thy ===== *)
theory Errors
  imports Definitions
begin

text \<open>
  The errors of \<open>src/error.rs\<close>, one datatype per enum with the source's constructors (a prefix
  tells the variants of \<open>Error\<close> that wrap another enum from those of \<open>ChainError\<close>). An error of
  a third-party crate is opaque to the daemon and is carried as a string. The second part is
  \<open>PrettyCause\<close>, the printer of an error's chain of sources: the two printing loops with their
  saturating 16-bit counter, and the proof that they print every cause once, numbered.
\<close>

section \<open>Error enums\<close>

type_synonym foreign_error = string

datatype not_hex = HexBlockHash | HexMetadata | HexStorageKey | HexStorageValue

datatype util_error = NotHex not_hex

datatype signer_error =
    Env string
  | SignerDown
  | InvalidSeed foreign_error
  | InvalidDerivation foreign_error

datatype (plugins only: size code) chain_error =
    AssetId
  | AssetIdFormat
  | AssetsInvalid string
  | AssetKeyEmpty
  | AssetKeyNotSingleHash
  | AssetMetadataPlain
  | AssetMetadataUnexpected
  | AssetMetadataType
  | AssetMetadataMapSize
  | AssetBalanceFormat
  | AssetBalanceNotFound
  | Base58PrefixFormatNotSupported json
  | Base58PrefixMismatch u16 u16
  | BlockNumberFormat
  | BlockHashFormat
  | BlockHashLength
  | Client foreign_error
  | Tokio foreign_error
  | DecimalsFormatNotSupported json
  | GenesisHashFormat
  | MetadataFormat
  | MetadataNotDecodeable
  | NoBase58Prefix
  | NoBlockNumberDefinition
  | NoDecimals
  | NoMetadataV15
  | NoMetaPrefix
  | NoPallet
  | NoStorage
  | NoSystem
  | NoStorageInSystem
  | NoUnit
  | PropertiesFormat
  | RawMetadataNotDecodeable
  | UnitFormatNotSupported json
  | StorageValueFormat json
  | Util util_error
  | InvoiceAccount foreign_error
  | InvalidChain string
  | InvalidCurrency string
  | MessageDropped
  | BlockSubscriptionTerminated
  | MetaVersionErrorPallets foreign_error
  | StorageRegistryError foreign_error
  | BalanceNotFound
  | StorageQuery
  | EventsMissing
  | EventsNonexistant
  | ParserError foreign_error
  | StorageDecodeError foreign_error
  | RegistryError foreign_error
  | SubstrateConstructor foreign_error
  | TransactionNotSignable
  | ChainSigner signer_error
  | NothingToSend
  | StorageEntryNotMap
  | StorageEntryMapMultiple
  | StorageKeyNotFound string
  | StorageKeyNotU32
  | WrongNetwork string string string
  | Serde foreign_error

datatype db_error =
    CurrencyKeyNotFound
  | DbEngineDown
  | DbInternalError foreign_error
  | DbStartError foreign_error
  | IoError foreign_error
  | CodecError foreign_error
  | OrderNotFound string
  | AlreadyPaid string
  | NotPaid string
  | WithdrawalWasAttempted string
  | SerializationError string
  | DeserializationError string

datatype order_error =
    LessThanExistentialDeposit f64
  | UnknownCurrency
  | MissingParameter string
  | InvalidParameter string
  | InternalError

datatype force_withdrawal_error =
    WithdrawalMissingParameter string
  | WithdrawalInvalidParameter string
  | WithdrawalError order_status

datatype server_error = TcpListenerBind string | ThreadError

datatype seed_env_error =
    InvalidUnicodeOldSeedKey
  | InvalidUnicodeValue string
  | SeedNotPresent

datatype (plugins only: size code) error =
    SeedEnv seed_env_error
  | ConfigFileRead string foreign_error
  | ConfigFileParse foreign_error
  | ConfigParse string
  | EmptyEndpoints string
  | ErrChain chain_error
  | ErrDb db_error
  | ErrOrder order_error
  | ErrServer server_error
  | ErrSigner signer_error
  | ShutdownSignal foreign_error
  | Runtime foreign_error
  | LoggerDirectives string foreign_error
  | RecipientAccount foreign_error
  | Fatal
  | DuplicateCurrency string

section \<open>Printing the chain of causes\<close>

definition overload :: u16 where
  "overload = 9999"

definition newline :: string where
  "newline = [CHR 0x0A]"

text \<open>\<open>{number:>5}\<close>: padded on the left to five characters.\<close>

definition pad5 :: "string \<Rightarrow> string" where
  "pad5 s = replicate (5 - length s) (CHR '' '') @ s"

definition print_cause :: "string \<Rightarrow> string \<Rightarrow> string" where
  "print_cause cause number = newline @ pad5 number @ '': '' @ cause @ ''.''"

definition sat_inc :: "u16 \<Rightarrow> u16" where
  "sat_inc n = (if n = - 1 then n else n + 1)"

text \<open>The two loops. \<open>rest\<close> lists the further sources of \<open>another_cause\<close>.\<close>

fun overload_loop :: "string \<Rightarrow> string list \<Rightarrow> string" where
  "overload_loop another_cause rest =
     print_cause another_cause ''>9999'' @
     (case rest of [] \<Rightarrow> [] | one_more_cause # rest' \<Rightarrow> overload_loop one_more_cause rest')"

fun numbered_loop :: "u16 \<Rightarrow> string \<Rightarrow> string list \<Rightarrow> string" where
  "numbered_loop number another_cause rest =
     (if number = overload then overload_loop another_cause rest
      else let number' = sat_inc number in
        print_cause another_cause (show_nat (unat number')) @
        (case rest of [] \<Rightarrow> []
         | one_more_cause # rest' \<Rightarrow> numbered_loop number' one_more_cause rest'))"

declare overload_loop.simps [simp del] numbered_loop.simps [simp del]

text \<open>\<open>sources\<close> are the messages of the error's sources, the direct one first.\<close>

definition pretty_cause :: "string list \<Rightarrow> string" where
  "pretty_cause sources = (case sources of
     [] \<Rightarrow> ''''
   | cause # rest \<Rightarrow> newline @ newline @ ''Caused by:'' @
       (case rest of
          [] \<Rightarrow> '' '' @ cause @ ''.''
        | another_cause # rest' \<Rightarrow>
            print_cause cause (show_nat 0) @ numbered_loop 0 another_cause rest'))"

text \<open>What is meant: line \<open>i\<close> carries number \<open>i\<close>, and \<open>>9999\<close> past the limit.\<close>

definition cause_label :: "nat \<Rightarrow> string" where
  "cause_label i = (if i \<le> 9999 then show_nat i else ''>9999'')"

fun cause_lines :: "nat \<Rightarrow> string list \<Rightarrow> string" where
  "cause_lines i [] = ''''"
| "cause_lines i (c # cs) = print_cause c (cause_label i) @ cause_lines (Suc i) cs"

lemma overload_loop_lines: "9999 < i \<Longrightarrow> overload_loop c cs = cause_lines i (c # cs)"
proof (induction cs arbitrary: c i)
  case Nil
  then show ?case by (simp add: overload_loop.simps cause_label_def)
next
  case (Cons d ds)
  then have "overload_loop d ds = cause_lines (Suc i) (d # ds)" by (intro Cons.IH) simp
  then show ?case using Cons.prems
    by (subst overload_loop.simps) (simp add: cause_label_def)
qed

lemma unat_sat_inc:
  assumes "unat n < 9999"
  shows "unat (sat_inc n) = Suc (unat n)"
proof -
  have "unat (- 1 :: u16) = 65535" by (simp add: unsigned_minus_1_eq_mask mask_eq_exp_minus_1)
  with assms have "n \<noteq> - 1" by auto
  with assms show ?thesis by (simp add: sat_inc_def unat_word_ariths)
qed

lemma numbered_loop_lines:
  "unat number \<le> 9999 \<Longrightarrow> numbered_loop number c cs = cause_lines (Suc (unat number)) (c # cs)"
proof (induction cs arbitrary: c number)
  case (Nil c number)
  show ?case
  proof (cases "number = overload")
    case True
    then show ?thesis
      by (simp add: numbered_loop.simps overload_loop.simps overload_def cause_label_def)
  next
    case False
    with Nil have lt: "unat number < 9999" by (auto simp: overload_def word_unat_eq_iff)
    then have "unat (sat_inc number) = Suc (unat number)" by (rule unat_sat_inc)
    with False lt show ?thesis
      by (simp add: numbered_loop.simps Let_def cause_label_def)
  qed
next
  case (Cons d ds c number)
  show ?case
  proof (cases "number = overload")
    case True
    then have "numbered_loop number c (d # ds) = overload_loop c (d # ds)"
      by (subst numbered_loop.simps) simp
    also have "\<dots> = cause_lines 10000 (c # d # ds)" by (rule overload_loop_lines) simp
    finally show ?thesis using True by (simp add: overload_def)
  next
    case False
    with Cons.prems have lt: "unat number < 9999" by (auto simp: overload_def word_unat_eq_iff)
    then have s: "unat (sat_inc number) = Suc (unat number)" by (rule unat_sat_inc)
    then have "numbered_loop (sat_inc number) d ds = cause_lines (Suc (Suc (unat number))) (d # ds)"
      using lt Cons.IH [of "sat_inc number" d] by simp
    then show ?thesis using False lt s
      by (subst numbered_loop.simps) (simp add: Let_def cause_label_def)
  qed
qed

text \<open>For an error with at least two sources the printer writes every source exactly once, in
  order from the direct one, numbered from 0, with the label \<open>>9999\<close> from the ten-thousandth
  on: the 16-bit counter never wraps and no source is lost where the two loops meet.\<close>

theorem pretty_cause_lines:
  "pretty_cause (c # d # cs) = newline @ newline @ ''Caused by:'' @ cause_lines 0 (c # d # cs)"
  by (simp add: pretty_cause_def numbered_loop_lines cause_label_def)

text \<open>The expected text of the unit test \<open>multiple\<close>.\<close>

lemma pretty_cause_test:
  "pretty_cause [''E2'', ''E1''] =
     newline @ newline @ ''Caused by:'' @ newline @ ''    0: E2.'' @ newline @ ''    1: E1.''"
  by code_simp

end
