(* ===== verification/Error_Tests.thy ===== *)
theory Error_Tests
  imports Errors
begin

text \<open>
  The unit tests of \<open>src/error.rs\<close>: their error type, whose sources are nested as deep as wanted, and what the
  printer of a chain of causes (\<open>Errors\<close>) writes for it.
\<close>

section \<open>The error of the tests\<close>

datatype test_error = TestError (te_source: "test_error option") (te_number: u16)

definition test_error_empty :: test_error where
  "test_error_empty = TestError None 0"

fun nest_times :: "nat \<Rightarrow> test_error \<Rightarrow> test_error" where
  "nest_times 0 e = e"
| "nest_times (Suc n) e = nest_times n (TestError (Some e) (sat_inc (te_number e)))"

definition nested :: "u16 \<Rightarrow> test_error" where
  "nested nest = nest_times (unat nest) test_error_empty"

text \<open>\<open>debug_tuple(stringify!(TestError)).field(&self.number)\<close>\<close>

definition display_test_error :: "test_error \<Rightarrow> string" where
  "display_test_error e = ''TestError('' @ show_nat (unat (te_number e)) @ '')''"

text \<open>What the printer finds by asking for the source again and again.\<close>

fun test_sources :: "test_error \<Rightarrow> string list" where
  "test_sources (TestError None n) = []"
| "test_sources (TestError (Some e) n) = display_test_error e # test_sources e"

text \<open>\<open>e.pretty_cause().to_string()\<close>\<close>

definition test_message :: "test_error \<Rightarrow> string" where
  "test_message e = pretty_cause (test_sources e)"

section \<open>Lemmas\<close>

text \<open>An error whose number counts what is nested in it.\<close>

fun counted :: "nat \<Rightarrow> test_error \<Rightarrow> bool" where
  "counted n (TestError None k) \<longleftrightarrow> n = 0 \<and> k = 0"
| "counted n (TestError (Some e) k) \<longleftrightarrow> (\<exists>m. n = Suc m \<and> counted m e \<and> unat k = n)"

lemma counted_number: "counted n e \<Longrightarrow> unat (te_number e) = n"
  by (cases "(n, e)" rule: counted.cases) auto

lemma unat_sat_inc_any:
  assumes "unat n < 65535"
  shows "unat (sat_inc n) = Suc (unat n)"
proof -
  have "unat (- 1 :: u16) = 65535" by (simp add: unsigned_minus_1_eq_mask mask_eq_exp_minus_1)
  with assms have "n \<noteq> - 1" by auto
  with assms show ?thesis by (simp add: sat_inc_def unat_word_ariths)
qed

lemma nest_times_counted:
  "counted k e \<Longrightarrow> k + n \<le> 65535 \<Longrightarrow> counted (k + n) (nest_times n e)"
proof (induction n arbitrary: k e)
  case (Suc n)
  let ?e = "TestError (Some e) (sat_inc (te_number e))"
  from Suc.prems counted_number [OF Suc.prems(1)] have "counted (Suc k) ?e"
    by (simp add: unat_sat_inc_any)
  from Suc.IH [OF this] Suc.prems(2) show ?case by simp
qed simp

definition test_line :: "nat \<Rightarrow> string" where
  "test_line n = ''TestError('' @ show_nat n @ '')''"

lemma counted_sources: "counted n e \<Longrightarrow> test_sources e = map test_line (rev [0..<n])"
proof (induction e arbitrary: n)
  case (TestError s k)
  show ?case
  proof (cases s)
    case (Some e)
    with TestError.prems obtain m where m: "n = Suc m" "counted m e" by auto
    with TestError.IH [of e m] Some counted_number [OF m(2)] show ?thesis
      by (simp add: display_test_error_def test_line_def)
  qed (use TestError in simp)
qed

lemma nested_sources: "test_sources (nested nest) = map test_line (rev [0..<unat nest])"
proof -
  have "unat nest \<le> 65535" using unsigned_less [where 'a = nat, of nest] by simp
  then have "counted (unat nest) (nested nest)"
    using nest_times_counted [of 0 test_error_empty "unat nest"] by (simp add: nested_def test_error_empty_def)
  then show ?thesis by (rule counted_sources)
qed

lemma cause_lines_append: "cause_lines i (xs @ ys) = cause_lines i xs @ cause_lines (i + length xs) ys"
  by (induction xs arbitrary: i) auto

lemma cause_lines_concat:
  "cause_lines i xs = concat (map (\<lambda>k. print_cause (xs ! k) (cause_label (i + k))) [0..<length xs])"
  by (induction xs rule: rev_induct) (auto simp: cause_lines_append nth_append intro!: arg_cong [where f = concat])

lemma nested_lines:
  assumes "2 \<le> unat nest"
  shows "test_message (nested nest) = newline @ newline @ ''Caused by:'' @
    concat (map (\<lambda>k. print_cause (test_line (unat nest - Suc k)) (cause_label k)) [0..<unat nest])"
proof -
  let ?xs = "map test_line (rev [0..<unat nest])"
  from assms have "length ?xs = Suc (Suc (unat nest - 2))" by simp
  then obtain c d cs where xs: "?xs = c # d # cs" by (metis length_Suc_conv)
  have "?xs ! k = test_line (unat nest - Suc k)" if "k < unat nest" for k
    using that by (simp add: rev_nth)
  then have "cause_lines 0 ?xs =
      concat (map (\<lambda>k. print_cause (test_line (unat nest - Suc k)) (cause_label k)) [0..<unat nest])"
    unfolding cause_lines_concat by (intro arg_cong [where f = concat] map_cong) simp_all
  then show ?thesis by (simp only: test_message_def nested_sources xs pretty_cause_lines)
qed

text \<open>The messages \<open>expected_message\<close> of the test \<open>overload\<close>.\<close>

definition expected_line :: "nat \<Rightarrow> string" where
  "expected_line number = newline @ pad5 (show_nat number) @ '': '' @
     display_test_error (TestError None (overload + 4 - of_nat number)) @ ''.''"

definition expected_message :: string where
  "expected_message = newline @ newline @ ''Caused by:'' @
     concat (map expected_line [0..<Suc (unat overload)]) @
     newline @ ''>9999: TestError(3).'' @ newline @ ''>9999: TestError(2).'' @
     newline @ ''>9999: TestError(1).'' @ newline @ ''>9999: TestError(0).''"

lemma expected_line_eq:
  assumes "k < 10000"
  shows "print_cause (test_line (10004 - Suc k)) (cause_label k) = expected_line k"
proof -
  have "unat (overload + 4 - of_nat k :: u16) = 10003 - k"
    using assms by (simp add: overload_def unat_sub_if_size unat_of_nat)
  with assms show ?thesis
    by (simp add: print_cause_def cause_label_def test_line_def display_test_error_def expected_line_def)
qed

lemma overload_test: "test_message (nested (overload + 5)) = expected_message"
proof -
  let ?line = "\<lambda>k. print_cause (test_line (10004 - Suc k)) (cause_label k)"
  have ten: "unat (overload + 5) = 10004" "Suc (unat overload) = 10000" by (simp_all add: overload_def)
  have numbered: "map ?line [0..<10000] = map expected_line [0..<10000]"
    by (intro map_cong refl expected_line_eq) simp
  have past: "concat (map ?line [10000, 10001, 10002, 10003]) = newline @ ''>9999: TestError(3).'' @
     newline @ ''>9999: TestError(2).'' @ newline @ ''>9999: TestError(1).'' @ newline @ ''>9999: TestError(0).''"
    by code_simp
  have "[0..<10000 + 4] = [0..<10000] @ [10000..<10000 + 4 :: nat]" by (rule upt_add_eq_append) simp
  moreover have "[10000..<10000 + 4] = [10000, 10001, 10002, 10003 :: nat]" by (simp add: upt_conv_Cons)
  moreover have "10000 + 4 = (10004 :: nat)" by simp
  ultimately have "[0..<10004] = [0..<10000] @ [10000, 10001, 10002, 10003 :: nat]" by metis
  then show ?thesis
    using nested_lines [of "overload + 5"]
    by (simp only: ten numbered past map_append concat_append expected_message_def append_assoc)
qed

section \<open>Properties\<close>

text \<open>What the unit tests of the printer assert holds: no text for an error without a source, one line for a
  single one, a numbered list for three, and for 10004 sources the numbers up to 9999 padded to five characters,
  then \<open>>9999\<close> for the four that are left.\<close>

theorem printer_tests_hold:
  "test_message test_error_empty = [] \<and>
   test_message (nested 1) = newline @ newline @ ''Caused by: TestError(0).'' \<and>
   test_message (nested 3) = newline @ newline @ ''Caused by:'' @ newline @ ''    0: TestError(2).'' @
     newline @ ''    1: TestError(1).'' @ newline @ ''    2: TestError(0).'' \<and>
   test_message (nested (overload + 5)) = expected_message"
proof (intro conjI)
  show "test_message test_error_empty = []" by code_simp
  show "test_message (nested 1) = newline @ newline @ ''Caused by: TestError(0).''" by code_simp
  show "test_message (nested 3) = newline @ newline @ ''Caused by:'' @ newline @ ''    0: TestError(2).'' @
     newline @ ''    1: TestError(1).'' @ newline @ ''    2: TestError(0).''" by code_simp
qed (rule overload_test)

end
