(* ===== verification/Database.thy ===== *)
theory Database
  imports Errors
begin

text \<open>
  The database server of \<open>src/database.rs\<close>: the order book kept in a \<open>sled\<close> tree and the task
  that serves one request at a time. \<open>sled\<close>, the SCALE codec, \<open>serde_json\<close> and the name
  generator are third-party code: the record \<open>db_env\<close> holds the functions the server calls, and
  \<open>sled_contract\<close> and \<open>codec_contract\<close> state their documented behaviour.
\<close>

lemma set_map_filter_iff: "y \<in> set (List.map_filter f xs) \<longleftrightarrow> (\<exists>x \<in> set xs. f x = Some y)"
  by (induction xs) (auto simp: List.map_filter_simps split: option.splits)

lemma result_ok_Some [simp]: "result_ok r = Some x \<longleftrightarrow> r = Inr x"
  by (cases r) auto

section \<open>The environment of the server\<close>

text \<open>\<open>'t\<close> is the state of a sled tree (its faults included), \<open>'v\<close> a stored value's bytes,
  which the server only passes to the decoders.\<close>

record ('t, 'v) db_env =
  tree_get :: "bytes \<Rightarrow> ('t, foreign_error, 'v option) call"
  tree_insert :: "bytes \<Rightarrow> 'v \<Rightarrow> ('t, foreign_error, unit) call"
  tree_iter :: "'t \<Rightarrow> (foreign_error + (bytes \<times> 'v)) list \<times> 't"
  enc_string :: "string \<Rightarrow> bytes"
  dec_string :: "bytes \<Rightarrow> foreign_error + string"
  enc_info :: "order_info \<Rightarrow> 'v"
  dec_info :: "'v \<Rightarrow> foreign_error + order_info"
  enc_server_info :: "server_info \<Rightarrow> foreign_error + 'v"
  dec_server_info :: "'v \<Rightarrow> foreign_error + server_info"

text \<open>\<open>contents t\<close> is what the tree holds. A failed insert may or may not have been applied.\<close>

definition sled_contract :: "('t, 'v) db_env \<Rightarrow> ('t \<Rightarrow> bytes \<rightharpoonup> 'v) \<Rightarrow> bool" where
  "sled_contract E contents \<longleftrightarrow>
     (\<forall>k t r t'. tree_get E k t = (r, t') \<longrightarrow>
        contents t' = contents t \<and> (\<forall>v. r = Inr v \<longrightarrow> v = contents t k)) \<and>
     (\<forall>k v t r t'. tree_insert E k v t = (r, t') \<longrightarrow>
        (contents t' = (contents t)(k \<mapsto> v) \<or> (\<exists>e. r = Inl e) \<and> contents t' = contents t)) \<and>
     (\<forall>t items t'. tree_iter E t = (items, t') \<longrightarrow>
        contents t' = contents t \<and>
        (\<forall>k v. Inr (k, v) \<in> set items \<longrightarrow> contents t k = Some v) \<and>
        ((\<forall>e. Inl e \<notin> set items) \<longrightarrow>
          (\<forall>k v. contents t k = Some v \<longrightarrow> Inr (k, v) \<in> set items)))"

text \<open>Decoding inverts encoding; a string of fewer than 64 bytes is encoded as one byte holding
  four times its length, followed by its bytes (SCALE's single-byte compact mode); every
  encoding has a length prefix.\<close>

definition codec_contract :: "('t, 'v) db_env \<Rightarrow> bool" where
  "codec_contract E \<longleftrightarrow>
     (\<forall>s. dec_string E (enc_string E s) = Inr s) \<and>
     (\<forall>x. dec_info E (enc_info E x) = Inr x) \<and>
     (\<forall>i v. enc_server_info E i = Inr v \<longrightarrow> dec_server_info E v = Inr i) \<and>
     (\<forall>s. length s < 64 \<longrightarrow> enc_string E s = word_of_nat (4 * length s) # bytes_of s) \<and>
     (\<forall>s. length s < length (enc_string E s))"

section \<open>The order operations\<close>

definition calculate_death_ts :: "nat \<Rightarrow> timestamp \<Rightarrow> timestamp" where
  "calculate_death_ts now_millis account_lifetime =
     (let start = word_of_nat now_millis in Timestamp (start + ts_millis account_lifetime))"

definition db_get :: "('t, 'v) db_env \<Rightarrow> bytes \<Rightarrow> ('t, db_error, 'v option) call" where
  "db_get E key = call_map_err DbInternalError (tree_get E key)"

definition db_insert :: "('t, 'v) db_env \<Rightarrow> bytes \<Rightarrow> 'v \<Rightarrow> ('t, db_error, unit) call" where
  "db_insert E key v = call_map_err DbInternalError (tree_insert E key v)"

definition decode_info :: "('t, 'v) db_env \<Rightarrow> 'v \<Rightarrow> ('t, db_error, order_info) call" where
  "decode_info E v = call_of (map_err CodecError (dec_info E v))"

definition create_order ::
    "('t, 'v) db_env \<Rightarrow> timestamp \<Rightarrow> nat \<Rightarrow> string \<Rightarrow> order_query \<Rightarrow> currency_info \<Rightarrow> string
      \<Rightarrow> ('t, db_error, order_create_response) call" where
  "create_order E account_lifetime now order query currency account =
     (let order_key = enc_string E order in
      call_then (db_get E order_key) (\<lambda>found. case found of
        Some record \<Rightarrow> call_then (decode_info E record) (\<lambda>old.
          (case payment_status old of
             Pending \<Rightarrow>
               (let death = calculate_death_ts now account_lifetime;
                    new = old\<lparr>order_death := death, order_currency := currency,
                              order_amount := query_amount query\<rparr>
                in call_then (db_insert E order_key (enc_info E new)) (\<lambda>_. call_ok (Modified new)))
           | Paid \<Rightarrow> call_ok (Collision old)))
      | None \<Rightarrow>
          (let death = calculate_death_ts now account_lifetime;
               new = order_info_new query currency account death
           in call_then (db_insert E order_key (enc_info E new)) (\<lambda>_. call_ok (New new)))))"

definition read_order :: "('t, 'v) db_env \<Rightarrow> string \<Rightarrow> ('t, db_error, order_info option) call" where
  "read_order E order =
     call_then (db_get E (enc_string E order)) (\<lambda>found. case found of
       Some record \<Rightarrow> call_then (decode_info E record) (\<lambda>x. call_ok (Some x))
     | None \<Rightarrow> call_ok None)"

definition mark_paid :: "('t, 'v) db_env \<Rightarrow> string \<Rightarrow> ('t, db_error, order_info) call" where
  "mark_paid E order =
     call_then (db_get E (enc_string E order)) (\<lambda>found. case found of
       Some record \<Rightarrow> call_then (decode_info E record) (\<lambda>x.
         if payment_status x = Pending then
           (let x' = x\<lparr>payment_status := Paid\<rparr> in
            call_then (db_insert E (enc_string E order) (enc_info E x')) (\<lambda>_. call_ok x'))
         else call_err (AlreadyPaid order))
     | None \<Rightarrow> call_err (OrderNotFound order))"

text \<open>\<open>mark_withdrawn\<close> and \<open>mark_stuck\<close> look the order up under \<open>order.clone()\<close>, the raw bytes
  of the id, and store it under \<open>order.encode()\<close>.\<close>

definition mark_withdrawn :: "('t, 'v) db_env \<Rightarrow> string \<Rightarrow> ('t, db_error, unit) call" where
  "mark_withdrawn E order =
     call_then (db_get E (bytes_of order)) (\<lambda>found. case found of
       Some record \<Rightarrow> call_then (decode_info E record) (\<lambda>x.
         if payment_status x = Paid then
           if withdrawal_status x = Waiting then
             call_then (db_insert E (enc_string E order)
               (enc_info E (x\<lparr>withdrawal_status := Completed\<rparr>))) (\<lambda>_. call_ok ())
           else call_err (WithdrawalWasAttempted order)
         else call_err (NotPaid order))
     | None \<Rightarrow> call_err (OrderNotFound order))"

definition mark_stuck :: "('t, 'v) db_env \<Rightarrow> string \<Rightarrow> ('t, db_error, unit) call" where
  "mark_stuck E order =
     call_then (db_get E (bytes_of order)) (\<lambda>found. case found of
       Some record \<Rightarrow> call_then (decode_info E record) (\<lambda>x.
         if payment_status x = Paid then
           if withdrawal_status x = Waiting then
             call_then (db_insert E (enc_string E order)
               (enc_info E (x\<lparr>withdrawal_status := Failed\<rparr>))) (\<lambda>_. call_ok ())
           else call_err (WithdrawalWasAttempted order)
         else call_err (NotPaid order))
     | None \<Rightarrow> call_err (OrderNotFound order))"

text \<open>\<open>orders.iter()\<close>: unreadable or undecodable entries are skipped.\<close>

definition decode_entry :: "('t, 'v) db_env \<Rightarrow> bytes \<times> 'v \<Rightarrow> (string \<times> order_info) option" where
  "decode_entry E kv = (case (dec_string E (fst kv), dec_info E (snd kv)) of
     (Inr a, Inr b) \<Rightarrow> Some (a, b) | _ \<Rightarrow> None)"

definition active_order_list ::
    "('t, 'v) db_env \<Rightarrow> ('t, db_error, (string \<times> order_info) list) call" where
  "active_order_list E t = (case tree_iter E t of (items, t') \<Rightarrow>
     (Inr (filter (\<lambda>(a, b). payment_status b = Pending)
        (List.map_filter (decode_entry E) (List.map_filter result_ok items))), t'))"

definition SERVER_INFO_ID :: bytes where
  "SERVER_INFO_ID = bytes_of ''instance_id''"

definition CARGO_PKG_VERSION :: string where
  "CARGO_PKG_VERSION = ''0.2.2''"

text \<open>\<open>opened\<close> is the error of \<open>open_tree\<close>, if any; \<open>generated\<close> what the name generator yields.\<close>

definition initialize_server_info ::
    "('t, 'v) db_env \<Rightarrow> foreign_error option \<Rightarrow> string option \<Rightarrow> ('t, db_error, string) call" where
  "initialize_server_info E opened generated =
     (case opened of
        Some e \<Rightarrow> call_err (DbStartError e)
      | None \<Rightarrow>
          call_then (db_get E SERVER_INFO_ID) (\<lambda>found. case found of
            Some server_info_data \<Rightarrow>
              call_then (call_of (map_err DeserializationError (dec_server_info E server_info_data)))
                (\<lambda>i. call_ok (instance_id i))
          | None \<Rightarrow>
              (let new_instance_id = (case generated of Some n \<Rightarrow> n | None \<Rightarrow> ''unknown-instance'');
                   i = \<lparr>version = CARGO_PKG_VERSION, instance_id = new_instance_id,
                        debug = False, kalatori_remark = None\<rparr>
               in call_then (call_of (map_err SerializationError (enc_server_info E i))) (\<lambda>v.
                  call_then (db_insert E SERVER_INFO_ID v) (\<lambda>_. call_ok new_instance_id)))))"


section \<open>The server loop\<close>

datatype db_request =
    CreateOrder string order_query currency_info string
  | ActiveOrderList
  | ReadOrder string
  | MarkPaid string
  | MarkWithdrawn string
  | MarkStuck string
  | InitializeServerInfo
  | DbShutdown

datatype db_reply =
    CreateReply "db_error + order_create_response"
  | ListReply "db_error + (string \<times> order_info) list"
  | ReadReply "db_error + order_info option"
  | PaidReply "db_error + order_info"
  | ModifyReply "db_error + unit"
  | InfoReply "db_error + string"
  | ShutdownReply

record 't db_state =
  orders :: 't
  server_infos :: 't
  serving :: bool

text \<open>What the outside world supplies while one request is served: the clock, the outcome of
  opening the server information tree and the generated name.\<close>

record db_tick =
  now_millis :: nat
  open_fault :: "foreign_error option"
  generated_name :: "string option"

fun serve :: "('t, 'v) db_env \<Rightarrow> timestamp \<Rightarrow> db_tick \<Rightarrow> db_request \<Rightarrow> 't db_state
    \<Rightarrow> db_reply \<times> 't db_state" where
  "serve E life k (CreateOrder oid q c a) s =
     (case create_order E life (now_millis k) oid q c a (orders s) of
        (r, t) \<Rightarrow> (CreateReply r, s\<lparr>orders := t\<rparr>))"
| "serve E life k ActiveOrderList s =
     (case active_order_list E (orders s) of (r, t) \<Rightarrow> (ListReply r, s\<lparr>orders := t\<rparr>))"
| "serve E life k (ReadOrder oid) s =
     (case read_order E oid (orders s) of (r, t) \<Rightarrow> (ReadReply r, s\<lparr>orders := t\<rparr>))"
| "serve E life k (MarkPaid oid) s =
     (case mark_paid E oid (orders s) of (r, t) \<Rightarrow> (PaidReply r, s\<lparr>orders := t\<rparr>))"
| "serve E life k (MarkWithdrawn oid) s =
     (case mark_withdrawn E oid (orders s) of (r, t) \<Rightarrow> (ModifyReply r, s\<lparr>orders := t\<rparr>))"
| "serve E life k (MarkStuck oid) s =
     (case mark_stuck E oid (orders s) of (r, t) \<Rightarrow> (ModifyReply r, s\<lparr>orders := t\<rparr>))"
| "serve E life k InitializeServerInfo s =
     (case initialize_server_info E (open_fault k) (generated_name k) (server_infos s) of
        (r, t) \<Rightarrow> (InfoReply r, s\<lparr>server_infos := t\<rparr>))"
| "serve E life k DbShutdown s = (ShutdownReply, s\<lparr>serving := False\<rparr>)"

text \<open>
  \<open>while let Some(request) = rx.recv().await\<close>: the queue is served in order; after \<open>Shutdown\<close>
  the loop is left and the receivers of the requests still queued get no answer.
\<close>

fun serve_all :: "('t, 'v) db_env \<Rightarrow> timestamp \<Rightarrow> (db_tick \<times> db_request) list \<Rightarrow> 't db_state
    \<Rightarrow> db_reply option list \<times> 't db_state" where
  "serve_all E life [] s = ([], s)"
| "serve_all E life ((k, req) # queue) s =
     (if serving s then
        (case serve E life k req s of (reply, s') \<Rightarrow>
          (case serve_all E life queue s' of (replies, s'') \<Rightarrow> (Some reply # replies, s'')))
      else (case serve_all E life queue s of (replies, s'') \<Rightarrow> (None # replies, s'')))"

text \<open>
  A method of the \<open>Database\<close> handle: send the request and await the answer; a server that is
  gone drops the reply channel, which is \<open>DbEngineDown\<close>.
\<close>

definition db_call :: "('t, 'v) db_env \<Rightarrow> timestamp \<Rightarrow> db_tick \<Rightarrow> db_request
    \<Rightarrow> 't db_state \<Rightarrow> db_reply option \<times> 't db_state" where
  "db_call E life k req s =
     (if serving s then (case serve E life k req s of (r, s') \<Rightarrow> (Some r, s')) else (None, s))"

definition call_create_order where
  "call_create_order E life k oid q c a s = (case db_call E life k (CreateOrder oid q c a) s of
     (Some (CreateReply r), s') \<Rightarrow> (r, s') | (_, s') \<Rightarrow> (Inl DbEngineDown, s'))"

definition call_read_order where
  "call_read_order E life k oid s = (case db_call E life k (ReadOrder oid) s of
     (Some (ReadReply r), s') \<Rightarrow> (r, s') | (_, s') \<Rightarrow> (Inl DbEngineDown, s'))"

definition call_mark_paid where
  "call_mark_paid E life k oid s = (case db_call E life k (MarkPaid oid) s of
     (Some (PaidReply r), s') \<Rightarrow> (r, s') | (_, s') \<Rightarrow> (Inl DbEngineDown, s'))"

definition call_mark_withdrawn where
  "call_mark_withdrawn E life k oid s = (case db_call E life k (MarkWithdrawn oid) s of
     (Some (ModifyReply r), s') \<Rightarrow> (r, s') | (_, s') \<Rightarrow> (Inl DbEngineDown, s'))"

definition call_mark_stuck where
  "call_mark_stuck E life k oid s = (case db_call E life k (MarkStuck oid) s of
     (Some (ModifyReply r), s') \<Rightarrow> (r, s') | (_, s') \<Rightarrow> (Inl DbEngineDown, s'))"

definition call_order_list where
  "call_order_list E life k s = (case db_call E life k ActiveOrderList s of
     (Some (ListReply r), s') \<Rightarrow> (r, s') | (_, s') \<Rightarrow> (Inl DbEngineDown, s'))"

definition call_initialize_server_info where
  "call_initialize_server_info E life k s = (case db_call E life k InitializeServerInfo s of
     (Some (InfoReply r), s') \<Rightarrow> (r, s') | (_, s') \<Rightarrow> (Inl DbEngineDown, s'))"

definition call_shutdown where
  "call_shutdown E life k s = snd (db_call E life k DbShutdown s)"

lemmas db_client_defs =
  call_create_order_def call_read_order_def call_mark_paid_def call_mark_withdrawn_def
  call_mark_stuck_def call_order_list_def call_initialize_server_info_def call_shutdown_def

end
