(* ===== verification/Task.thy ===== *)
theory Task
  imports Prelude
begin

text \<open>
  What the daemon's tasks have in common: a loop that receives requests one after the other,
  \<open>while let Some(request) = rx.recv().await { .. }\<close>. The database server, the signer and the state
  handler are instances. A task collects its answers with \<open>add\<close>; requests that come after its end are
  part of the queue and get the answer of a closed channel.
\<close>

locale task =
  fixes step :: "'e \<Rightarrow> 's \<Rightarrow> 'r \<times> 's"
    and run :: "'e list \<Rightarrow> 's \<Rightarrow> 'acc \<times> 's"
    and nothing :: 'acc
    and add :: "'r \<Rightarrow> 'acc \<Rightarrow> 'acc"
  assumes run_Nil: "run [] s = (nothing, s)"
    and run_Cons: "step e s = (r, s1) \<Longrightarrow> run es s1 = (acc, s2) \<Longrightarrow> run (e # es) s = (add r acc, s2)"
begin

lemma run_ConsE:
  assumes "run (e # es) s = (acc', s')"
  obtains r s1 acc where "step e s = (r, s1)" "run es s1 = (acc, s')" "acc' = add r acc"
proof -
  obtain r s1 where one: "step e s = (r, s1)" by fastforce
  obtain acc s2 where rest: "run es s1 = (acc, s2)" by fastforce
  from run_Cons [OF one rest] assms one rest that show thesis by auto
qed

end

text \<open>A task whose state keeps an invariant and shows a view that only evolves, as long as the requests are
  admissible.\<close>

locale evolving_task = task step run nothing add
  for step :: "'e \<Rightarrow> 's \<Rightarrow> 'r \<times> 's" and run :: "'e list \<Rightarrow> 's \<Rightarrow> 'acc \<times> 's" and nothing add +
  fixes ok :: "'e \<Rightarrow> bool"
    and inv :: "'s \<Rightarrow> bool"
    and view :: "'s \<Rightarrow> 'v"
    and le :: "'v \<Rightarrow> 'v \<Rightarrow> bool"
  assumes le_refl: "le v v"
    and le_trans: "le u v \<Longrightarrow> le v w \<Longrightarrow> le u w"
    and step_evolves: "inv s \<Longrightarrow> ok e \<Longrightarrow> step e s = (r, s') \<Longrightarrow> inv s' \<and> le (view s) (view s')"
begin

lemma run_evolves:
  "inv s \<Longrightarrow> \<forall>e \<in> set es. ok e \<Longrightarrow> run es s = (acc, s') \<Longrightarrow> inv s' \<and> le (view s) (view s')"
proof (induction es arbitrary: s acc)
  case Nil
  then show ?case by (simp add: run_Nil le_refl)
next
  case (Cons e es)
  from Cons.prems(3) obtain r s1 acc1 where
    one: "step e s = (r, s1)" and rest: "run es s1 = (acc1, s')"
    by (rule run_ConsE)
  from Cons.prems(1,2) step_evolves [OF _ _ one] have "inv s1" "le (view s) (view s1)" by simp_all
  with Cons.IH [OF _ _ rest] Cons.prems(2) le_trans show ?case by auto
qed

end

text \<open>A task with a budget: what the answers of a run amount to is taken from what the view allows.\<close>

locale budgeted_task = evolving_task step run nothing add ok inv view le
  for step :: "'e \<Rightarrow> 's \<Rightarrow> 'r \<times> 's" and run :: "'e list \<Rightarrow> 's \<Rightarrow> 'acc \<times> 's" and nothing add
    and ok :: "'e \<Rightarrow> bool" and inv and view :: "'s \<Rightarrow> 'v" and le +
  fixes cost :: "'e \<Rightarrow> 'r \<Rightarrow> nat"
    and total :: "'e list \<Rightarrow> 'acc \<Rightarrow> nat"
    and budget :: "'v \<Rightarrow> nat"
  assumes total_Nil: "total [] nothing = 0"
    and total_Cons: "total (e # es) (add r acc) = cost e r + total es acc"
    and step_spends: "inv s \<Longrightarrow> ok e \<Longrightarrow> step e s = (r, s') \<Longrightarrow>
      cost e r + budget (view s') \<le> budget (view s)"
begin

lemma run_spends:
  "inv s \<Longrightarrow> \<forall>e \<in> set es. ok e \<Longrightarrow> run es s = (acc, s') \<Longrightarrow>
     total es acc + budget (view s') \<le> budget (view s)"
proof (induction es arbitrary: s acc)
  case Nil
  then show ?case using total_Nil by (auto simp: run_Nil)
next
  case (Cons e es)
  from Cons.prems(3) obtain r s1 acc1 where
    one: "step e s = (r, s1)" and rest: "run es s1 = (acc1, s')" and acc: "acc = add r acc1"
    by (rule run_ConsE)
  from Cons.prems(1,2) step_evolves [OF _ _ one] step_spends [OF _ _ one]
  have "inv s1" "cost e r + budget (view s1) \<le> budget (view s)" by simp_all
  moreover from this(1) Cons.IH [OF _ _ rest] Cons.prems(2)
  have "total es acc1 + budget (view s') \<le> budget (view s1)" by simp
  ultimately show ?case by (simp add: acc total_Cons)
qed

end

end
