(* ===== verification/Order_Ledger.thy ===== *)
theory Order_Ledger
  imports Database Task
begin

text \<open>
  What the database server promises: the ledger, a map from order ids to orders, with the
  locale \<open>order_ledger\<close> that the rest of the daemon relies on, the proof that the server of
  \<open>Database\<close> implements it, and what follows for the withdrawal marks and for whole queues
  of requests.
\<close>

section \<open>The ledger: what the server promises\<close>

type_synonym ledger = "string \<rightharpoonup> order_info"

definition ledger_of :: "('t, 'v) db_env \<Rightarrow> ('t \<Rightarrow> bytes \<rightharpoonup> 'v) \<Rightarrow> 't \<Rightarrow> ledger" where
  "ledger_of E contents t = (\<lambda>oid. case contents t (enc_string E oid) of
     None \<Rightarrow> None | Some v \<Rightarrow> result_ok (dec_info E v))"

text \<open>Every entry of the tree is the encoding of an order under the encoding of an id.\<close>

definition store_wf :: "('t, 'v) db_env \<Rightarrow> ('t \<Rightarrow> bytes \<rightharpoonup> 'v) \<Rightarrow> 't \<Rightarrow> bool" where
  "store_wf E contents t \<longleftrightarrow>
     (\<forall>k v. contents t k = Some v \<longrightarrow> (\<exists>oid x. k = enc_string E oid \<and> v = enc_info E x))"

definition spec_create ::
    "timestamp \<Rightarrow> string \<Rightarrow> order_query \<Rightarrow> currency_info \<Rightarrow> string \<Rightarrow> ledger
      \<Rightarrow> order_create_response \<times> ledger" where
  "spec_create death oid q c account L = (case L oid of
     None \<Rightarrow> (let x = order_info_new q c account death in (New x, L(oid \<mapsto> x)))
   | Some old \<Rightarrow> if payment_status old = Paid then (Collision old, L)
       else (let x = old\<lparr>order_death := death, order_currency := c, order_amount := query_amount q\<rparr>
             in (Modified x, L(oid \<mapsto> x))))"

definition spec_mark_paid :: "string \<Rightarrow> ledger \<Rightarrow> (db_error + order_info) \<times> ledger" where
  "spec_mark_paid oid L = (case L oid of
     None \<Rightarrow> (Inl (OrderNotFound oid), L)
   | Some x \<Rightarrow> if payment_status x = Paid then (Inl (AlreadyPaid oid), L)
       else (Inr (x\<lparr>payment_status := Paid\<rparr>), L(oid \<mapsto> x\<lparr>payment_status := Paid\<rparr>)))"


text \<open>What may happen to an order: its account, callback and transactions are fixed, and once it
  is paid nothing changes any more.\<close>

definition order_le :: "order_info \<Rightarrow> order_info \<Rightarrow> bool" where
  "order_le x y \<longleftrightarrow> payment_account y = payment_account x \<and> order_callback y = order_callback x \<and>
     transactions y = transactions x \<and> withdrawal_status y = withdrawal_status x \<and>
     (payment_status x = Pending \<or> y = x)"

definition ledger_le :: "ledger \<Rightarrow> ledger \<Rightarrow> bool" where
  "ledger_le L M \<longleftrightarrow> (\<forall>oid x. L oid = Some x \<longrightarrow> (\<exists>y. M oid = Some y \<and> order_le x y))"

lemma payment_status_cases [simp]: "payment_status x \<noteq> Paid \<longleftrightarrow> payment_status x = Pending"
  "payment_status x \<noteq> Pending \<longleftrightarrow> payment_status x = Paid"
  by (cases "payment_status x"; simp)+

lemma order_le_refl [simp]: "order_le x x"
  by (simp add: order_le_def)

lemma order_le_trans: "order_le x y \<Longrightarrow> order_le y z \<Longrightarrow> order_le x z"
  by (auto simp: order_le_def)

lemma ledger_le_refl [simp]: "ledger_le L L"
  by (simp add: ledger_le_def)

lemma ledger_le_trans: "ledger_le L M \<Longrightarrow> ledger_le M N \<Longrightarrow> ledger_le L N"
  unfolding ledger_le_def by (meson order_le_trans)

lemma ledger_le_paid:
  assumes "ledger_le L M" "L oid = Some x" "payment_status x = Paid"
  shows "M oid = Some x"
  using assms by (fastforce simp: ledger_le_def order_le_def)

lemma ledger_le_update:
  "(\<And>x. L oid = Some x \<Longrightarrow> order_le x y) \<Longrightarrow> ledger_le L (L(oid \<mapsto> y))"
  by (auto simp: ledger_le_def)

lemma spec_create_le: "ledger_le L (snd (spec_create death oid q c account L))"
  by (auto simp: spec_create_def Let_def order_le_def split: option.splits
      intro!: ledger_le_update)

lemma spec_mark_paid_le: "ledger_le L (snd (spec_mark_paid oid L))"
  by (auto simp: spec_mark_paid_def order_le_def split: option.splits
      intro!: ledger_le_update)

lemma spec_mark_paid_ok:
  "spec_mark_paid oid L = (Inr x, M) \<longleftrightarrow>
     (\<exists>y. L oid = Some y \<and> payment_status y = Pending \<and>
       x = y\<lparr>payment_status := Paid\<rparr> \<and> M = L(oid \<mapsto> x))"
  by (auto simp: spec_mark_paid_def split: option.splits)

subsection \<open>The interface\<close>

text \<open>
  What the daemon relies on, whoever keeps the order book: a state \<open>s\<close> with an invariant shows
  a ledger \<open>view s\<close>; a successful operation does to it exactly what the specification does, and a
  failing one has either not been applied or been applied in full.
\<close>

locale order_ledger =
  fixes inv :: "'s \<Rightarrow> bool"
    and view :: "'s \<Rightarrow> ledger"
    and death_of :: "'k \<Rightarrow> timestamp"
    and create :: "'k \<Rightarrow> string \<Rightarrow> order_query \<Rightarrow> currency_info \<Rightarrow> string
        \<Rightarrow> ('s, db_error, order_create_response) call"
    and paid :: "'k \<Rightarrow> string \<Rightarrow> ('s, db_error, order_info) call"
    and lookup :: "'k \<Rightarrow> string \<Rightarrow> ('s, db_error, order_info option) call"
  assumes create_inv: "inv s \<Longrightarrow> create k oid q c a s = (r, s') \<Longrightarrow> inv s'"
    and create_ok: "inv s \<Longrightarrow> create k oid q c a s = (Inr x, s') \<Longrightarrow>
        spec_create (death_of k) oid q c a (view s) = (x, view s')"
    and create_err: "inv s \<Longrightarrow> create k oid q c a s = (Inl e, s') \<Longrightarrow>
        view s' = view s \<or> view s' = snd (spec_create (death_of k) oid q c a (view s))"
    and paid_inv: "inv s \<Longrightarrow> paid k oid s = (p, s') \<Longrightarrow> inv s'"
    and paid_ok: "inv s \<Longrightarrow> paid k oid s = (Inr y, s') \<Longrightarrow>
        spec_mark_paid oid (view s) = (Inr y, view s')"
    and paid_err: "inv s \<Longrightarrow> paid k oid s = (Inl e, s') \<Longrightarrow>
        view s' = view s \<or> view s' = snd (spec_mark_paid oid (view s))"
    and lookup_inv: "inv s \<Longrightarrow> lookup k oid s = (l, s') \<Longrightarrow> inv s' \<and> view s' = view s"
    and lookup_ok: "inv s \<Longrightarrow> lookup k oid s = (Inr found, s') \<Longrightarrow> found = view s oid"
begin

text \<open>Whatever is answered, the ledger is the old one or the one of the specification.\<close>

lemma create_view:
  assumes "inv s" and "create k oid q c a s = (r, s')"
  shows "view s' = view s \<or> view s' = snd (spec_create (death_of k) oid q c a (view s))"
  using assms create_err create_ok by (cases r) (blast, metis snd_conv)

lemma paid_view:
  assumes "inv s" and "paid k oid s = (r, s')"
  shows "view s' = view s \<or> view s' = snd (spec_mark_paid oid (view s))"
  using assms paid_err paid_ok by (cases r) (blast, metis snd_conv)

lemma create_le: "inv s \<Longrightarrow> create k oid q c a s = (r, s') \<Longrightarrow> ledger_le (view s) (view s')"
  using create_view spec_create_le by (metis ledger_le_refl)

lemma paid_le: "inv s \<Longrightarrow> paid k oid s = (r, s') \<Longrightarrow> ledger_le (view s) (view s')"
  using paid_view spec_mark_paid_le by (metis ledger_le_refl)

lemma lookup_le: "inv s \<Longrightarrow> lookup k oid s = (r, s') \<Longrightarrow> ledger_le (view s) (view s')"
  using lookup_inv by fastforce

text \<open>A successful payment leaves the order paid.\<close>

lemma paid_marks:
  assumes "inv s" "paid k oid s = (Inr x, s')"
  shows "\<exists>y. view s oid = Some y \<and> payment_status y = Pending \<and>
    x = y\<lparr>payment_status := Paid\<rparr> \<and> view s' = (view s)(oid \<mapsto> x)"
  using paid_ok [OF assms] by (simp add: spec_mark_paid_ok)

text \<open>A paid order cannot be paid again.\<close>

lemma paid_not_again:
  assumes "inv s" "view s oid = Some x" "payment_status x = Paid"
  shows "\<exists>e s'. paid k oid s = (Inl e, s')"
proof -
  obtain r s' where r: "paid k oid s = (r, s')" by fastforce
  show ?thesis
  proof (cases r)
    case (Inr y)
    with r assms show ?thesis using paid_marks [of s k oid y s'] by auto
  qed (use r in auto)
qed

text \<open>An existing paid order answers a new request with its own record.\<close>

lemma create_on_paid:
  assumes "inv s" "view s oid = Some x" "payment_status x = Paid"
    and "create k oid q c a s = (Inr resp, s')"
  shows "resp = Collision x \<and> view s' = view s"
  using create_ok [OF assms(1,4)] assms(2,3) by (simp add: spec_create_def)

end

section \<open>The server implements the interface\<close>

definition db_inv :: "('t, 'v) db_env \<Rightarrow> ('t \<Rightarrow> bytes \<rightharpoonup> 'v) \<Rightarrow> 't db_state \<Rightarrow> bool" where
  "db_inv E contents s \<longleftrightarrow>
     sled_contract E contents \<and> codec_contract E \<and> store_wf E contents (orders s)"

lemma enc_string_inj: "codec_contract E \<Longrightarrow> enc_string E s = enc_string E u \<longleftrightarrow> s = u"
  unfolding codec_contract_def by (metis sum.inject(2))

lemma db_get_contract:
  assumes "sled_contract E contents" "db_get E k t = (r, t')"
  shows "contents t' = contents t" and "r = Inr v \<Longrightarrow> v = contents t k"
proof -
  obtain r' where get: "tree_get E k t = (r', t')" and r: "r = map_err DbInternalError r'"
    using assms(2) by (auto simp: db_get_def call_map_err_def split: prod.splits)
  from assms(1) get have *: "contents t' = contents t \<and> (\<forall>v. r' = Inr v \<longrightarrow> v = contents t k)"
    unfolding sled_contract_def by blast
  then show "contents t' = contents t" by blast
  show "v = contents t k" if "r = Inr v" using that r * by simp
qed

lemma db_insert_contract:
  assumes "sled_contract E contents" "db_insert E k v t = (r, t')"
  shows "contents t' = (contents t)(k \<mapsto> v) \<or> (\<exists>e. r = Inl e) \<and> contents t' = contents t"
proof -
  obtain r' where ins: "tree_insert E k v t = (r', t')" and r: "r = map_err DbInternalError r'"
    using assms(2) by (auto simp: db_insert_def call_map_err_def split: prod.splits)
  from assms(1) ins have "contents t' = (contents t)(k \<mapsto> v) \<or>
      (\<exists>e. r' = Inl e) \<and> contents t' = contents t"
    unfolding sled_contract_def by blast
  then show ?thesis using r by auto
qed

lemma ledger_of_cong: "contents t' = contents t \<Longrightarrow> ledger_of E contents t' = ledger_of E contents t"
  by (simp add: ledger_of_def)

lemma store_wf_cong: "contents t' = contents t \<Longrightarrow> store_wf E contents t \<Longrightarrow> store_wf E contents t'"
  by (simp add: store_wf_def)

lemma ledger_of_update:
  assumes "codec_contract E" "contents t' = (contents t)(enc_string E oid \<mapsto> enc_info E x)"
  shows "ledger_of E contents t' = (ledger_of E contents t)(oid \<mapsto> x)"
  using assms enc_string_inj [OF assms(1)]
  by (auto simp: ledger_of_def codec_contract_def fun_eq_iff)

lemma store_wf_update:
  assumes "store_wf E contents t" "contents t' = (contents t)(enc_string E oid \<mapsto> enc_info E x)"
  shows "store_wf E contents t'"
  using assms by (auto simp: store_wf_def)

text \<open>A decoded record of a well-formed tree is the ledger's.\<close>

lemma decode_found:
  assumes "codec_contract E" "store_wf E contents t" "contents t (enc_string E oid) = Some v"
  obtains x where "ledger_of E contents t oid = Some x" "decode_info E v = call_ok x"
proof -
  obtain x where "v = enc_info E x"
    using assms(2,3) by (auto simp: store_wf_def)
  then have "dec_info E v = Inr x"
    using assms(1) by (auto simp: codec_contract_def)
  then show thesis
    using that assms(3) by (simp add: ledger_of_def decode_info_def call_of_def call_ok_def)
qed

lemma ledger_of_none:
  "contents t (enc_string E oid) = None \<Longrightarrow> ledger_of E contents t oid = None"
  by (simp add: ledger_of_def)

text \<open>The three things a stored order's update can do, whatever the tree answers.\<close>

lemma insert_step:
  assumes "sled_contract E contents" "codec_contract E" "store_wf E contents t"
    and "call_then (db_insert E (enc_string E oid) (enc_info E x)) (\<lambda>_. call_ok y) t = (r, t')"
  shows "store_wf E contents t' \<and>
    (r = Inr y \<and> ledger_of E contents t' = (ledger_of E contents t)(oid \<mapsto> x) \<or>
     (\<exists>e. r = Inl e) \<and> (ledger_of E contents t' = ledger_of E contents t \<or>
       ledger_of E contents t' = (ledger_of E contents t)(oid \<mapsto> x)))"
proof -
  obtain i where i: "db_insert E (enc_string E oid) (enc_info E x) t = (i, t')"
      "(\<exists>e. i = Inl e \<and> r = Inl e) \<or> (i = Inr () \<and> r = Inr y)"
    using assms(4) by (auto simp: call_then_def call_ok_def split: prod.splits sum.splits)
  from db_insert_contract [OF assms(1) i(1)] i(2) show ?thesis
    using store_wf_update [OF assms(3), of t' oid x] store_wf_cong [of contents t' t E]
      ledger_of_update [OF assms(2), of contents t' t oid x] ledger_of_cong [of contents t' t E]
      assms(3)
    by auto
qed

lemma db_get_cases:
  assumes "sled_contract E contents" "codec_contract E" "store_wf E contents t"
    and "call_then (db_get E (enc_string E oid)) f t = (r, t')"
  obtains e where "r = Inl e" "contents t' = contents t"
    | t1 where "contents t1 = contents t" "ledger_of E contents t oid = None" "f None t1 = (r, t')"
    | t1 v x where "contents t1 = contents t" "ledger_of E contents t oid = Some x"
        "decode_info E v = call_ok x" "f (Some v) t1 = (r, t')"
proof -
  obtain g t1 where g: "db_get E (enc_string E oid) t = (g, t1)" by fastforce
  note c = db_get_contract [OF assms(1) g]
  show thesis
  proof (cases g)
    case (Inl e)
    then have "r = Inl e \<and> t1 = t'" using assms(4) g by (auto simp: call_then_def)
    then show thesis using c(1) that(1) by blast
  next
    case (Inr found)
    then have f: "f found t1 = (r, t')" using assms(4) g by (simp add: call_then_def)
    show thesis
    proof (cases found)
      case None
      then show thesis
        using that(2) c Inr f ledger_of_none [of contents t E oid] by simp
    next
      case (Some v)
      then have "contents t (enc_string E oid) = Some v" using c(2) Inr by simp
      from decode_found [OF assms(2,3) this] show thesis
        using that(3) c(1) f Some by metis
    qed
  qed
qed

lemma create_order_tree:
  assumes "sled_contract E contents" "codec_contract E" "store_wf E contents t"
    and "create_order E life now oid q c a t = (r, t')"
  shows "store_wf E contents t' \<and> (case r of
      Inr x \<Rightarrow> spec_create (calculate_death_ts now life) oid q c a (ledger_of E contents t)
        = (x, ledger_of E contents t')
    | Inl e \<Rightarrow> ledger_of E contents t' = ledger_of E contents t \<or>
        ledger_of E contents t' =
          snd (spec_create (calculate_death_ts now life) oid q c a (ledger_of E contents t)))"
  using assms(4) [unfolded create_order_def Let_def]
proof (rule db_get_cases [OF assms(1-3)], goal_cases)
  case (1 e)
  then show ?case
    using assms(3) store_wf_cong [of contents t' t] ledger_of_cong [of contents t' t] by simp
next
  case (2 t1)
  have wf: "store_wf E contents t1" "ledger_of E contents t1 = ledger_of E contents t"
    using 2(1) assms(3) by (auto intro: store_wf_cong ledger_of_cong)
  from insert_step [OF assms(1,2) wf(1) 2(3) [simplified]] show ?case
    using 2(2) wf(2) by (auto simp: spec_create_def Let_def)
next
  case (3 t1 v x)
  have wf: "store_wf E contents t1" "ledger_of E contents t1 = ledger_of E contents t"
    using 3(1) assms(3) by (auto intro: store_wf_cong ledger_of_cong)
  show ?case
  proof (cases "payment_status x")
    case Pending
    from 3(4) have "call_then (db_insert E (enc_string E oid) (enc_info E
        (x\<lparr>order_death := calculate_death_ts now life, order_currency := c,
           order_amount := query_amount q\<rparr>))) (\<lambda>_. call_ok (Modified
        (x\<lparr>order_death := calculate_death_ts now life, order_currency := c,
           order_amount := query_amount q\<rparr>))) t1 = (r, t')"
      by (simp add: 3(3) Pending)
    from insert_step [OF assms(1,2) wf(1) this] show ?thesis
      using 3(2) wf(2) Pending by (auto simp: spec_create_def Let_def)
  next
    case Paid
    then show ?thesis using 3 wf by (auto simp: spec_create_def)
  qed
qed

lemma mark_paid_tree:
  assumes "sled_contract E contents" "codec_contract E" "store_wf E contents t"
    and "mark_paid E oid t = (r, t')"
  shows "store_wf E contents t' \<and> (case r of
      Inr x \<Rightarrow> spec_mark_paid oid (ledger_of E contents t) = (Inr x, ledger_of E contents t')
    | Inl e \<Rightarrow> ledger_of E contents t' = ledger_of E contents t \<or>
        ledger_of E contents t' = snd (spec_mark_paid oid (ledger_of E contents t)))"
  using assms(4) [unfolded mark_paid_def Let_def]
proof (rule db_get_cases [OF assms(1-3)], goal_cases)
  case (1 e)
  then show ?case
    using assms(3) store_wf_cong [of contents t' t] ledger_of_cong [of contents t' t] by simp
next
  case (2 t1)
  then show ?case
    using assms(3) by (auto intro: store_wf_cong ledger_of_cong)
next
  case (3 t1 v x)
  have wf: "store_wf E contents t1" "ledger_of E contents t1 = ledger_of E contents t"
    using 3(1) assms(3) by (auto intro: store_wf_cong ledger_of_cong)
  show ?case
  proof (cases "payment_status x")
    case Pending
    from 3(4) have "call_then (db_insert E (enc_string E oid)
        (enc_info E (x\<lparr>payment_status := Paid\<rparr>))) (\<lambda>_. call_ok (x\<lparr>payment_status := Paid\<rparr>)) t1
        = (r, t')"
      by (simp add: 3(3) Pending)
    from insert_step [OF assms(1,2) wf(1) this] show ?thesis
      using 3(2) wf(2) Pending by (auto simp: spec_mark_paid_def)
  next
    case Paid
    then show ?thesis using 3 wf by (auto simp: spec_mark_paid_def)
  qed
qed

lemma read_order_tree:
  assumes "sled_contract E contents" "codec_contract E" "store_wf E contents t"
    and "read_order E oid t = (r, t')"
  shows "contents t' = contents t \<and> (\<forall>found. r = Inr found \<longrightarrow> found = ledger_of E contents t oid)"
  using assms(4) [unfolded read_order_def]
  by (rule db_get_cases [OF assms(1-3)]) auto

text \<open>Each method of the handle answers \<open>DbEngineDown\<close> or what its operation did.\<close>

lemma call_create_order_eq:
  "call_create_order E life k oid q c a s = (if serving s then
     (case create_order E life (now_millis k) oid q c a (orders s) of (r, t) \<Rightarrow> (r, s\<lparr>orders := t\<rparr>))
   else (Inl DbEngineDown, s))"
  by (simp add: call_create_order_def db_call_def split: prod.split)

lemma call_mark_paid_eq:
  "call_mark_paid E life k oid s = (if serving s then
     (case mark_paid E oid (orders s) of (r, t) \<Rightarrow> (r, s\<lparr>orders := t\<rparr>))
   else (Inl DbEngineDown, s))"
  by (simp add: call_mark_paid_def db_call_def split: prod.split)

lemma call_read_order_eq:
  "call_read_order E life k oid s = (if serving s then
     (case read_order E oid (orders s) of (r, t) \<Rightarrow> (r, s\<lparr>orders := t\<rparr>))
   else (Inl DbEngineDown, s))"
  by (simp add: call_read_order_def db_call_def split: prod.split)

definition db_view :: "('t, 'v) db_env \<Rightarrow> ('t \<Rightarrow> bytes \<rightharpoonup> 'v) \<Rightarrow> 't db_state \<Rightarrow> ledger" where
  "db_view E contents s = ledger_of E contents (orders s)"

interpretation database: order_ledger
  "db_inv E contents" "db_view E contents" "\<lambda>k. calculate_death_ts (now_millis k) life"
  "call_create_order E life" "call_mark_paid E life" "call_read_order E life"
proof unfold_locales
  fix s s' :: "'a db_state" and k :: db_tick and oid q c a r
  assume inv: "db_inv E contents s"
  { assume "call_create_order E life k oid q c a s = (r, s')"
    then show "db_inv E contents s'"
      using inv create_order_tree [of E contents "orders s" life "now_millis k" oid q c a]
      by (auto simp: call_create_order_eq db_inv_def split: if_splits prod.splits) }
next
  fix s s' :: "'a db_state" and k :: db_tick and oid q c a x
  assume "db_inv E contents s" "call_create_order E life k oid q c a s = (Inr x, s')"
  then show "spec_create (calculate_death_ts (now_millis k) life) oid q c a (db_view E contents s)
      = (x, db_view E contents s')"
    using create_order_tree [of E contents "orders s" life "now_millis k" oid q c a]
    by (fastforce simp: call_create_order_eq db_inv_def db_view_def split: if_splits prod.splits)
next
  fix s s' :: "'a db_state" and k :: db_tick and oid q c a e
  assume "db_inv E contents s" "call_create_order E life k oid q c a s = (Inl e, s')"
  then show "db_view E contents s' = db_view E contents s \<or> db_view E contents s' =
      snd (spec_create (calculate_death_ts (now_millis k) life) oid q c a (db_view E contents s))"
    using create_order_tree [of E contents "orders s" life "now_millis k" oid q c a]
    by (fastforce simp: call_create_order_eq db_inv_def db_view_def split: if_splits prod.splits)
next
  fix s s' :: "'a db_state" and k :: db_tick and oid p
  assume "db_inv E contents s" "call_mark_paid E life k oid s = (p, s')"
  then show "db_inv E contents s'"
    using mark_paid_tree [of E contents "orders s" oid]
    by (auto simp: call_mark_paid_eq db_inv_def split: if_splits prod.splits)
next
  fix s s' :: "'a db_state" and k :: db_tick and oid y
  assume "db_inv E contents s" "call_mark_paid E life k oid s = (Inr y, s')"
  then show "spec_mark_paid oid (db_view E contents s) = (Inr y, db_view E contents s')"
    using mark_paid_tree [of E contents "orders s" oid]
    by (fastforce simp: call_mark_paid_eq db_inv_def db_view_def split: if_splits prod.splits)
next
  fix s s' :: "'a db_state" and k :: db_tick and oid e
  assume "db_inv E contents s" "call_mark_paid E life k oid s = (Inl e, s')"
  then show "db_view E contents s' = db_view E contents s \<or>
      db_view E contents s' = snd (spec_mark_paid oid (db_view E contents s))"
    using mark_paid_tree [of E contents "orders s" oid]
    by (fastforce simp: call_mark_paid_eq db_inv_def db_view_def split: if_splits prod.splits)
next
  fix s s' :: "'a db_state" and k :: db_tick and oid l
  assume "db_inv E contents s" "call_read_order E life k oid s = (l, s')"
  then show "db_inv E contents s' \<and> db_view E contents s' = db_view E contents s"
    using read_order_tree [of E contents "orders s" oid]
    by (auto simp: call_read_order_eq db_inv_def db_view_def split: if_splits prod.splits
        intro: store_wf_cong ledger_of_cong)
next
  fix s s' :: "'a db_state" and k :: db_tick and oid found
  assume "db_inv E contents s" "call_read_order E life k oid s = (Inr found, s')"
  then show "found = db_view E contents s oid"
    using read_order_tree [of E contents "orders s" oid]
    by (auto simp: call_read_order_eq db_inv_def db_view_def split: if_splits prod.splits)
qed

section \<open>Withdrawal marks\<close>

text \<open>Ids whose raw bytes cannot be the encoding of a string: the first byte is not four times
  the number of bytes that follow.\<close>

definition ordinary :: "string \<Rightarrow> bool" where
  "ordinary oid \<longleftrightarrow> length oid \<le> 64 \<and> (oid = [] \<or> of_char (hd oid) \<noteq> 4 * (length oid - 1))"

lemma ordinary_not_encoded:
  assumes "codec_contract E" "ordinary oid"
  shows "bytes_of oid \<noteq> enc_string E other"
proof
  assume eq: "bytes_of oid = enc_string E other"
  then have len: "length oid = length (enc_string E other)" by (metis length_bytes_of)
  then have short: "length other < 64"
    using assms by (metis codec_contract_def ordinary_def less_le_trans)
  then have enc: "enc_string E other = word_of_nat (4 * length other) # bytes_of other"
    using assms(1) by (simp add: codec_contract_def)
  then obtain c cs where oid: "oid = c # cs"
    using eq by (cases oid) (auto simp: bytes_of_def)
  have "word_of_nat (of_char c) = (word_of_nat (4 * length other) :: u8)"
    using eq enc oid by (simp add: bytes_of_def)
  then have "of_char c = unat (word_of_nat (4 * length other) :: u8)"
    by (metis unat_byte_of_char)
  moreover have "unat (word_of_nat (4 * length other) :: u8) = 4 * length other"
    using short by (subst unat_of_nat) simp
  moreover have "length cs = length other"
    using len enc oid by simp
  ultimately show False
    using assms(2) oid by (simp add: ordinary_def)
qed

lemma ordinary_raw_none:
  assumes "codec_contract E" "store_wf E contents t" "ordinary oid"
  shows "contents t (bytes_of oid) = None"
proof (cases "contents t (bytes_of oid)")
  case (Some v)
  then obtain other where "bytes_of oid = enc_string E other"
    using assms(2) by (auto simp: store_wf_def)
  with ordinary_not_encoded [OF assms(1,3)] show ?thesis by blast
qed

lemma get_missing:
  assumes "sled_contract E contents" "contents t k = None"
    and "call_then (db_get E k) f t = (r, t')" and "f None = call_err e"
  shows "contents t' = contents t \<and> (r = Inl e \<or> (\<exists>d. r = Inl (DbInternalError d)))"
proof -
  obtain g t1 where g: "db_get E k t = (g, t1)" by fastforce
  note c = db_get_contract [OF assms(1) g]
  show ?thesis
  proof (cases g)
    case (Inl d)
    then have "r = Inl d" "t' = t1" using assms(3) g by (auto simp: call_then_def)
    moreover have "\<exists>d'. d = DbInternalError d'"
      using g Inl by (auto simp: db_get_def call_map_err_def map_err_Inl_iff split: prod.splits)
    ultimately show ?thesis using c(1) by blast
  next
    case (Inr found)
    then have "found = None" using c(2) assms(2) by simp
    then show ?thesis using assms(3,4) g Inr c(1) by (simp add: call_then_def)
  qed
qed

lemma mark_raw_missing:
  assumes "sled_contract E contents" "codec_contract E" "store_wf E contents t" "ordinary oid"
    and "mark_withdrawn E oid t = (r, t') \<or> mark_stuck E oid t = (r, t')"
  shows "contents t' = contents t \<and>
    (r = Inl (OrderNotFound oid) \<or> (\<exists>d. r = Inl (DbInternalError d)))"
  using assms(5)
proof
  assume "mark_withdrawn E oid t = (r, t')"
  from get_missing [OF assms(1) ordinary_raw_none [OF assms(2-4)]
      this [unfolded mark_withdrawn_def]] show ?thesis by simp
next
  assume "mark_stuck E oid t = (r, t')"
  from get_missing [OF assms(1) ordinary_raw_none [OF assms(2-4)]
      this [unfolded mark_stuck_def]] show ?thesis by simp
qed

section \<open>Runs of the server\<close>

fun tame :: "db_request \<Rightarrow> bool" where
  "tame (MarkWithdrawn oid) = ordinary oid"
| "tame (MarkStuck oid) = ordinary oid"
| "tame _ = True"

lemma active_order_list_tree:
  assumes "sled_contract E contents" "active_order_list E t = (r, t')"
  shows "contents t' = contents t"
  using assms unfolding active_order_list_def sled_contract_def
  by (auto split: prod.splits)

lemma create_order_evolves:
  assumes "sled_contract E contents" "codec_contract E" "store_wf E contents t"
    and "create_order E life now oid q c a t = (r, t')"
  shows "store_wf E contents t' \<and> ledger_le (ledger_of E contents t) (ledger_of E contents t')"
  using create_order_tree [OF assms]
    spec_create_le [of "ledger_of E contents t" "calculate_death_ts now life" oid q c a]
  by (auto split: sum.splits)

lemma mark_paid_evolves:
  assumes "sled_contract E contents" "codec_contract E" "store_wf E contents t"
    and "mark_paid E oid t = (r, t')"
  shows "store_wf E contents t' \<and> ledger_le (ledger_of E contents t) (ledger_of E contents t')"
  using mark_paid_tree [OF assms] spec_mark_paid_le [of "ledger_of E contents t" oid]
  by (auto split: sum.splits)

lemma serve_step:
  assumes inv: "db_inv E contents s" and tame: "tame req"
    and s': "serve E life k req s = (reply, s')"
  shows "db_inv E contents s' \<and> ledger_le (db_view E contents s) (db_view E contents s')"
proof -
  have c: "sled_contract E contents" "codec_contract E" "store_wf E contents (orders s)"
    using inv by (auto simp: db_inv_def)
  have same: ?thesis if "contents (orders s') = contents (orders s)"
    using inv store_wf_cong [of contents "orders s'" "orders s", OF that c(3)]
      ledger_of_cong [of contents "orders s'" "orders s" E, OF that]
    by (simp add: db_inv_def db_view_def)
  show ?thesis
  proof (cases req)
    case (CreateOrder oid q cur a)
    then show ?thesis
      using s' create_order_evolves [OF c] c by (auto simp: db_inv_def db_view_def split: prod.splits)
  next
    case (MarkPaid oid)
    then show ?thesis
      using s' mark_paid_evolves [OF c] c by (auto simp: db_inv_def db_view_def split: prod.splits)
  next
    case ActiveOrderList
    then show ?thesis
      using s' active_order_list_tree [OF c(1)] by (intro same) (auto split: prod.splits)
  next
    case (ReadOrder oid)
    then show ?thesis
      using s' read_order_tree [OF c] by (intro same) (auto split: prod.splits)
  next
    case (MarkWithdrawn oid)
    obtain r t where m: "mark_withdrawn E oid (orders s) = (r, t)" by fastforce
    then show ?thesis
      using MarkWithdrawn s' tame mark_raw_missing [OF c _ disjI1 [OF m]] by (intro same) auto
  next
    case (MarkStuck oid)
    obtain r t where m: "mark_stuck E oid (orders s) = (r, t)" by fastforce
    then show ?thesis
      using MarkStuck s' tame mark_raw_missing [OF c _ disjI2 [OF m]] by (intro same) auto
  qed (use s' in \<open>auto intro!: same split: prod.splits\<close>)
qed

section \<open>The server's task\<close>

text \<open>One request of the queue; a server that has ended answers nothing.\<close>

definition db_step :: "('t, 'v) db_env \<Rightarrow> timestamp \<Rightarrow> db_tick \<times> db_request \<Rightarrow> 't db_state
    \<Rightarrow> db_reply option \<times> 't db_state" where
  "db_step E life kr s = (if serving s
     then (case serve E life (fst kr) (snd kr) s of (reply, s') \<Rightarrow> (Some reply, s')) else (None, s))"

text \<open>The payment confirmations a queue was answered with for one order.\<close>

fun paid_answers :: "string \<Rightarrow> (db_tick \<times> db_request) list \<Rightarrow> db_reply option list \<Rightarrow> nat" where
  "paid_answers oid ((k, MarkPaid o') # queue) (Some (PaidReply (Inr x)) # replies) =
     (if o' = oid then 1 else 0) + paid_answers oid queue replies"
| "paid_answers oid (_ # queue) (_ # replies) = paid_answers oid queue replies"
| "paid_answers oid _ _ = 0"

definition paid_cost :: "string \<Rightarrow> db_tick \<times> db_request \<Rightarrow> db_reply option \<Rightarrow> nat" where
  "paid_cost oid kr reply = (case (snd kr, reply) of
     (MarkPaid o', Some (PaidReply (Inr x))) \<Rightarrow> if o' = oid then 1 else 0 | _ \<Rightarrow> 0)"

text \<open>How often an order can still be paid.\<close>

definition pay_budget :: "string \<Rightarrow> ledger \<Rightarrow> nat" where
  "pay_budget oid L = (case L oid of None \<Rightarrow> 1 | Some x \<Rightarrow> if payment_status x = Paid then 0 else 1)"

lemma pay_budget_le: "pay_budget oid L \<le> 1"
  by (simp add: pay_budget_def split: option.split)

lemma pay_budget_mono: "ledger_le L M \<Longrightarrow> pay_budget oid M \<le> pay_budget oid L"
  using ledger_le_paid [of L M oid] by (auto simp: pay_budget_def split: option.splits)

lemma serve_paid_reply:
  assumes "db_inv E contents s" "serve E life k req s = (reply, s')"
    and "req = MarkPaid oid" "reply = PaidReply (Inr x)"
  shows "(\<exists>y. db_view E contents s oid = Some y \<and> payment_status y = Pending) \<and>
    db_view E contents s' oid = Some x \<and> payment_status x = Paid"
  using assms mark_paid_tree [of E contents "orders s" oid "Inr x" "orders s'"]
  by (auto simp: db_inv_def db_view_def spec_mark_paid_ok split: prod.splits)

lemma db_step_evolves:
  assumes "db_inv E contents s" and "tame (snd kr)" and "db_step E life kr s = (r, s')"
  shows "db_inv E contents s' \<and> ledger_le (db_view E contents s) (db_view E contents s')"
  using assms serve_step [OF assms(1,2)]
  by (auto simp: db_step_def split: if_splits prod.splits)

lemma db_step_spends:
  assumes "db_inv E contents s" and "tame (snd kr)" and "db_step E life kr s = (r, s')"
  shows "paid_cost oid kr r + pay_budget oid (db_view E contents s') \<le> pay_budget oid (db_view E contents s)"
proof (cases "\<exists>x. snd kr = MarkPaid oid \<and> r = Some (PaidReply (Inr x))")
  case True
  then obtain x where x: "snd kr = MarkPaid oid" "r = Some (PaidReply (Inr x))" by blast
  with assms(3) have "serve E life (fst kr) (snd kr) s = (PaidReply (Inr x), s')"
    by (auto simp: db_step_def split: if_splits prod.splits)
  from serve_paid_reply [OF assms(1) this x(1) refl] x show ?thesis
    by (auto simp: paid_cost_def pay_budget_def)
next
  case False
  then have "paid_cost oid kr r = 0"
    by (auto simp: paid_cost_def split: db_request.splits option.splits db_reply.splits sum.splits)
  with pay_budget_mono db_step_evolves [OF assms] show ?thesis by simp
qed

interpretation db_task: budgeted_task "db_step E life" "serve_all E life" "[]" "(#)"
  "\<lambda>kr. tame (snd kr)" "db_inv E contents" "db_view E contents" ledger_le
  "paid_cost oid" "paid_answers oid" "pay_budget oid"
  for E life contents oid
proof unfold_locales
  show "db_step E life e s = (r, s1) \<Longrightarrow> serve_all E life es s1 = (acc, s2) \<Longrightarrow>
      serve_all E life (e # es) s = (r # acc, s2)" for e s r s1 es acc s2
    by (cases e) (auto simp: db_step_def split: if_splits prod.splits)
  show "paid_answers oid (e # es) (r # acc) = paid_cost oid e r + paid_answers oid es acc" for e es r acc
    by (cases e; cases "snd e"; cases r)
      (auto simp: paid_cost_def split: db_reply.splits sum.splits)
qed (simp_all add: ledger_le_refl db_step_evolves db_step_spends, blast intro: ledger_le_trans)

lemma serve_all_step:
  assumes "db_inv E contents s" "\<forall>kr \<in> set queue. tame (snd kr)"
    and "serve_all E life queue s = (replies, s')"
  shows "db_inv E contents s' \<and> ledger_le (db_view E contents s) (db_view E contents s')"
  by (rule db_task.run_evolves [OF assms])

lemma paid_answers_bound:
  assumes "db_inv E contents s" "\<forall>kr \<in> set queue. tame (snd kr)"
    and "serve_all E life queue s = (replies, s')"
  shows "paid_answers oid queue replies \<le> pay_budget oid (db_view E contents s)"
  using db_task.run_spends [OF assms, of oid] by simp

end
