(* ===== verification/Database_Properties.thy ===== *)
theory Database_Properties
  imports Order_Ledger
begin

text \<open>
  The properties of the order book, with a tree in memory on which both contracts hold and the
  witnesses run.
\<close>

section \<open>A tree in memory\<close>

text \<open>An environment that satisfies both contracts: the tree is an association list, a stored
  value is the order or the server information itself.\<close>

definition mem_enc :: "string \<Rightarrow> bytes" where
  "mem_enc s = (if length s < 64 then word_of_nat (4 * length s) else 3) # bytes_of s"

fun mem_dec :: "bytes \<Rightarrow> foreign_error + string" where
  "mem_dec [] = Inl ''Not enough data''"
| "mem_dec (b # bs) = Inr (map (\<lambda>w. char_of (unat w)) bs)"

definition mem_env :: "((bytes \<times> (order_info + server_info)) list, order_info + server_info) db_env" where
  "mem_env = \<lparr>tree_get = (\<lambda>k t. (Inr (map_of t k), t)),
     tree_insert = (\<lambda>k v t. (Inr (), AList.update k v t)),
     tree_iter = (\<lambda>t. (map Inr (AList.clearjunk t), t)),
     enc_string = mem_enc, dec_string = mem_dec, enc_info = Inl,
     dec_info = (\<lambda>v. case v of Inl x \<Rightarrow> Inr x | Inr _ \<Rightarrow> Inl ''not an order''),
     enc_server_info = (\<lambda>i. Inr (Inr i)),
     dec_server_info = (\<lambda>v. case v of Inr i \<Rightarrow> Inr i | Inl _ \<Rightarrow> Inl ''not a server info'')\<rparr>"

lemma mem_dec_enc: "mem_dec (mem_enc s) = Inr s"
  by (simp add: mem_enc_def bytes_of_def unat_byte_of_char o_def)

lemma mem_env_simps [simp]:
  "tree_get mem_env k t = (Inr (map_of t k), t)"
  "tree_insert mem_env k v t = (Inr (), AList.update k v t)"
  "tree_iter mem_env t = (map Inr (AList.clearjunk t), t)"
  "enc_string mem_env = mem_enc" "dec_string mem_env = mem_dec"
  "enc_info mem_env x = Inl x" "dec_info mem_env (Inl x) = Inr x"
  "dec_info mem_env (Inr i) = Inl ''not an order''"
  "enc_server_info mem_env i = Inr (Inr i)" "dec_server_info mem_env (Inr i) = Inr i"
  by (simp_all add: mem_env_def)

lemma mem_codec: "codec_contract mem_env"
  by (simp add: codec_contract_def mem_dec_enc) (auto simp: mem_enc_def mem_env_def)

lemma clearjunk_mem: "(k, v) \<in> set (AList.clearjunk t) \<longleftrightarrow> map_of t k = Some v"
  by (metis distinct_clearjunk map_of_clearjunk map_of_eq_Some_iff)

lemma mem_sled: "sled_contract mem_env map_of"
  unfolding sled_contract_def
  by (auto simp: update_conv' clearjunk_mem)

definition mem_state :: "(string \<times> order_info) list \<Rightarrow>
    (bytes \<times> (order_info + server_info)) list db_state" where
  "mem_state xs = \<lparr>orders = map (\<lambda>(oid, x). (mem_enc oid, Inl x)) xs, server_infos = [],
     serving = True\<rparr>"

lemma mem_inv: "db_inv mem_env map_of (mem_state xs)"
proof -
  have "store_wf mem_env map_of (orders (mem_state xs))"
    by (auto simp: store_wf_def mem_state_def dest!: map_of_SomeD)
  then show ?thesis by (simp add: db_inv_def mem_codec mem_sled)
qed

definition sample_currency :: currency_info where
  "sample_currency = \<lparr>ci_currency = ''DOT'', ci_chain_name = ''polkadot'', ci_kind = Native,
     ci_decimals = 10, ci_rpc_url = ''wss://rpc'', ci_asset_id = None, ci_ss58 = 0\<rparr>"

definition sample_query :: "string \<Rightarrow> order_query" where
  "sample_query oid = \<lparr>query_order = oid, query_amount = Finite 2, query_callback = [],
     query_currency = ''DOT''\<rparr>"

definition sample_order :: "payment_status \<Rightarrow> order_info" where
  "sample_order p = (order_info_new (sample_query ''a'') sample_currency ''5Account''
     (Timestamp 5))\<lparr>payment_status := p\<rparr>"

definition sample_tick :: db_tick where
  "sample_tick = \<lparr>now_millis = 1000, open_fault = None, generated_name = Some ''jolly-fog''\<rparr>"

lemmas sample_defs = sample_order_def sample_query_def sample_currency_def sample_tick_def
  order_info_new_def

lemma sample_status [simp]: "payment_status (sample_order p) = p"
  "payment_account (sample_order p) = ''5Account''"
  "withdrawal_status (sample_order p) = Waiting"
  by (simp_all add: sample_order_def order_info_new_def)

lemma mem_view_singleton [simp]:
  "db_view mem_env map_of (mem_state [(oid, x)]) oid = Some x"
  by (simp add: db_view_def ledger_of_def mem_state_def)

text \<open>What the active list holds, in terms of the ledger.\<close>

lemma stored_entry:
  assumes "store_wf E contents t" and "codec_contract E"
  shows "(\<exists>k v. contents t k = Some v \<and> decode_entry E (k, v) = Some (oid, x)) \<longleftrightarrow>
    ledger_of E contents t oid = Some x" (is "?stored \<longleftrightarrow> ?known")
proof -
  have dec: "decode_entry E (enc_string E o', enc_info E x') = Some (o', x')" for o' x'
    using assms(2) by (simp add: decode_entry_def codec_contract_def)
  have known: "contents t (enc_string E oid) = Some (enc_info E x)" if ?known
  proof -
    from that obtain v where v: "contents t (enc_string E oid) = Some v" "result_ok (dec_info E v) = Some x"
      by (auto simp: ledger_of_def split: option.splits)
    moreover from assms(1) v(1) obtain x' where "v = enc_info E x'" unfolding store_wf_def by blast
    ultimately show ?thesis using assms(2) by (simp add: codec_contract_def)
  qed
  have ?known if "contents t k = Some v" "decode_entry E (k, v) = Some (oid, x)" for k v
  proof -
    from assms(1) that(1) obtain o' x' where "k = enc_string E o'" "v = enc_info E x'"
      unfolding store_wf_def by blast
    with that dec [of o' x'] assms(2) show ?thesis by (auto simp: ledger_of_def codec_contract_def)
  qed
  with known dec show "?stored \<longleftrightarrow> ?known" by blast
qed

lemma active_list_mem:
  assumes "call_order_list E life k s = (Inr xs, s')" and "tree_iter E (orders s) = (items, t')"
  shows "(oid, x) \<in> set xs \<longleftrightarrow> payment_status x = Pending \<and>
    (\<exists>k v. Inr (k, v) \<in> set items \<and> decode_entry E (k, v) = Some (oid, x))"
proof -
  have "xs = filter (\<lambda>(a, b). payment_status b = Pending)
        (List.map_filter (decode_entry E) (List.map_filter result_ok items))"
    using assms by (auto simp: call_order_list_def db_call_def active_order_list_def
        split: if_splits prod.splits)
  then show ?thesis by (auto simp: set_map_filter_iff) blast
qed

lemma order_list_ledger:
  assumes "db_inv E contents s" and call: "call_order_list E life k s = (Inr xs, s')"
  shows "(\<forall>(oid, x) \<in> set xs. db_view E contents s oid = Some x \<and> payment_status x = Pending) \<and>
    ((\<forall>e. Inl e \<notin> set (fst (tree_iter E (orders s)))) \<longrightarrow>
      (\<forall>oid x. db_view E contents s oid = Some x \<and> payment_status x = Pending \<longrightarrow>
        (oid, x) \<in> set xs))"
proof -
  have c: "sled_contract E contents" "codec_contract E" "store_wf E contents (orders s)"
    using assms(1) by (auto simp: db_inv_def)
  obtain items t' where it: "tree_iter E (orders s) = (items, t')" by fastforce
  note mem = active_list_mem [OF call it]
  note stored = stored_entry [OF c(3,2), folded db_view_def]
  have sled: "(\<forall>k v. Inr (k, v) \<in> set items \<longrightarrow> contents (orders s) k = Some v) \<and>
      ((\<forall>e. Inl e \<notin> set items) \<longrightarrow>
        (\<forall>k v. contents (orders s) k = Some v \<longrightarrow> Inr (k, v) \<in> set items))"
    using c(1) it unfolding sled_contract_def by blast
  have "db_view E contents s oid = Some x \<and> payment_status x = Pending"
    if "(oid, x) \<in> set xs" for oid x
    using that sled unfolding mem stored [symmetric] by blast
  moreover have "(oid, x) \<in> set xs"
    if ok: "\<forall>e. Inl e \<notin> set items"
      and x: "db_view E contents s oid = Some x" "payment_status x = Pending" for oid x
  proof -
    from stored x(1) obtain k v where "contents (orders s) k = Some v"
        "decode_entry E (k, v) = Some (oid, x)" by blast
    with sled ok x(2) show ?thesis unfolding mem by blast
  qed
  ultimately show ?thesis unfolding it fst_conv by blast
qed

section \<open>Properties\<close>

text \<open>C16. A successful \<open>create_order\<close> does exactly this: an unknown id is stored as a new pending
  order with the fresh account; a pending one keeps its account, callback and history and takes
  the new amount, currency and death; a paid one is returned as a collision and nothing changes.
  Every other order is untouched.\<close>

theorem create_order_outcome:
  assumes "db_inv E contents s"
    and "call_create_order E life k oid q c a s = (Inr resp, s')"
  shows "case db_view E contents s oid of
      None \<Rightarrow> resp = New (order_info_new q c a (calculate_death_ts (now_millis k) life)) \<and>
        db_view E contents s' = (db_view E contents s)(oid \<mapsto>
          order_info_new q c a (calculate_death_ts (now_millis k) life))
    | Some old \<Rightarrow>
        (case payment_status old of
          Paid \<Rightarrow> resp = Collision old \<and> db_view E contents s' = db_view E contents s
        | Pending \<Rightarrow> (let new = old\<lparr>order_death := calculate_death_ts (now_millis k) life,
              order_currency := c, order_amount := query_amount q\<rparr>
            in resp = Modified new \<and>
              db_view E contents s' = (db_view E contents s)(oid \<mapsto> new)))"
  using database.create_ok [OF assms]
  by (auto simp: spec_create_def Let_def split: option.splits payment_status.splits)

theorem create_order_outcome_witness:
  "db_view mem_env map_of (snd (call_create_order mem_env (Timestamp 60) sample_tick ''a''
      (sample_query ''a'') sample_currency ''5Other'' (mem_state [(''a'', sample_order Pending)])))
    = (db_view mem_env map_of (mem_state [(''a'', sample_order Pending)]))(''a'' \<mapsto>
        (sample_order Pending)\<lparr>order_death := Timestamp 1060\<rparr>)"
proof -
  let ?call = "call_create_order mem_env (Timestamp 60) sample_tick ''a''
      (sample_query ''a'') sample_currency ''5Other'' (mem_state [(''a'', sample_order Pending)])"
  have new: "(sample_order Pending)\<lparr>order_death := calculate_death_ts (now_millis sample_tick)
      (Timestamp 60), order_currency := sample_currency,
      order_amount := query_amount (sample_query ''a'')\<rparr>
    = (sample_order Pending)\<lparr>order_death := Timestamp 1060\<rparr>"
    by (simp add: sample_defs calculate_death_ts_def)
  have "\<exists>resp. ?call = (Inr resp, snd ?call)"
    by (simp add: call_create_order_eq create_order_def call_then_def db_get_def db_insert_def
        call_map_err_def mem_state_def decode_info_def Let_def)
  then obtain resp where "?call = (Inr resp, snd ?call)" ..
  from create_order_outcome [OF mem_inv this] show ?thesis
    by (simp add: Let_def new)
qed



text \<open>Within any queue of requests an order's payment is confirmed at most once.\<close>

theorem paid_at_most_once:
  assumes "db_inv E contents s" and "\<forall>kr \<in> set queue. tame (snd kr)"
    and "serve_all E life queue s = (replies, s')"
  shows "paid_answers oid queue replies \<le> 1"
  using paid_answers_bound [OF assms, of oid] pay_budget_le by (rule order_trans)

theorem paid_at_most_once_witness:
  "paid_answers ''a'' [(sample_tick, MarkPaid ''a''), (sample_tick, MarkPaid ''a'')]
     (fst (serve_all mem_env (Timestamp 60)
        [(sample_tick, MarkPaid ''a''), (sample_tick, MarkPaid ''a'')]
        (mem_state [(''a'', sample_order Pending)]))) \<le> 1"
  by (rule paid_at_most_once [OF mem_inv _ surjective_pairing]) simp

text \<open>C23. \<open>mark_withdrawn\<close> and \<open>mark_stuck\<close> look an order up under the raw bytes of its id while every
  order is stored under the id's SCALE encoding: for an ordinary id they report it missing
  (or a fault of the tree), whether or not the order exists and is paid.\<close>

theorem withdrawal_marks_miss:
  assumes "db_inv E contents s" and "ordinary oid"
    and "serve E life k req s = (ModifyReply r, s')"
    and "req = MarkWithdrawn oid \<or> req = MarkStuck oid"
  shows "(r = Inl (OrderNotFound oid) \<or> (\<exists>d. r = Inl (DbInternalError d))) \<and>
    db_view E contents s' = db_view E contents s"
proof -
  have c: "sled_contract E contents" "codec_contract E" "store_wf E contents (orders s)"
    using assms(1) by (auto simp: db_inv_def)
  have "mark_withdrawn E oid (orders s) = (r, orders s') \<or> mark_stuck E oid (orders s) = (r, orders s')"
    using assms(3,4) by (auto split: prod.splits)
  from mark_raw_missing [OF c assms(2) this] show ?thesis
    by (simp add: db_view_def ledger_of_def)
qed

theorem withdrawal_marks_miss_witness:
  "fst (serve mem_env (Timestamp 60) sample_tick (MarkWithdrawn ''a'')
      (mem_state [(''a'', sample_order Paid)])) = ModifyReply (Inl (OrderNotFound ''a''))"
proof -
  have run: "serve mem_env (Timestamp 60) sample_tick (MarkWithdrawn ''a'')
      (mem_state [(''a'', sample_order Paid)]) =
    (ModifyReply (Inl (OrderNotFound ''a'')), mem_state [(''a'', sample_order Paid)])"
    by (simp add: mark_withdrawn_def call_then_def db_get_def call_map_err_def mem_state_def
        mem_enc_def bytes_of_def)
  show ?thesis
    using withdrawal_marks_miss [OF mem_inv _ run disjI1 [OF refl]] run
    by (simp add: ordinary_def)
qed

text \<open>An id whose raw bytes are the encoding of another stored id reads that order: when it is paid
  and waiting, marking the crafted id as withdrawn stores the other order's record under the
  crafted id, and leaves the other order's withdrawal status as it was.\<close>

theorem withdrawal_mark_wrong_record:
  assumes "db_inv E contents s" and "bytes_of crafted = enc_string E oid"
    and "db_view E contents s oid = Some x"
    and "payment_status x = Paid" and "withdrawal_status x = Waiting"
    and "mark_withdrawn E crafted (orders s) = (Inr (), t')"
  shows "ledger_of E contents t' =
    (db_view E contents s)(crafted \<mapsto> x\<lparr>withdrawal_status := Completed\<rparr>)"
proof -
  have c: "sled_contract E contents" "codec_contract E" "store_wf E contents (orders s)"
    using assms(1) by (auto simp: db_inv_def)
  from assms(6) [unfolded mark_withdrawn_def assms(2)] show ?thesis
  proof (rule db_get_cases [OF c], goal_cases)
    case (3 t1 v y)
    have wf: "store_wf E contents t1" "ledger_of E contents t1 = db_view E contents s"
      using 3(1) c(3) by (auto simp: db_view_def intro: store_wf_cong ledger_of_cong)
    have "y = x" using 3(2) assms(3) by (simp add: db_view_def)
    with 3(3,4) assms(4,5) have "call_then (db_insert E (enc_string E crafted)
        (enc_info E (x\<lparr>withdrawal_status := Completed\<rparr>))) (\<lambda>_. call_ok ()) t1 = (Inr (), t')"
      by simp
    from insert_step [OF c(1,2) wf(1) this] wf(2) show ?case by simp
  qed auto
qed

theorem withdrawal_mark_wrong_record_witness:
  "ledger_of mem_env map_of (snd (mark_withdrawn mem_env [char_of (4 :: nat), CHR ''a'']
      (orders (mem_state [(''a'', sample_order Paid)]))))
    = (db_view mem_env map_of (mem_state [(''a'', sample_order Paid)]))
        ([char_of (4 :: nat), CHR ''a''] \<mapsto> (sample_order Paid)\<lparr>withdrawal_status := Completed\<rparr>)"
proof -
  have key: "bytes_of [char_of (4 :: nat), CHR ''a''] = enc_string mem_env ''a''"
    by (simp add: bytes_of_def mem_enc_def)
  have "mark_withdrawn mem_env [char_of (4 :: nat), CHR ''a'']
      (orders (mem_state [(''a'', sample_order Paid)])) =
    (Inr (), snd (mark_withdrawn mem_env [char_of (4 :: nat), CHR ''a'']
      (orders (mem_state [(''a'', sample_order Paid)]))))"
    unfolding mark_withdrawn_def key
    by (simp add: call_then_def db_get_def db_insert_def call_map_err_def mem_state_def
        decode_info_def)
  from withdrawal_mark_wrong_record [OF mem_inv key mem_view_singleton _ _ this]
  show ?thesis by simp
qed

text \<open>The list of active orders holds pending orders of the book only, each under its own id, and
  all of them when the iterator reports no fault.\<close>

theorem active_orders_pending:
  assumes "db_inv E contents s" and "call_order_list E life k s = (Inr xs, s')"
  shows "(\<forall>(oid, x) \<in> set xs. db_view E contents s oid = Some x \<and> payment_status x = Pending) \<and>
    ((\<forall>e. Inl e \<notin> set (fst (tree_iter E (orders s)))) \<longrightarrow>
      (\<forall>oid x. db_view E contents s oid = Some x \<and> payment_status x = Pending \<longrightarrow>
        (oid, x) \<in> set xs))"
  using order_list_ledger [OF assms] .

theorem active_orders_pending_witness:
  "\<exists>xs. fst (call_order_list mem_env (Timestamp 60) sample_tick
      (mem_state [(''a'', sample_order Pending), (''b'', sample_order Paid)])) = Inr xs \<and>
    (\<forall>(oid, x) \<in> set xs. db_view mem_env map_of
      (mem_state [(''a'', sample_order Pending), (''b'', sample_order Paid)]) oid = Some x \<and>
      payment_status x = Pending)"
proof -
  let ?s = "mem_state [(''a'', sample_order Pending), (''b'', sample_order Paid)]"
  have "\<exists>xs. call_order_list mem_env (Timestamp 60) sample_tick ?s =
      (Inr xs, snd (call_order_list mem_env (Timestamp 60) sample_tick ?s))"
    by (simp add: call_order_list_def db_call_def active_order_list_def mem_state_def)
  then obtain xs where xs: "call_order_list mem_env (Timestamp 60) sample_tick ?s =
      (Inr xs, snd (call_order_list mem_env (Timestamp 60) sample_tick ?s))" ..
  from conjunct1 [OF active_orders_pending [OF mem_inv xs]] have "\<forall>(oid, x) \<in> set xs.
      db_view mem_env map_of ?s oid = Some x \<and> payment_status x = Pending" .
  moreover from xs have "fst (call_order_list mem_env (Timestamp 60) sample_tick ?s) = Inr xs"
    by (metis fst_conv)
  ultimately show ?thesis by blast
qed

text \<open>The instance id is fixed by the first call that returns one: whatever the name generator
  yields later, every later answer that is not an error is the same id.\<close>

theorem instance_id_stable:
  assumes "sled_contract E contents" and "codec_contract E"
    and "initialize_server_info E opened generated t = (Inr ident, t')"
    and "contents u SERVER_INFO_ID = contents t' SERVER_INFO_ID"
    and "initialize_server_info E opened' generated' u = (Inr ident', u')"
  shows "ident' = ident"
proof -
  have read: "contents w SERVER_INFO_ID = Some v \<Longrightarrow> dec_server_info E v = Inr i \<Longrightarrow>
      initialize_server_info E op gen w = (Inr j, w') \<Longrightarrow>
      j = instance_id i \<and> contents w' = contents w" for w v i op gen j w'
    using db_get_contract [OF assms(1), of SERVER_INFO_ID w]
    by (fastforce simp: initialize_server_info_def call_then_def
        split: option.splits prod.splits sum.splits)
  have "\<exists>v i. contents t' SERVER_INFO_ID = Some v \<and> dec_server_info E v = Inr i \<and>
      instance_id i = ident"
  proof (cases "contents t SERVER_INFO_ID")
    case (Some v)
    from assms(3) obtain i where "dec_server_info E v = Inr i"
      using db_get_contract [OF assms(1), of SERVER_INFO_ID t] Some
      by (fastforce simp: initialize_server_info_def call_then_def
        split: option.splits prod.splits sum.splits)
    with read [OF Some this assms(3)] Some show ?thesis by metis
  next
    case None
    obtain t1 where "db_get E SERVER_INFO_ID t = (Inr None, t1)" "opened = None"
      using assms(3) None db_get_contract [OF assms(1), of SERVER_INFO_ID t]
      by (fastforce simp: initialize_server_info_def call_then_def
        split: option.splits prod.splits sum.splits)
    then obtain i v where v: "enc_server_info E i = Inr v" "instance_id i = ident"
        "db_insert E SERVER_INFO_ID v t1 = (Inr (), t')"
      using assms(3)
      by (auto simp: initialize_server_info_def call_then_def Let_def map_err_def call_of_def
        split: prod.splits sum.splits)
    then show ?thesis
      using db_insert_contract [OF assms(1) v(3)] assms(2) by (auto simp: codec_contract_def)
  qed
  then obtain v i where "contents u SERVER_INFO_ID = Some v" "dec_server_info E v = Inr i"
      "instance_id i = ident"
    using assms(4) by auto
  with read [OF this(1,2) assms(5)] show ?thesis by simp
qed

theorem instance_id_stable_witness:
  "fst (initialize_server_info mem_env None (Some ''other'')
      (snd (initialize_server_info mem_env None (Some ''jolly-fog'') []))) = Inr ''jolly-fog''"
proof -
  have one: "initialize_server_info mem_env None (Some ''jolly-fog'') [] =
      (Inr ''jolly-fog'', snd (initialize_server_info mem_env None (Some ''jolly-fog'') []))"
    by (simp add: initialize_server_info_def call_then_def db_get_def db_insert_def
        call_map_err_def Let_def)
  have "\<exists>j. initialize_server_info mem_env None (Some ''other'')
      (snd (initialize_server_info mem_env None (Some ''jolly-fog'') [])) =
    (Inr j, snd (initialize_server_info mem_env None (Some ''other'')
      (snd (initialize_server_info mem_env None (Some ''jolly-fog'') []))))"
    by (simp add: initialize_server_info_def call_then_def db_get_def db_insert_def
        call_map_err_def Let_def call_of_def)
  then obtain j where two: "initialize_server_info mem_env None (Some ''other'')
      (snd (initialize_server_info mem_env None (Some ''jolly-fog'') [])) =
    (Inr j, snd (initialize_server_info mem_env None (Some ''other'')
      (snd (initialize_server_info mem_env None (Some ''jolly-fog'') []))))" ..
  from instance_id_stable [OF mem_sled mem_codec one refl two] two show ?thesis
    by (metis fst_conv)
qed

text \<open>A shutdown request is answered and ends the loop: no request queued behind it is answered or
  has any effect, and every later call of the handle fails with \<open>DbEngineDown\<close>.\<close>

theorem shutdown_ends_service:
  assumes "serving s"
  shows "serve_all E life ((k, DbShutdown) # queue) s =
      (Some ShutdownReply # replicate (length queue) None, s\<lparr>serving := False\<rparr>) \<and>
    call_mark_paid E life k' oid (s\<lparr>serving := False\<rparr>) = (Inl DbEngineDown, s\<lparr>serving := False\<rparr>) \<and>
    call_create_order E life k' oid q c a (s\<lparr>serving := False\<rparr>)
      = (Inl DbEngineDown, s\<lparr>serving := False\<rparr>)"
proof -
  have "serve_all E life queue u = (replicate (length queue) None, u)" if "\<not> serving u" for u
    using that by (induction queue arbitrary: u) auto
  then show ?thesis
    using assms by (simp add: call_mark_paid_eq call_create_order_eq)
qed

theorem shutdown_ends_service_witness:
  "serve_all mem_env (Timestamp 60) [(sample_tick, DbShutdown), (sample_tick, MarkPaid ''a'')]
      (mem_state [(''a'', sample_order Pending)]) =
    ([Some ShutdownReply, None], (mem_state [(''a'', sample_order Pending)])\<lparr>serving := False\<rparr>)"
  using shutdown_ends_service [of "mem_state [(''a'', sample_order Pending)]" mem_env
      "Timestamp 60" sample_tick "[(sample_tick, MarkPaid ''a'')]"]
  by (simp add: mem_state_def)

end
