(* ===== verification/Signer.thy ===== *)
theory Signer
  imports Errors Task
begin

text \<open>
  The signer of \<open>src/signer.rs\<close>: the task that alone holds the seed's entropy, derives a key
  pair for every order and answers with its address or its signature. The cryptography and the
  mnemonic word list are third-party code, the fields of \<open>crypto_env\<close>.
\<close>

section \<open>The environment\<close>

text \<open>An \<open>AccountId32\<close> is its 32 bytes.\<close>

type_synonym account = bytes

datatype derive_junction = Hard string

record full_derivation =
  junctions :: "derive_junction list"
  password :: "string option"

text \<open>\<open>'p\<close> is a key pair, \<open>'g\<close> a signature, \<open>'w\<close> a set of mnemonic words.\<close>

record ('p, 'g, 'w) crypto_env =
  pair_from :: "bytes \<Rightarrow> full_derivation \<Rightarrow> foreign_error + 'p"
  pair_public :: "'p \<Rightarrow> u16 \<Rightarrow> string"
  pair_sign :: "'p \<Rightarrow> bytes \<Rightarrow> 'g"
  account_to_base58 :: "account \<Rightarrow> u16 \<Rightarrow> string"
  account_from_base58 :: "string \<Rightarrow> foreign_error + (account \<times> u16)"
  word_set_new :: 'w
  add_word :: "string \<Rightarrow> 'w \<Rightarrow> foreign_error + 'w"
  to_entropy :: "'w \<Rightarrow> foreign_error + bytes"

section \<open>The seed phrase and the derivation\<close>

text \<open>\<open>str::split(' ')\<close>: every space ends a word, two spaces in a row give an empty one.\<close>

fun split_char :: "char \<Rightarrow> string \<Rightarrow> string list" where
  "split_char c [] = [[]]"
| "split_char c (x # xs) = (if x = c then [] # split_char c xs
     else (case split_char c xs of w # ws \<Rightarrow> (x # w) # ws | [] \<Rightarrow> [[x]]))"

fun add_words :: "('p, 'g, 'w) crypto_env \<Rightarrow> string list \<Rightarrow> 'w \<Rightarrow> signer_error + 'w" where
  "add_words C [] ws = Inr ws"
| "add_words C (word # words) ws =
     and_then (map_err InvalidSeed (add_word C word ws)) (add_words C words)"

definition entropy_from_phrase :: "('p, 'g, 'w) crypto_env \<Rightarrow> string \<Rightarrow> signer_error + bytes" where
  "entropy_from_phrase C seed =
     and_then (add_words C (split_char (CHR '' '') seed) (word_set_new C))
       (\<lambda>word_set. map_err InvalidSeed (to_entropy C word_set))"

definition derivations :: "string \<Rightarrow> string \<Rightarrow> full_derivation" where
  "derivations recipient order = \<lparr>junctions = [Hard recipient, Hard order], password = None\<rparr>"

lemma split_char_nonempty [simp]: "split_char c xs \<noteq> []"
  by (induction xs) (auto split: list.splits)

text \<open>The words of a phrase are what stands between its spaces.\<close>

fun join_char :: "char \<Rightarrow> string list \<Rightarrow> string" where
  "join_char c [] = []"
| "join_char c [w] = w"
| "join_char c (w # ws) = w @ c # join_char c ws"

lemma join_split: "join_char c (split_char c xs) = xs"
proof (induction xs)
  case (Cons x xs)
  obtain w ws where s: "split_char c xs = w # ws"
    using split_char_nonempty by (cases "split_char c xs") auto
  with Cons show ?case by (cases ws) auto
qed simp

lemma split_char_word: "c \<notin> set w \<Longrightarrow> split_char c w = [w]"
  by (induction w) auto

lemma split_char_append: "c \<notin> set w \<Longrightarrow> split_char c (w @ c # xs) = w # split_char c xs"
  by (induction w) auto

lemma split_join: "ws \<noteq> [] \<Longrightarrow> \<forall>w \<in> set ws. c \<notin> set w \<Longrightarrow> split_char c (join_char c ws) = ws"
  by (induction c ws rule: join_char.induct) (auto simp: split_char_word split_char_append)

section \<open>The signer task\<close>

datatype signer_request = PublicKey string u16 | Sign string bytes | SignerShutdown

datatype 'g signer_reply =
    PublicReply "signer_error + string"
  | SignReply "signer_error + 'g"
  | SignerShutdownReply

record signer_state =
  seed_entropy :: bytes
  signer_running :: bool

text \<open>The task starts by reading the phrase; when that fails it ends and nobody listens.\<close>

definition signer_init :: "('p, 'g, 'w) crypto_env \<Rightarrow> string \<Rightarrow> signer_error + signer_state" where
  "signer_init C seed = and_then (entropy_from_phrase C seed)
     (\<lambda>e. Inr \<lparr>seed_entropy = e, signer_running = True\<rparr>)"

definition order_pair ::
    "('p, 'g, 'w) crypto_env \<Rightarrow> account \<Rightarrow> bytes \<Rightarrow> string \<Rightarrow> signer_error + 'p" where
  "order_pair C recipient entropy order =
     map_err InvalidDerivation
       (pair_from C entropy (derivations (account_to_base58 C recipient 2) order))"

fun signer_step :: "('p, 'g, 'w) crypto_env \<Rightarrow> account \<Rightarrow> signer_request \<Rightarrow> signer_state
    \<Rightarrow> 'g signer_reply \<times> signer_state" where
  "signer_step C recipient (PublicKey order ss58) s =
     (PublicReply (and_then (order_pair C recipient (seed_entropy s) order)
       (\<lambda>p. Inr (pair_public C p ss58))), s)"
| "signer_step C recipient (Sign order signable) s =
     (SignReply (and_then (order_pair C recipient (seed_entropy s) order)
       (\<lambda>p. Inr (pair_sign C p signable))), s)"
| "signer_step C recipient SignerShutdown s =
     (SignerShutdownReply,
      s\<lparr>seed_entropy := replicate (length (seed_entropy s)) 0, signer_running := False\<rparr>)"

fun signer_run :: "('p, 'g, 'w) crypto_env \<Rightarrow> account \<Rightarrow> signer_request list \<Rightarrow> signer_state
    \<Rightarrow> 'g signer_reply option list \<times> signer_state" where
  "signer_run C recipient [] s = ([], s)"
| "signer_run C recipient (req # queue) s =
     (if signer_running s then
        (case signer_step C recipient req s of (reply, s') \<Rightarrow>
          (case signer_run C recipient queue s' of (replies, s'') \<Rightarrow> (Some reply # replies, s'')))
      else (case signer_run C recipient queue s of (replies, s'') \<Rightarrow> (None # replies, s'')))"

text \<open>The methods of the handle: a task that is gone is \<open>SignerDown\<close>.\<close>

definition signer_public ::
    "('p, 'g, 'w) crypto_env \<Rightarrow> account \<Rightarrow> signer_state \<Rightarrow> string \<Rightarrow> u16 \<Rightarrow> signer_error + string" where
  "signer_public C recipient s order ss58 =
     (if signer_running s then
        (case signer_step C recipient (PublicKey order ss58) s of
           (PublicReply r, _) \<Rightarrow> r | _ \<Rightarrow> Inl SignerDown)
      else Inl SignerDown)"

definition signer_sign ::
    "('p, 'g, 'w) crypto_env \<Rightarrow> account \<Rightarrow> signer_state \<Rightarrow> string \<Rightarrow> bytes \<Rightarrow> signer_error + 'g" where
  "signer_sign C recipient s order signable =
     (if signer_running s then
        (case signer_step C recipient (Sign order signable) s of
           (SignReply r, _) \<Rightarrow> r | _ \<Rightarrow> Inl SignerDown)
      else Inl SignerDown)"

definition signer_shutdown ::
    "('p, 'g, 'w) crypto_env \<Rightarrow> account \<Rightarrow> signer_state \<Rightarrow> signer_state" where
  "signer_shutdown C recipient s =
     (if signer_running s then snd (signer_step C recipient SignerShutdown s) else s)"

lemma signer_public_eq:
  "signer_public C recipient s order ss58 = (if signer_running s then
     and_then (order_pair C recipient (seed_entropy s) order) (\<lambda>p. Inr (pair_public C p ss58))
   else Inl SignerDown)"
  by (simp add: signer_public_def)

lemma signer_sign_eq:
  "signer_sign C recipient s order m = (if signer_running s then
     and_then (order_pair C recipient (seed_entropy s) order) (\<lambda>p. Inr (pair_sign C p m))
   else Inl SignerDown)"
  by (simp add: signer_sign_def)

text \<open>The signer's task: it keeps its seed or, once shut down, nothing but zeros.\<close>

definition signer_serve :: "('p, 'g, 'w) crypto_env \<Rightarrow> account \<Rightarrow> signer_request \<Rightarrow> signer_state
    \<Rightarrow> 'g signer_reply option \<times> signer_state" where
  "signer_serve C recipient req s = (if signer_running s
     then (case signer_step C recipient req s of (reply, s') \<Rightarrow> (Some reply, s')) else (None, s))"

definition kept_or_cleared :: "signer_state \<Rightarrow> signer_state \<Rightarrow> bool" where
  "kept_or_cleared s s' \<longleftrightarrow> s' = s \<or> \<not> signer_running s' \<and> (\<forall>e \<in> set (seed_entropy s'). e = 0)"

interpretation signer_task: evolving_task "signer_serve C recipient" "signer_run C recipient" "[]" "(#)"
  "\<lambda>_. True" "\<lambda>_. True" "\<lambda>s. s" kept_or_cleared
  for C recipient
proof unfold_locales
  show "signer_serve C recipient e s = (r, s1) \<Longrightarrow> signer_run C recipient es s1 = (acc, s2) \<Longrightarrow>
      signer_run C recipient (e # es) s = (r # acc, s2)" for e s r s1 es acc s2
    by (auto simp: signer_serve_def split: if_splits prod.splits)
  show "True \<and> kept_or_cleared s s'" if "signer_serve C recipient e s = (r, s')" for e s r s'
    using that by (cases e) (auto simp: signer_serve_def kept_or_cleared_def split: if_splits)
qed (auto simp: kept_or_cleared_def)

lemma signer_run_running:
  "signer_run C recipient queue s = (replies, s') \<Longrightarrow>
     s' = s \<or> \<not> signer_running s' \<and> (\<forall>e \<in> set (seed_entropy s'). e = 0)"
  using signer_task.run_evolves [where s = s and es = queue] by (simp add: kept_or_cleared_def)

section \<open>A toy cipher for the witnesses\<close>

text \<open>The pair is the derivation itself, its address the order id behind the prefix, a signature
  the order id before the message; words are kept as they are and their first letters are the
  entropy. An address is read back when it has a prefix.\<close>

definition toy_crypto :: "(string, string \<times> bytes, string list) crypto_env" where
  "toy_crypto = \<lparr>
     pair_from = (\<lambda>e d. case junctions d of [Hard r, Hard order] \<Rightarrow> Inr order | _ \<Rightarrow> Inl ''path''),
     pair_public = (\<lambda>p ss58. char_of (unat ss58) # p),
     pair_sign = (\<lambda>p m. (p, m)),
     account_to_base58 = (\<lambda>a ss58. char_of (unat ss58) # map (\<lambda>w. char_of (unat w)) a),
     account_from_base58 = (\<lambda>s. case s of [] \<Rightarrow> Inl ''empty''
        | c # a \<Rightarrow> Inr (bytes_of a, word_of_nat (of_char c))),
     word_set_new = [],
     add_word = (\<lambda>w ws. if w = [] then Inl ''not a word'' else Inr (ws @ [w])),
     to_entropy = (\<lambda>ws. Inr (bytes_of (map hd ws)))\<rparr>"

lemma char_65: "char_of (65 :: nat) = CHR ''A''"
  by code_simp

section \<open>Properties\<close>

text \<open>C30. The address shown for an order and a signature made for it later, whatever requests the
  signer served in between, come from one key pair: the one derived from the seed, the
  recipient and the order id.\<close>

theorem signature_matches_address:
  assumes "signer_public C recipient s order ss58 = Inr address"
    and "signer_run C recipient queue s = (replies, s')"
    and "signer_sign C recipient s' order signable = Inr signature"
  shows "\<exists>p. pair_from C (seed_entropy s) (derivations (account_to_base58 C recipient 2) order) = Inr p \<and>
    address = pair_public C p ss58 \<and> signature = pair_sign C p signable"
proof -
  have "s' = s"
    using signer_run_running [OF assms(2)] assms(3) by (auto simp: signer_sign_eq split: if_splits)
  with assms(1,3) show ?thesis
    by (auto simp: signer_public_eq signer_sign_eq order_pair_def and_then_Inr_iff split: if_splits)
qed

theorem signature_matches_address_witness:
  "\<exists>p. pair_from toy_crypto [7] (derivations (account_to_base58 toy_crypto [3] 2) ''a'') = Inr p \<and>
    pair_public toy_crypto p 65 = ''Aa'' \<and> pair_sign toy_crypto p [1, 2] = (''a'', [1, 2])"
proof -
  let ?s = "\<lparr>seed_entropy = [7], signer_running = True\<rparr>"
  have "signer_public toy_crypto [3] ?s ''a'' 65 = Inr ''Aa''"
    by (simp add: signer_public_eq order_pair_def toy_crypto_def derivations_def char_65)
  note public = this
  have run: "signer_run toy_crypto [3] [PublicKey ''b'' 65] ?s =
      ([Some (PublicReply (Inr ''Ab''))], ?s)"
    by (simp add: order_pair_def toy_crypto_def derivations_def char_65)
  have sign: "signer_sign toy_crypto [3] ?s ''a'' [1, 2] = Inr (''a'', [1, 2])"
    by (simp add: signer_sign_eq order_pair_def toy_crypto_def derivations_def)
  from signature_matches_address [OF public run sign] show ?thesis
    by (metis select_convs(1))
qed

text \<open>A phrase of non-empty or empty words joined by single spaces is read word by word, in order,
  and its entropy is that of the words' set; the first word refused ends with \<open>InvalidSeed\<close>.\<close>

theorem entropy_of_words:
  assumes "words \<noteq> []" and "\<forall>w \<in> set words. CHR '' '' \<notin> set w"
  shows "entropy_from_phrase C (join_char (CHR '' '') words) =
    (case fold (\<lambda>w r. and_then r (add_word C w)) words (Inr (word_set_new C)) of
       Inl e \<Rightarrow> Inl (InvalidSeed e) | Inr ws \<Rightarrow> map_err InvalidSeed (to_entropy C ws))"
proof -
  have err: "fold (\<lambda>w r. and_then r (add_word C w)) xs (Inl e) = Inl e" for xs e
    by (induction xs) auto
  have fold: "add_words C xs ws =
      map_err InvalidSeed (fold (\<lambda>w r. and_then r (add_word C w)) xs (Inr ws))" for xs ws
  proof (induction xs arbitrary: ws)
    case (Cons x xs)
    then show ?case by (cases "add_word C x ws") (auto simp: err)
  qed simp
  show ?thesis
    by (simp add: entropy_from_phrase_def split_join [OF assms] fold split: sum.split)
qed

theorem entropy_of_words_witness:
  "entropy_from_phrase toy_crypto ''bottom drive'' = Inr (bytes_of ''bd'')"
  using entropy_of_words [of "[''bottom'', ''drive'']" toy_crypto]
  by (simp add: toy_crypto_def)

text \<open>Shutting the signer down overwrites the entropy with zeros and ends the task: every later
  request for an address or a signature fails with \<open>SignerDown\<close>.\<close>

theorem signer_shutdown_clears:
  assumes "signer_running s"
  shows "seed_entropy (signer_shutdown C recipient s) = replicate (length (seed_entropy s)) 0 \<and>
    signer_public C recipient (signer_shutdown C recipient s) order ss58 = Inl SignerDown \<and>
    signer_sign C recipient (signer_shutdown C recipient s) order signable = Inl SignerDown"
  using assms by (simp add: signer_shutdown_def signer_public_def signer_sign_def)

theorem signer_shutdown_clears_witness:
  "seed_entropy (signer_shutdown toy_crypto [3]
      \<lparr>seed_entropy = [7, 9], signer_running = True\<rparr>) = [0, 0]"
  using signer_shutdown_clears [of "\<lparr>seed_entropy = [7, 9], signer_running = True\<rparr>" toy_crypto "[3]"]
  by (simp add: numeral_2_eq_2)

end
