(* ===== verification/Chain_Data.thy ===== *)
theory Chain_Data
  imports Signer
begin

text \<open>
  The data the chain code works on: runtime metadata, decoded storage values and the forms a
  call or a storage query is filled into. All of these types belong to third-party crates
  (\<open>frame_metadata\<close>, \<open>substrate_parser\<close>, \<open>substrate_constructor\<close>); they appear here with the
  constructors and fields the daemon's code matches on, everything else is one opaque case.
  The functions of those crates are the fields of \<open>chain_lib\<close>. The second part is
  \<open>src/utils.rs\<close> and the block hash of \<open>src/chain/definitions.rs\<close>.
\<close>

section \<open>Decoded values\<close>

datatype specialty = SpecialtyNone | SpecialtyBalance | SpecialtyOther

datatype parsed_data =
    PrimitiveBool bool
  | PrimitiveU8 u8
  | PrimitiveU16 u16
  | PrimitiveU32 u32
  | PrimitiveU64 u64
  | PrimitiveU128 u128 specialty
  | ParsedId account
  | ParsedText string
  | SequenceU8 bytes
  | SequenceRaw "parsed_data list"
  | Composite "(string option \<times> parsed_data) list"
  | ParsedEvent string string "(string option \<times> parsed_data) list"
  | ParsedOther string

type_synonym field_data = "string option \<times> parsed_data"

text \<open>An event: pallet name, variant name, fields.\<close>

type_synonym event = "string \<times> string \<times> field_data list"

datatype key_part = KeyParsed parsed_data | KeyHash bytes

datatype key_data = SingleHash key_part | KeyOther

section \<open>Metadata\<close>

type_synonym type_id = u32

datatype type_def = TypeU32 | TypeOther

datatype storage_hasher =
    Blake2_128 | Blake2_256 | Blake2_128Concat | Twox128 | Twox256 | Twox64Concat | Identity

datatype storage_entry_type =
    Plain type_id
  | Map "storage_hasher list" type_id type_id

record storage_entry =
  entry_name :: string
  entry_ty :: storage_entry_type

record pallet_storage =
  storage_prefix :: string
  entries :: "storage_entry list"

record pallet_constant =
  constant_name :: string
  constant_value :: bytes
  constant_ty :: type_id

record pallet_metadata =
  pallet_name :: string
  pallet_index_of :: u8
  storage :: "pallet_storage option"
  constants :: "pallet_constant list"

text \<open>\<open>'r\<close> is the type registry.\<close>

record 'r metadata =
  pallets :: "pallet_metadata list"
  call_ty :: type_id
  registry :: 'r

datatype 'r runtime_metadata = V15 "'r metadata" | OtherVersion

record short_specs =
  specs_base58prefix :: u16
  specs_decimals :: u8
  specs_unit :: string

section \<open>Forms to fill\<close>

datatype unsigned_to_fill = FillU32 "u32 option" | FillU128 "u128 option" | FillUnsignedOther

datatype era_to_fill = EraUnset | EraMortalDefault | EraOther

text \<open>A variant selector holds the variants on offer, by name, the index of the selected one and its
  fields.\<close>

datatype type_to_fill =
    FillVariant "string list" nat "(string option \<times> type_to_fill) list"
  | FillComposite "(string option \<times> type_to_fill) list"
  | FillAccount "account option"
  | FillEra era_to_fill
  | FillCompact unsigned_to_fill specialty
  | FillUnsigned unsigned_to_fill specialty
  | FillBool "bool option"
  | FillTuple "type_to_fill list"
  | FillSequence "type_to_fill list"
  | FillOther string

type_synonym fill_fields = "(string option \<times> type_to_fill) list"

text \<open>A storage entry's form: plain, or a map with a key to fill.\<close>

datatype entry_to_fill = EntryPlain | EntryMap type_to_fill

datatype entry_selector =
    EntryFunctional "string list" string entry_to_fill
  | EntryEmpty

datatype storage_selector =
    StorageFunctional "string list" string entry_selector
  | StorageEmpty

record finalized_query =
  query_key :: string
  query_value_ty :: type_id

record transaction_to_fill =
  author :: type_to_fill
  call :: type_to_fill
  extensions :: "type_to_fill list"

section \<open>The libraries\<close>

text \<open>Errors of the constructor library come as the \<open>ChainError\<close> that \<open>?\<close> turns them into.\<close>

record 'r chain_lib =
  hex_encode :: "bytes \<Rightarrow> string"
  hex_decode :: "string \<Rightarrow> foreign_error + bytes"
  blake2_128 :: "bytes \<Rightarrow> bytes"
  blake2_256 :: "bytes \<Rightarrow> bytes"
  twox_64 :: "bytes \<Rightarrow> bytes"
  twox_128 :: "bytes \<Rightarrow> bytes"
  twox_256 :: "bytes \<Rightarrow> bytes"
  encode_u32 :: "u32 \<Rightarrow> bytes"
  from_utf8 :: "bytes \<Rightarrow> string option"
  resolve_ty :: "'r \<Rightarrow> type_id \<Rightarrow> foreign_error + type_def"
  decode_all_as_type :: "type_id \<Rightarrow> bytes \<Rightarrow> 'r \<Rightarrow> foreign_error + parsed_data"
  decode_as_storage_entry ::
    "bytes \<Rightarrow> bytes \<Rightarrow> storage_entry \<Rightarrow> 'r \<Rightarrow> foreign_error + (key_data \<times> parsed_data)"
  decode_option_bytes :: "bytes \<Rightarrow> foreign_error + bytes option"
  decode_metadata :: "bytes \<Rightarrow> foreign_error + 'r runtime_metadata"
  spec_name :: "'r metadata \<Rightarrow> foreign_error + string"
  prepare_type :: "type_id \<Rightarrow> 'r \<Rightarrow> chain_error + type_to_fill"
  variant_new_at :: "string list \<Rightarrow> 'r \<Rightarrow> nat
    \<Rightarrow> chain_error + (string list \<times> nat \<times> fill_fields)"
  selector_init :: "'r metadata \<Rightarrow> chain_error + storage_selector"
  selector_new_at :: "string list \<Rightarrow> 'r \<Rightarrow> nat
    \<Rightarrow> chain_error + (string list \<times> string \<times> entry_selector)"
  entry_new_at :: "string list \<Rightarrow> 'r \<Rightarrow> nat
    \<Rightarrow> chain_error + (string list \<times> string \<times> entry_to_fill)"
  query_finalize :: "string \<Rightarrow> entry_selector \<Rightarrow> chain_error + finalized_query option"
  transaction_init :: "'r metadata \<Rightarrow> bytes \<Rightarrow> chain_error + transaction_to_fill"
  populate_block_info :: "bytes \<Rightarrow> u32 \<Rightarrow> transaction_to_fill \<Rightarrow> transaction_to_fill"
  populate_nonce :: "u32 \<Rightarrow> transaction_to_fill \<Rightarrow> transaction_to_fill"

section \<open>Hexadecimal strings and block hashes\<close>

definition strip_prefix :: "string \<Rightarrow> string \<Rightarrow> string option" where
  "strip_prefix p s = (if take (length p) s = p then Some (drop (length p) s) else None)"

definition unhex :: "'r chain_lib \<Rightarrow> string \<Rightarrow> not_hex \<Rightarrow> util_error + bytes" where
  "unhex L hex_data what_is_hex = (case strip_prefix ''0x'' hex_data of
     Some stripped \<Rightarrow> map_err (\<lambda>_. NotHex what_is_hex) (hex_decode L stripped)
   | None \<Rightarrow> map_err (\<lambda>_. NotHex what_is_hex) (hex_decode L hex_data))"

datatype block_hash = BlockHash bytes

fun block_hash_to_string :: "'r chain_lib \<Rightarrow> block_hash \<Rightarrow> string" where
  "block_hash_to_string L (BlockHash h) = ''0x'' @ hex_encode L h"

definition block_hash_from_str :: "'r chain_lib \<Rightarrow> string \<Rightarrow> chain_error + block_hash" where
  "block_hash_from_str L s = and_then (map_err Util (unhex L s HexBlockHash))
     (\<lambda>block_hash_raw. if length block_hash_raw = 32 then Inr (BlockHash block_hash_raw)
        else Inl BlockHashLength)"

text \<open>The \<open>hex\<close> crate: decoding inverts encoding.\<close>

definition hex_contract :: "'r chain_lib \<Rightarrow> bool" where
  "hex_contract L \<longleftrightarrow> (\<forall>b. hex_decode L (hex_encode L b) = Inr b)"

lemma unhex_0x [simp]: "unhex L (CHR ''0'' # CHR ''x'' # s) w =
    map_err (\<lambda>_. NotHex w) (hex_decode L s)"
  by (simp add: unhex_def strip_prefix_def)

end
