(* ===== verification/Chain_Utils.thy ===== *)
theory Chain_Utils
  imports Chain_Data
begin

text \<open>
  The parts of \<open>src/chain/utils.rs\<close> that read chain data without building calls: the system
  properties a node reports (\<open>decimals\<close>, \<open>unit\<close>, \<open>base58prefix\<close>), constants and storage entries
  of the metadata, storage keys, and the receiver of a transfer event. The properties
  characterise exactly which inputs are accepted and what is read from them.
\<close>

section \<open>System properties\<close>

definition decimals :: "json_map \<Rightarrow> chain_error + u8" where
  "decimals x = (case map_of x ''tokenDecimals'' of
     Some a \<Rightarrow> (case a of
       JNumber b \<Rightarrow> (case as_u64 b of
         Some c \<Rightarrow> (case u64_to_u8 c of
           Some d \<Rightarrow> Inr d
         | None \<Rightarrow> Inl (DecimalsFormatNotSupported a))
       | None \<Rightarrow> Inl (DecimalsFormatNotSupported a))
     | JArray b \<Rightarrow>
         if length b = 1 then
           (case b ! 0 of
             JNumber c \<Rightarrow> (case as_u64 c of
               Some d \<Rightarrow> (case u64_to_u8 d of
                 Some f \<Rightarrow> Inr f
               | None \<Rightarrow> Inl (DecimalsFormatNotSupported a))
             | None \<Rightarrow> Inl (DecimalsFormatNotSupported a))
           | _ \<Rightarrow> Inl (DecimalsFormatNotSupported a))
         else Inl (DecimalsFormatNotSupported a)
     | _ \<Rightarrow> Inl (DecimalsFormatNotSupported a))
   | None \<Rightarrow> Inl NoDecimals)"

definition base58prefix :: "json_map \<Rightarrow> u16 option \<Rightarrow> chain_error + u16" where
  "base58prefix x optional_prefix_from_meta = (case map_of x ''ss58Format'' of
     Some a \<Rightarrow> (case a of
       JNumber b \<Rightarrow> (case as_u64 b of
         Some c \<Rightarrow> (case u64_to_u16 c of
           Some d \<Rightarrow> (case optional_prefix_from_meta of
             Some prefix_from_meta \<Rightarrow>
               if prefix_from_meta = d then Inr d else Inl (Base58PrefixMismatch d prefix_from_meta)
           | None \<Rightarrow> Inr d)
         | None \<Rightarrow> Inl (Base58PrefixFormatNotSupported a))
       | None \<Rightarrow> Inl (Base58PrefixFormatNotSupported a))
     | _ \<Rightarrow> Inl (Base58PrefixFormatNotSupported a))
   | None \<Rightarrow> (case optional_prefix_from_meta of
       Some prefix_from_meta \<Rightarrow> Inr prefix_from_meta
     | None \<Rightarrow> Inl NoBase58Prefix))"

definition unit_of :: "json_map \<Rightarrow> chain_error + string" where
  "unit_of x = (case map_of x ''tokenSymbol'' of
     Some a \<Rightarrow> (case a of
       JString b \<Rightarrow> Inr b
     | JArray b \<Rightarrow>
         if length b = 1 then
           (case b ! 0 of JString c \<Rightarrow> Inr c | _ \<Rightarrow> Inl (UnitFormatNotSupported a))
         else Inl (UnitFormatNotSupported a)
     | _ \<Rightarrow> Inl (UnitFormatNotSupported a))
   | None \<Rightarrow> Inl NoUnit)"

section \<open>Constants and entries of the metadata\<close>

text \<open>\<open>u32\<close>, \<open>u64\<close> and \<open>u128\<close> to \<open>u16\<close> by \<open>try_into().ok()\<close>.\<close>

definition try_u16 :: "'a::len word \<Rightarrow> u16 option" where
  "try_u16 n = (if unat n < 65536 then Some (ucast n) else None)"

definition find_constant :: "string \<Rightarrow> string \<Rightarrow> 'r metadata \<Rightarrow> pallet_constant option" where
  "find_constant name constant m = (case find (\<lambda>p. pallet_name p = name) (pallets m) of
     Some pallet \<Rightarrow> find (\<lambda>c. constant_name c = constant) (constants pallet)
   | None \<Rightarrow> None)"

definition optional_prefix_from_meta :: "'r chain_lib \<Rightarrow> 'r metadata \<Rightarrow> u16 option" where
  "optional_prefix_from_meta L m = (case find_constant ''System'' ''SS58Prefix'' m of
     Some c \<Rightarrow> (case decode_all_as_type L (constant_ty c) (constant_value c) (registry m) of
       Inr data \<Rightarrow> (case data of
           PrimitiveU8 v \<Rightarrow> Some (ucast v)
         | PrimitiveU16 v \<Rightarrow> Some v
         | PrimitiveU32 v \<Rightarrow> try_u16 v
         | PrimitiveU64 v \<Rightarrow> try_u16 v
         | PrimitiveU128 v _ \<Rightarrow> try_u16 v
         | _ \<Rightarrow> None)
     | Inl _ \<Rightarrow> None)
   | None \<Rightarrow> None)"

definition fetch_constant ::
    "'r chain_lib \<Rightarrow> 'r metadata \<Rightarrow> string \<Rightarrow> string \<Rightarrow> parsed_data option" where
  "fetch_constant L m pallet constant = (case find_constant pallet constant m of
     Some c \<Rightarrow> result_ok (decode_all_as_type L (constant_ty c) (constant_value c) (registry m))
   | None \<Rightarrow> None)"

definition system_properties_to_short_specs ::
    "'r chain_lib \<Rightarrow> json_map \<Rightarrow> 'r metadata \<Rightarrow> chain_error + short_specs" where
  "system_properties_to_short_specs L x m =
     and_then (base58prefix x (optional_prefix_from_meta L m)) (\<lambda>p.
     and_then (decimals x) (\<lambda>d.
     and_then (unit_of x) (\<lambda>u.
       Inr \<lparr>specs_base58prefix = p, specs_decimals = d, specs_unit = u\<rparr>)))"

definition pallet_index :: "'r metadata \<Rightarrow> string \<Rightarrow> u8 option" where
  "pallet_index m name = map_option pallet_index_of (find (\<lambda>p. pallet_name p = name) (pallets m))"

text \<open>The inner \<open>break\<close> leaves the loop over the entries only: a later \<open>System\<close> pallet overrides.\<close>

fun events_loop :: "pallet_metadata list \<Rightarrow> storage_entry option \<Rightarrow> storage_entry option" where
  "events_loop [] found = found"
| "events_loop (p # ps) found = events_loop ps (case storage p of
     Some s \<Rightarrow> if storage_prefix s = ''System'' then
         (case find (\<lambda>e. entry_name e = ''Events'') (entries s) of Some e \<Rightarrow> Some e | None \<Rightarrow> found)
       else found
   | None \<Rightarrow> found)"

definition events_entry_metadata :: "'r metadata \<Rightarrow> chain_error + storage_entry" where
  "events_entry_metadata m = ok_or EventsNonexistant (events_loop (pallets m) None)"

section \<open>Storage keys\<close>

definition storage_key :: "'r chain_lib \<Rightarrow> string \<Rightarrow> string \<Rightarrow> string" where
  "storage_key L prefix storage_name =
     ''0x'' @ hex_encode L (twox_128 L (bytes_of prefix)) @
       hex_encode L (twox_128 L (bytes_of storage_name))"

fun hashed_key_element :: "'r chain_lib \<Rightarrow> bytes \<Rightarrow> storage_hasher \<Rightarrow> bytes" where
  "hashed_key_element L data Blake2_128 = blake2_128 L data"
| "hashed_key_element L data Blake2_256 = blake2_256 L data"
| "hashed_key_element L data Blake2_128Concat = blake2_128 L data @ data"
| "hashed_key_element L data Twox128 = twox_128 L data"
| "hashed_key_element L data Twox256 = twox_256 L data"
| "hashed_key_element L data Twox64Concat = twox_64 L data @ data"
| "hashed_key_element L data Identity = data"

text \<open>The pallets with a storage of the given prefix, in order; only the first is looked into.\<close>

fun first_storage :: "string \<Rightarrow> pallet_metadata list \<Rightarrow> pallet_storage option" where
  "first_storage prefix [] = None"
| "first_storage prefix (p # ps) = (case storage p of
     Some s \<Rightarrow> if storage_prefix s = prefix then Some s else first_storage prefix ps
   | None \<Rightarrow> first_storage prefix ps)"

definition whole_key_u32_value ::
    "'r chain_lib \<Rightarrow> string \<Rightarrow> string \<Rightarrow> 'r metadata \<Rightarrow> u32 \<Rightarrow> chain_error + string" where
  "whole_key_u32_value L prefix storage_name m entered_data =
     (case first_storage prefix (pallets m) of
        Some s \<Rightarrow> (case find (\<lambda>e. entry_name e = storage_name) (entries s) of
          Some e \<Rightarrow> (case entry_ty e of
              Plain _ \<Rightarrow> Inl StorageEntryNotMap
            | Map hashers key_ty _ \<Rightarrow>
                if length hashers = 1 then
                  and_then (map_err RegistryError (resolve_ty L (registry m) key_ty))
                    (\<lambda>td. case td of
                       TypeU32 \<Rightarrow> Inr (''0x'' @ hex_encode L (twox_128 L (bytes_of prefix)) @
                         hex_encode L (twox_128 L (bytes_of storage_name)) @
                         hex_encode L (hashed_key_element L (encode_u32 L entered_data) (hashers ! 0)))
                     | TypeOther \<Rightarrow> Inl StorageKeyNotU32)
                else Inl StorageEntryMapMultiple)
        | None \<Rightarrow> Inl (StorageKeyNotFound storage_name))
      | None \<Rightarrow> Inl NoPallet)"

section \<open>The receiver of a transfer\<close>

text \<open>A second \<open>to\<close> account empties the result and ends the loop.\<close>

fun receiver_loop :: "field_data list \<Rightarrow> account option \<Rightarrow> account option" where
  "receiver_loop [] found = found"
| "receiver_loop ((name, data) # fds) found =
     (if name = Some ''to'' then
        (case data of
           ParsedId a \<Rightarrow> (case found of
               None \<Rightarrow> receiver_loop fds (Some a)
             | Some _ \<Rightarrow> None)
         | _ \<Rightarrow> receiver_loop fds found)
      else receiver_loop fds found)"

definition was_balance_received_at_account :: "account \<Rightarrow> field_data list \<Rightarrow> bool" where
  "was_balance_received_at_account known_account fds =
     (case receiver_loop fds None of
        Some receiver \<Rightarrow> receiver = known_account
      | None \<Rightarrow> False)"

section \<open>Lemmas\<close>

lemma case_option_Inr [simp]:
  "(case x of None \<Rightarrow> Inl e | Some y \<Rightarrow> Inr y) = Inr z \<longleftrightarrow> x = Some z"
  by (cases x) auto

lemma length_one_iff: "length b = Suc 0 \<longleftrightarrow> (\<exists>y. b = [y])"
  by (cases b) auto

lemma decimals_Inr:
  "decimals x = Inr d \<longleftrightarrow>
     (\<exists>n. unat n = unat d \<and> (map_of x ''tokenDecimals'' = Some (JNumber (PosInt n)) \<or>
        map_of x ''tokenDecimals'' = Some (JArray [JNumber (PosInt n)])))"
proof -
  have num: "(case as_u64 b of Some c \<Rightarrow> (case u64_to_u8 c of Some d \<Rightarrow> Inr d | None \<Rightarrow> Inl e)
      | None \<Rightarrow> Inl e) = Inr d \<longleftrightarrow> (\<exists>n. b = PosInt n \<and> unat n = unat d)" for b :: number and e :: chain_error
    by (cases b) (auto simp: u64_to_u8_Some)
  show ?thesis
  proof (cases "map_of x ''tokenDecimals''")
    case (Some a)
    show ?thesis
    proof (cases a)
      case (JNumber b)
      then show ?thesis by (auto simp: decimals_def Some num)
    next
      case (JArray b)
      show ?thesis
      proof (cases "\<exists>y. b = [y]")
        case True
        then obtain y where "b = [y]" ..
        then show ?thesis by (cases y) (auto simp: decimals_def Some JArray num)
      next
        case False
        then show ?thesis by (auto simp: decimals_def Some JArray length_one_iff)
      qed
    qed (auto simp: decimals_def Some)
  qed (simp add: decimals_def)
qed

lemma base58prefix_Inr:
  "base58prefix x meta = Inr d \<longleftrightarrow>
     (\<exists>n. map_of x ''ss58Format'' = Some (JNumber (PosInt n)) \<and> unat n = unat d \<and>
        (meta = None \<or> meta = Some d)) \<or>
     map_of x ''ss58Format'' = None \<and> meta = Some d"
proof (cases "map_of x ''ss58Format''")
  case (Some a)
  show ?thesis
  proof (cases a)
    case (JNumber b)
    have sel: "(case u64_to_u16 n of Some d \<Rightarrow> (case meta of
        Some m \<Rightarrow> if m = d then Inr d else Inl (Base58PrefixMismatch d m) | None \<Rightarrow> Inr d)
      | None \<Rightarrow> Inl e) = Inr d \<longleftrightarrow> u64_to_u16 n = Some d \<and> (meta = None \<or> meta = Some d)" for n e
      by (auto split: option.splits)
    show ?thesis
      by (cases b) (auto simp: base58prefix_def Some JNumber sel u64_to_u16_Some)
  qed (auto simp: base58prefix_def Some)
qed (auto simp: base58prefix_def split: option.splits)

lemma unit_of_Inr:
  "unit_of x = Inr u \<longleftrightarrow> map_of x ''tokenSymbol'' = Some (JString u) \<or>
     map_of x ''tokenSymbol'' = Some (JArray [JString u])"
proof (cases "map_of x ''tokenSymbol''")
  case (Some a)
  show ?thesis
  proof (cases a)
    case (JArray b)
    show ?thesis
    proof (cases "\<exists>y. b = [y]")
      case True
      then obtain y where "b = [y]" ..
      then show ?thesis by (cases y) (auto simp: unit_of_def Some JArray)
    next
      case False
      then show ?thesis by (auto simp: unit_of_def Some JArray length_one_iff)
    qed
  qed (auto simp: unit_of_def Some)
qed (simp add: unit_of_def)

text \<open>The accounts named by the \<open>to\<close> fields of an event.\<close>

definition receivers :: "field_data list \<Rightarrow> account list" where
  "receivers fds = List.map_filter (\<lambda>(name, data). case data of
     ParsedId a \<Rightarrow> if name = Some ''to'' then Some a else None | _ \<Rightarrow> None) fds"

lemma receivers_simps [simp]:
  "receivers [] = []"
  "receivers ((name, data) # fds) = (case data of
     ParsedId a \<Rightarrow> if name = Some ''to'' then a # receivers fds else receivers fds
   | _ \<Rightarrow> receivers fds)"
  by (auto simp: receivers_def split: parsed_data.split)

lemma receiver_loop_eq:
  "receiver_loop fds found = (case (found, receivers fds) of
     (None, [a]) \<Rightarrow> Some a | (Some b, []) \<Rightarrow> Some b | _ \<Rightarrow> None)"
  by (induction fds found rule: receiver_loop.induct)
    (auto split: parsed_data.splits option.splits list.splits)

end
