(* ===== verification/Chain_Calls.thy ===== *)
theory Chain_Calls
  imports Chain_Utils
begin

text \<open>
  The call and query builders of \<open>src/chain/utils.rs\<close>: transfers of an asset and of the native
  token, the batch that carries them in a transaction, and the storage queries for balances
  and the block number. The forms come from the constructor library (\<open>prepare_type\<close>,
  \<open>variant_new_at\<close>, ...); the code selects variants by name and fills fields in.
\<close>

section \<open>Calls\<close>

record asset_transfer_constructor =
  at_asset_id :: u32
  at_amount :: u128
  at_to_account :: account

record balance_transfer_constructor =
  bt_amount :: u128
  bt_to_account :: account
  bt_is_clearing :: bool

text \<open>\<open>*selector = VariantSelector::new_at(&selector.available_variants, .., index)?\<close>\<close>

definition select_at ::
    "'r chain_lib \<Rightarrow> 'r \<Rightarrow> string list \<Rightarrow> nat \<Rightarrow> (fill_fields \<Rightarrow> chain_error + fill_fields)
      \<Rightarrow> chain_error + type_to_fill" where
  "select_at L reg available index continue =
     and_then (variant_new_at L available reg index) (\<lambda>(names, i, fs).
       and_then (continue fs) (\<lambda>fs'. Inr (FillVariant names i fs')))"

text \<open>An account behind a \<open>MultiAddress\<close>: select \<open>Id\<close> and fill its single account field.\<close>

definition fill_single_account :: "account \<Rightarrow> fill_fields \<Rightarrow> fill_fields" where
  "fill_single_account a fs = (case fs of
     [(n, FillAccount _)] \<Rightarrow> [(n, FillAccount (Some a))]
   | _ \<Rightarrow> fs)"

definition fill_address ::
    "'r chain_lib \<Rightarrow> 'r \<Rightarrow> account \<Rightarrow> type_to_fill \<Rightarrow> chain_error + type_to_fill" where
  "fill_address L reg a t = (case t of
     FillVariant available _ _ \<Rightarrow> (case position (\<lambda>n. n = ''Id'') available of
         Some index \<Rightarrow> select_at L reg available index (\<lambda>fs. Inr (fill_single_account a fs))
       | None \<Rightarrow> Inr t)
   | _ \<Rightarrow> Inr t)"

fun fill_asset_id :: "u32 \<Rightarrow> type_to_fill \<Rightarrow> type_to_fill" where
  "fill_asset_id aid (FillCompact (FillU32 _) SpecialtyNone) =
     FillCompact (FillU32 (Some aid)) SpecialtyNone"
| "fill_asset_id aid (FillUnsigned (FillU32 _) SpecialtyNone) =
     FillUnsigned (FillU32 (Some aid)) SpecialtyNone"
| "fill_asset_id aid t = t"

fun fill_balance :: "u128 \<Rightarrow> type_to_fill \<Rightarrow> type_to_fill" where
  "fill_balance amount (FillCompact (FillU128 _) SpecialtyBalance) =
     FillCompact (FillU128 (Some amount)) SpecialtyBalance"
| "fill_balance amount (FillUnsigned (FillU128 _) SpecialtyBalance) =
     FillUnsigned (FillU128 (Some amount)) SpecialtyBalance"
| "fill_balance amount t = t"

fun fill_keep_alive :: "type_to_fill \<Rightarrow> type_to_fill" where
  "fill_keep_alive (FillBool _) = FillBool (Some False)"
| "fill_keep_alive t = t"

fun fill_each ::
    "(string \<Rightarrow> type_to_fill \<Rightarrow> chain_error + type_to_fill) \<Rightarrow> fill_fields \<Rightarrow> chain_error + fill_fields"
where
  "fill_each f [] = Inr []"
| "fill_each f ((name, t) # fs) =
     and_then (case name of Some n \<Rightarrow> f n t | None \<Rightarrow> Inr t) (\<lambda>t'.
       and_then (fill_each f fs) (\<lambda>fs'. Inr ((name, t') # fs')))"

text \<open>
  The shape the three builders share: select the pallet, then, in its single field, the method,
  then work on the method's fields. Whatever is missing leaves the call as it is.
\<close>

definition fill_method ::
    "'r chain_lib \<Rightarrow> 'r \<Rightarrow> string \<Rightarrow> string \<Rightarrow> (fill_fields \<Rightarrow> chain_error + fill_fields)
      \<Rightarrow> type_to_fill \<Rightarrow> chain_error + type_to_fill" where
  "fill_method L reg pallet method fill form = (case form of
     FillVariant available_pallets _ _ \<Rightarrow>
       (case position (\<lambda>n. n = pallet) available_pallets of
          Some index_pallet \<Rightarrow> select_at L reg available_pallets index_pallet (\<lambda>fs. case fs of
              [(n, FillVariant available_methods i ms)] \<Rightarrow>
                (case position (\<lambda>m. m = method) available_methods of
                   Some index_method \<Rightarrow>
                     and_then (select_at L reg available_methods index_method fill)
                       (\<lambda>t. Inr [(n, t)])
                 | None \<Rightarrow> Inr fs)
            | _ \<Rightarrow> Inr fs)
        | None \<Rightarrow> Inr form)
   | _ \<Rightarrow> Inr form)"

definition construct_single_asset_transfer_call ::
    "'r chain_lib \<Rightarrow> 'r metadata \<Rightarrow> asset_transfer_constructor \<Rightarrow> chain_error + type_to_fill" where
  "construct_single_asset_transfer_call L m c =
     and_then (prepare_type L (call_ty m) (registry m))
       (fill_method L (registry m) ''Assets'' ''transfer''
         (fill_each (\<lambda>name t.
            if name = ''target'' then fill_address L (registry m) (at_to_account c) t
            else if name = ''id'' then Inr (fill_asset_id (at_asset_id c) t)
            else if name = ''amount'' then Inr (fill_balance (at_amount c) t)
            else Inr t)))"

definition construct_single_balance_transfer_call ::
    "'r chain_lib \<Rightarrow> 'r metadata \<Rightarrow> balance_transfer_constructor \<Rightarrow> chain_error + type_to_fill" where
  "construct_single_balance_transfer_call L m c =
     and_then (prepare_type L (call_ty m) (registry m))
       (fill_method L (registry m) ''Balances''
         (if bt_is_clearing c then ''transfer_all'' else ''transfer_keep_alive'')
         (fill_each (\<lambda>name t.
            if name = ''dest'' then fill_address L (registry m) (bt_to_account c) t
            else if name = ''keep_alive'' then Inr (fill_keep_alive t)
            else if name = ''value'' then Inr (fill_balance (bt_amount c) t)
            else Inr t)))"

definition construct_batch_call ::
    "'r chain_lib \<Rightarrow> 'r metadata \<Rightarrow> type_to_fill list \<Rightarrow> chain_error + type_to_fill" where
  "construct_batch_call L m call_set =
     and_then (prepare_type L (call_ty m) (registry m))
       (fill_method L (registry m) ''Utility'' ''batch_all''
         (\<lambda>fs. Inr (case fs of
             [(Some n, FillSequence _)] \<Rightarrow>
               if n = ''calls'' then [(Some n, FillSequence call_set)] else fs
           | _ \<Rightarrow> fs)))"

definition fill_author ::
    "'r chain_lib \<Rightarrow> 'r \<Rightarrow> account \<Rightarrow> type_to_fill \<Rightarrow> chain_error + type_to_fill" where
  "fill_author L reg a t = (case t of
     FillComposite fs \<Rightarrow> Inr (FillComposite (fill_single_account a fs))
   | FillAccount _ \<Rightarrow> Inr (FillAccount (Some a))
   | FillVariant _ _ _ \<Rightarrow> fill_address L reg a t
   | _ \<Rightarrow> Inr t)"

text \<open>The first extension that is an era, directly or as the only field of a composite.\<close>

fun set_era :: "type_to_fill list \<Rightarrow> type_to_fill list" where
  "set_era [] = []"
| "set_era (FillComposite [(n, FillEra e)] # exts) = FillComposite [(n, FillEra EraMortalDefault)] # exts"
| "set_era (FillEra e # exts) = FillEra EraMortalDefault # exts"
| "set_era (ext # exts) = ext # set_era exts"

definition construct_batch_transaction ::
    "'r chain_lib \<Rightarrow> 'r metadata \<Rightarrow> block_hash \<Rightarrow> account \<Rightarrow> type_to_fill list \<Rightarrow> block_hash \<Rightarrow> u32
      \<Rightarrow> u32 \<Rightarrow> chain_error + transaction_to_fill" where
  "construct_batch_transaction L m genesis_hash acc call_set block number nonce =
     (case (genesis_hash, block) of (BlockHash g, BlockHash b) \<Rightarrow>
       and_then (transaction_init L m g) (\<lambda>t.
       and_then (fill_author L (registry m) acc (author t)) (\<lambda>a.
       and_then (construct_batch_call L m call_set) (\<lambda>c.
         Inr (populate_nonce L nonce (populate_block_info L b number
           (t\<lparr>author := a, call := c, extensions := set_era (extensions t)\<rparr>)))))))"

section \<open>Storage queries\<close>

text \<open>\<open>finalize\<close> of a query that still misses a key is \<open>StorageQuery\<close>.\<close>

definition finalize_query ::
    "'r chain_lib \<Rightarrow> string \<Rightarrow> entry_selector \<Rightarrow> chain_error + finalized_query" where
  "finalize_query L pallet entry =
     and_then (query_finalize L pallet entry) (ok_or StorageQuery)"

definition block_number_query :: "'r chain_lib \<Rightarrow> 'r metadata \<Rightarrow> chain_error + finalized_query" where
  "block_number_query L m = and_then (selector_init L m) (\<lambda>sel. case sel of
     StorageEmpty \<Rightarrow> Inl NoStorage
   | StorageFunctional available_pallets _ _ \<Rightarrow>
       (case position (\<lambda>p. p = ''System'') available_pallets of
          None \<Rightarrow> Inl NoSystem
        | Some i \<Rightarrow> and_then (selector_new_at L available_pallets (registry m) i)
            (\<lambda>(_, pallet, entry). case entry of
               EntryEmpty \<Rightarrow> Inl NoStorageInSystem
             | EntryFunctional available_entries _ _ \<Rightarrow>
                 (case position (\<lambda>e. e = ''Number'') available_entries of
                    None \<Rightarrow> Inl NoBlockNumberDefinition
                  | Some j \<Rightarrow> and_then (entry_new_at L available_entries (registry m) j)
                      (\<lambda>(es, e, f). finalize_query L pallet (EntryFunctional es e f))))))"

text \<open>The balance queries: where the pallet, the entry or the map is missing the query stays the
  one it was.\<close>

definition fill_entry ::
    "'r chain_lib \<Rightarrow> 'r \<Rightarrow> (type_to_fill \<Rightarrow> type_to_fill) \<Rightarrow> entry_selector
      \<Rightarrow> chain_error + entry_selector" where
  "fill_entry L reg fill entry = (case entry of
     EntryEmpty \<Rightarrow> Inr entry
   | EntryFunctional available_entries _ _ \<Rightarrow>
       (case position (\<lambda>e. e = ''Account'') available_entries of
          None \<Rightarrow> Inr entry
        | Some j \<Rightarrow> and_then (entry_new_at L available_entries reg j) (\<lambda>(es, e, f). case f of
              EntryMap key \<Rightarrow> Inr (EntryFunctional es e (EntryMap (fill key)))
            | EntryPlain \<Rightarrow> Inr (EntryFunctional es e f))))"

definition account_query ::
    "'r chain_lib \<Rightarrow> 'r metadata \<Rightarrow> string \<Rightarrow> (type_to_fill \<Rightarrow> type_to_fill)
      \<Rightarrow> chain_error + finalized_query" where
  "account_query L m prefix fill = and_then (selector_init L m) (\<lambda>sel. case sel of
     StorageEmpty \<Rightarrow> Inl StorageQuery
   | StorageFunctional available_pallets pallet0 entry0 \<Rightarrow>
       (case position (\<lambda>p. p = prefix) available_pallets of
          None \<Rightarrow> finalize_query L pallet0 entry0
        | Some i \<Rightarrow> and_then (selector_new_at L available_pallets (registry m) i)
            (\<lambda>(_, pallet, entry). and_then (fill_entry L (registry m) fill entry)
               (finalize_query L pallet))))"

fun fill_asset_key_part :: "account \<Rightarrow> u32 \<Rightarrow> type_to_fill \<Rightarrow> type_to_fill" where
  "fill_asset_key_part a aid (FillAccount _) = FillAccount (Some a)"
| "fill_asset_key_part a aid (FillCompact (FillU32 _) s) = FillCompact (FillU32 (Some aid)) s"
| "fill_asset_key_part a aid (FillUnsigned (FillU32 _) s) = FillUnsigned (FillU32 (Some aid)) s"
| "fill_asset_key_part a aid t = t"

fun fill_asset_key :: "account \<Rightarrow> u32 \<Rightarrow> type_to_fill \<Rightarrow> type_to_fill" where
  "fill_asset_key a aid (FillTuple ts) = FillTuple (map (fill_asset_key_part a aid) ts)"
| "fill_asset_key a aid t = t"

fun fill_account_key :: "account \<Rightarrow> type_to_fill \<Rightarrow> type_to_fill" where
  "fill_account_key a (FillAccount _) = FillAccount (Some a)"
| "fill_account_key a t = t"

definition asset_balance_query ::
    "'r chain_lib \<Rightarrow> 'r metadata \<Rightarrow> account \<Rightarrow> u32 \<Rightarrow> chain_error + finalized_query" where
  "asset_balance_query L m a aid = account_query L m ''Assets'' (fill_asset_key a aid)"

definition system_balance_query ::
    "'r chain_lib \<Rightarrow> 'r metadata \<Rightarrow> account \<Rightarrow> chain_error + finalized_query" where
  "system_balance_query L m a = account_query L m ''System'' (fill_account_key a)"

end
