(* ===== verification/Chain_Rpc.thy ===== *)
theory Chain_Rpc
  imports Chain_Calls
begin

text \<open>
  The operations of \<open>src/chain/rpc.rs\<close> that call the node. The WebSocket client and the node
  behind it are the record \<open>client\<close>; \<open>'w\<close> is the state of the outside world that every call may
  change, so two requests need not agree. All results are computed from what the node answers.
\<close>

section \<open>The client\<close>

record 'w client =
  request :: "string \<Rightarrow> json list \<Rightarrow> ('w, foreign_error, json) call"
  subscribe_heads :: "('w, foreign_error, unit) call"
  next_head :: "'w \<Rightarrow> (foreign_error + string) option \<times> 'w"

definition ask :: "'w client \<Rightarrow> string \<Rightarrow> json list \<Rightarrow> ('w, chain_error, json) call" where
  "ask C name params = call_map_err Client (request C name params)"

definition runtime_version_identifier ::
    "'r chain_lib \<Rightarrow> 'w client \<Rightarrow> block_hash \<Rightarrow> ('w, chain_error, json) call" where
  "runtime_version_identifier L C block =
     ask C ''state_getRuntimeVersion'' [JString (block_hash_to_string L block)]"

definition subscribe_blocks :: "'w client \<Rightarrow> ('w, chain_error, unit) call" where
  "subscribe_blocks C = call_map_err Client (subscribe_heads C)"

definition get_value_from_storage ::
    "'r chain_lib \<Rightarrow> 'w client \<Rightarrow> string \<Rightarrow> block_hash \<Rightarrow> ('w, chain_error, json) call" where
  "get_value_from_storage L C whole_key block =
     ask C ''state_getStorage'' [JString whole_key, JString (block_hash_to_string L block)]"

section \<open>Paging through the keys\<close>

definition MAX_KEY_PAGES :: nat where
  "MAX_KEY_PAGES = 256"

text \<open>The page is requested with the start key, if there is one yet, and then the block; any answer
  that is not a non-empty page ending in a string ends the scan with what was collected.\<close>

fun key_pages ::
    "'w client \<Rightarrow> nat \<Rightarrow> json list \<Rightarrow> json \<Rightarrow> string option \<Rightarrow> json list \<Rightarrow> 'w \<Rightarrow> json list \<times> 'w" where
  "key_pages C 0 params_template block start_key keys_vec w = (keys_vec, w)"
| "key_pages C (Suc n) params_template block start_key keys_vec w =
     (let params = params_template @ (case start_key of Some k \<Rightarrow> [JString k] | None \<Rightarrow> []) @ [block]
      in case request C ''state_getKeysPaged'' params w of
        (Inl _, w') \<Rightarrow> (keys_vec, w')
      | (Inr keys, w') \<Rightarrow> (case keys of
          JArray keys_inside \<Rightarrow>
            if keys_inside = [] then (keys_vec, w')
            else (case last keys_inside of
              JString key_string \<Rightarrow>
                key_pages C n params_template block (Some key_string) (keys_vec @ [keys]) w'
            | _ \<Rightarrow> (keys_vec, w'))
        | _ \<Rightarrow> (keys_vec, w')))"

definition get_keys_from_storage ::
    "'r chain_lib \<Rightarrow> 'w client \<Rightarrow> string \<Rightarrow> string \<Rightarrow> block_hash \<Rightarrow> 'w \<Rightarrow> json list \<times> 'w" where
  "get_keys_from_storage L C prefix storage_name block =
     key_pages C MAX_KEY_PAGES [JString (storage_key L prefix storage_name), JNumber (PosInt 10)]
       (JString (block_hash_to_string L block)) None []"

section \<open>Hashes, metadata, specs\<close>

definition genesis_hash :: "'r chain_lib \<Rightarrow> 'w client \<Rightarrow> ('w, chain_error, block_hash) call" where
  "genesis_hash L C = call_then (ask C ''chain_getBlockHash'' [JNumber (PosInt 0)])
     (\<lambda>v. case v of JString x \<Rightarrow> call_of (block_hash_from_str L x) | _ \<Rightarrow> call_err GenesisHashFormat)"

definition block_hash_at ::
    "'r chain_lib \<Rightarrow> 'w client \<Rightarrow> string option \<Rightarrow> ('w, chain_error, block_hash) call" where
  "block_hash_at L C number = call_then
     (ask C ''chain_getBlockHash'' (case number of Some a \<Rightarrow> [JString a] | None \<Rightarrow> []))
     (\<lambda>v. case v of JString x \<Rightarrow> call_of (block_hash_from_str L x) | _ \<Rightarrow> call_err BlockHashFormat)"

definition metadata_at ::
    "'r chain_lib \<Rightarrow> 'w client \<Rightarrow> block_hash \<Rightarrow> ('w, chain_error, 'r metadata) call" where
  "metadata_at L C block = call_then
     (ask C ''state_call'' [JString ''Metadata_metadata_at_version'', JString ''0x0f000000'',
        JString (block_hash_to_string L block)])
     (\<lambda>v. case v of
        JString x \<Rightarrow> call_of (
          and_then (map_err Util (unhex L x HexMetadata)) (\<lambda>raw.
          and_then (map_err (\<lambda>_. RawMetadataNotDecodeable) (decode_option_bytes L raw)) (\<lambda>maybe.
            case maybe of
              Some b \<Rightarrow>
                if take 4 b = bytes_of ''meta'' then
                  (case decode_metadata L (drop 4 b) of
                     Inr (V15 m) \<Rightarrow> Inr m
                   | Inr OtherVersion \<Rightarrow> Inl NoMetadataV15
                   | Inl _ \<Rightarrow> Inl MetadataNotDecodeable)
                else Inl NoMetaPrefix
            | None \<Rightarrow> Inl NoMetadataV15)))
      | _ \<Rightarrow> call_err MetadataFormat)"

definition specs_at ::
    "'r chain_lib \<Rightarrow> 'w client \<Rightarrow> 'r metadata \<Rightarrow> block_hash \<Rightarrow> ('w, chain_error, short_specs) call" where
  "specs_at L C m block = call_then
     (ask C ''system_properties'' [JString (block_hash_to_string L block)])
     (\<lambda>v. case v of
        JObject props \<Rightarrow> call_of (system_properties_to_short_specs L props m)
      | _ \<Rightarrow> call_err PropertiesFormat)"

definition next_block_number :: "'w client \<Rightarrow> ('w, chain_error, string) call" where
  "next_block_number C w = (case next_head C w of
     (Some (Inr a), w') \<Rightarrow> (Inr a, w')
   | (Some (Inl e), w') \<Rightarrow> (Inl (Serde e), w')
   | (None, w') \<Rightarrow> (Inl BlockSubscriptionTerminated, w'))"

definition next_block :: "'r chain_lib \<Rightarrow> 'w client \<Rightarrow> ('w, chain_error, block_hash) call" where
  "next_block L C = call_then (next_block_number C) (\<lambda>n. block_hash_at L C (Some n))"

section \<open>The assets of a chain\<close>

text \<open>A \<open>HashMap\<close> from currency names, kept as an association list with one entry per name.\<close>

type_synonym currency_map = "(string \<times> currency_properties) list"

text \<open>The last \<open>Asset\<close> and \<open>Metadata\<close> entries before both are known.\<close>

fun assets_entries ::
    "storage_entry list \<Rightarrow> storage_entry option \<Rightarrow> storage_entry option
      \<Rightarrow> storage_entry option \<times> storage_entry option" where
  "assets_entries [] a m = (a, m)"
| "assets_entries (e # es) a m =
     (let a' = (if entry_name e = ''Asset'' then Some e else a);
          m' = (if entry_name e = ''Metadata'' then Some e else m)
      in if a' \<noteq> None \<and> m' \<noteq> None then (a', m') else assets_entries es a' m')"

fun asset_id_of_key :: "key_data \<Rightarrow> chain_error + u32" where
  "asset_id_of_key (SingleHash (KeyParsed (PrimitiveU32 v))) = Inr v"
| "asset_id_of_key (SingleHash (KeyParsed _)) = Inl AssetIdFormat"
| "asset_id_of_key (SingleHash (KeyHash _)) = Inl AssetKeyEmpty"
| "asset_id_of_key KeyOther = Inl AssetKeyNotSingleHash"

fun is_sufficient :: "field_data list \<Rightarrow> bool" where
  "is_sufficient [] = False"
| "is_sufficient ((name, data) # fs) =
     (if name = Some ''is_sufficient'' then (case data of PrimitiveBool b \<Rightarrow> b | _ \<Rightarrow> False)
      else is_sufficient fs)"

definition verified_sufficient :: "parsed_data \<Rightarrow> bool" where
  "verified_sufficient v = (case v of Composite fs \<Rightarrow> is_sufficient fs | _ \<Rightarrow> False)"

text \<open>A text in one of the shapes metadata uses: text, bytes, or a composite of one such.\<close>

definition plain_text :: "'r chain_lib \<Rightarrow> parsed_data \<Rightarrow> string option" where
  "plain_text L v = (case v of
     ParsedText t \<Rightarrow> Some t | SequenceU8 b \<Rightarrow> from_utf8 L b | _ \<Rightarrow> None)"

definition text_of :: "'r chain_lib \<Rightarrow> parsed_data \<Rightarrow> string option" where
  "text_of L v = (case v of Composite [f] \<Rightarrow> plain_text L (snd f) | _ \<Rightarrow> plain_text L v)"

fun asset_metadata_fields ::
    "'r chain_lib \<Rightarrow> field_data list \<Rightarrow> string option \<times> string option \<times> u8 option
      \<Rightarrow> string option \<times> string option \<times> u8 option" where
  "asset_metadata_fields L [] found = found"
| "asset_metadata_fields L ((field_name, data) # fs) (name, symbol, dec) =
     (let name' = (if field_name = Some ''name'' \<and> text_of L data \<noteq> None
            then text_of L data else name);
          symbol' = (if field_name = Some ''symbol'' \<and> text_of L data \<noteq> None
            then text_of L data else symbol);
          dec' = (case data of PrimitiveU8 v \<Rightarrow>
              if field_name = Some ''decimals'' then Some v else dec | _ \<Rightarrow> dec)
      in if name' \<noteq> None \<and> symbol' \<noteq> None \<and> dec' \<noteq> None then (name', symbol', dec')
         else asset_metadata_fields L fs (name', symbol', dec'))"

definition asset_currency ::
    "string \<Rightarrow> string \<Rightarrow> u16 \<Rightarrow> u32 \<Rightarrow> u8 \<Rightarrow> currency_properties" where
  "asset_currency chain rpc_url prefix aid dec = \<lparr>cp_chain_name = chain, cp_kind = Asset,
     cp_decimals = dec, cp_rpc_url = rpc_url, cp_asset_id = Some aid, cp_ss58 = prefix\<rparr>"

text \<open>What the metadata entry says of one sufficient asset: its symbol and decimals, if both are
  given.\<close>

definition asset_metadata ::
    "'r chain_lib \<Rightarrow> 'w client \<Rightarrow> block_hash \<Rightarrow> 'r metadata \<Rightarrow> storage_entry \<Rightarrow> u32
      \<Rightarrow> ('w, chain_error, (string \<times> u8) option) call" where
  "asset_metadata L C block m metadata_entry aid =
     (case entry_ty metadata_entry of
        Plain _ \<Rightarrow> call_err AssetMetadataPlain
      | Map hashers key_ty value_ty \<Rightarrow>
          if length hashers = 1 then
            call_then (call_of (map_err RegistryError (resolve_ty L (registry m) key_ty))) (\<lambda>td.
              case td of
                TypeOther \<Rightarrow> call_err AssetMetadataType
              | TypeU32 \<Rightarrow>
                  call_then (get_value_from_storage L C
                    (storage_key L ''Assets'' ''Metadata'' @
                     hex_encode L (hashed_key_element L (encode_u32 L aid) (hashers ! 0))) block)
                  (\<lambda>value_fetch. case value_fetch of
                     JString string_value \<Rightarrow> call_of (
                       and_then (map_err Util (unhex L string_value HexStorageValue)) (\<lambda>value_data.
                       and_then (map_err ParserError
                           (decode_all_as_type L value_ty value_data (registry m))) (\<lambda>value.
                         case value of
                           Composite fs \<Rightarrow>
                             (case asset_metadata_fields L fs (None, None, None) of
                                (_, Some symbol, Some dec) \<Rightarrow> Inr (Some (symbol, dec))
                              | _ \<Rightarrow> Inr None)
                         | _ \<Rightarrow> Inl AssetMetadataUnexpected)))
                   | _ \<Rightarrow> call_ok None))
          else call_err AssetMetadataMapSize)"

text \<open>One key of the \<open>Assets.Asset\<close> map: a sufficient asset enters the set under its symbol.\<close>

definition asset_at_key ::
    "'r chain_lib \<Rightarrow> 'w client \<Rightarrow> block_hash \<Rightarrow> 'r metadata \<Rightarrow> storage_entry \<Rightarrow> storage_entry
      \<Rightarrow> (u32 \<Rightarrow> u8 \<Rightarrow> currency_properties) \<Rightarrow> string \<Rightarrow> currency_map
      \<Rightarrow> ('w, chain_error, currency_map) call" where
  "asset_at_key L C block m asset_entry metadata_entry mk string_key assets_set =
     call_then (get_value_from_storage L C string_key block) (\<lambda>value_fetch. case value_fetch of
       JString string_value \<Rightarrow>
         call_then (call_of (
           and_then (map_err Util (unhex L string_key HexStorageKey)) (\<lambda>key_data.
           and_then (map_err Util (unhex L string_value HexStorageValue)) (\<lambda>value_data.
           and_then (map_err StorageDecodeError
               (decode_as_storage_entry L key_data value_data asset_entry (registry m)))
             (\<lambda>(key, value). and_then (asset_id_of_key key) (\<lambda>aid. Inr (aid, value)))))))
         (\<lambda>(aid, value).
           if verified_sufficient value then
             call_then (asset_metadata L C block m metadata_entry aid) (\<lambda>found. case found of
                 Some (symbol, dec) \<Rightarrow> call_ok (AList.update symbol (mk aid dec) assets_set)
               | None \<Rightarrow> call_ok assets_set)
           else call_ok assets_set)
     | _ \<Rightarrow> call_ok assets_set)"

fun assets_at_keys ::
    "(string \<Rightarrow> currency_map \<Rightarrow> ('w, chain_error, currency_map) call) \<Rightarrow> json list \<Rightarrow> currency_map
      \<Rightarrow> ('w, chain_error, currency_map) call" where
  "assets_at_keys step [] assets_set = call_ok assets_set"
| "assets_at_keys step (JString key # keys) assets_set =
     call_then (step key assets_set) (assets_at_keys step keys)"
| "assets_at_keys step (_ # keys) assets_set = assets_at_keys step keys assets_set"

fun assets_at_pages ::
    "(string \<Rightarrow> currency_map \<Rightarrow> ('w, chain_error, currency_map) call) \<Rightarrow> json list \<Rightarrow> currency_map
      \<Rightarrow> ('w, chain_error, currency_map) call" where
  "assets_at_pages step [] assets_set = call_ok assets_set"
| "assets_at_pages step (JArray keys # pages) assets_set =
     call_then (assets_at_keys step keys assets_set) (assets_at_pages step pages)"
| "assets_at_pages step (_ # pages) assets_set = assets_at_pages step pages assets_set"

definition assets_set_at_block ::
    "'r chain_lib \<Rightarrow> 'w client \<Rightarrow> block_hash \<Rightarrow> 'r metadata \<Rightarrow> string \<Rightarrow> short_specs
      \<Rightarrow> ('w, chain_error, currency_map) call" where
  "assets_set_at_block L C block m rpc_url specs =
     call_then (call_of (map_err MetaVersionErrorPallets (spec_name L m))) (\<lambda>chain.
       let native = [(specs_unit specs, \<lparr>cp_chain_name = chain, cp_kind = Native,
             cp_decimals = specs_decimals specs, cp_rpc_url = rpc_url, cp_asset_id = None,
             cp_ss58 = specs_base58prefix specs\<rparr>)]
       in case first_storage ''Assets'' (pallets m) of
            Some s \<Rightarrow> (case assets_entries (entries s) None None of
                (Some asset_entry, Some metadata_entry) \<Rightarrow> (\<lambda>w.
                  case get_keys_from_storage L C ''Assets'' ''Asset'' block w of
                    (pages, w') \<Rightarrow>
                      assets_at_pages (asset_at_key L C block m asset_entry metadata_entry
                        (asset_currency chain rpc_url (specs_base58prefix specs))) pages native w')
              | _ \<Rightarrow> call_ok native)
          | None \<Rightarrow> call_ok native)"

section \<open>Balances\<close>

text \<open>The first field that is a balance, whatever its name.\<close>

fun first_balance :: "field_data list \<Rightarrow> balance option" where
  "first_balance [] = None"
| "first_balance ((_, PrimitiveU128 v SpecialtyBalance) # fs) = Some (Balance v)"
| "first_balance (_ # fs) = first_balance fs"

definition asset_balance_at_account ::
    "'r chain_lib \<Rightarrow> 'w client \<Rightarrow> block_hash \<Rightarrow> 'r metadata \<Rightarrow> account \<Rightarrow> u32
      \<Rightarrow> ('w, chain_error, balance) call" where
  "asset_balance_at_account L C block m a aid =
     call_then (call_of (asset_balance_query L m a aid)) (\<lambda>query.
     call_then (get_value_from_storage L C (query_key query) block) (\<lambda>value_fetch.
       case value_fetch of
         JString string_value \<Rightarrow> call_of (
           and_then (map_err Util (unhex L string_value HexStorageValue)) (\<lambda>value_data.
           and_then (map_err ParserError
               (decode_all_as_type L (query_value_ty query) value_data (registry m))) (\<lambda>value.
             case value of
               Composite fs \<Rightarrow> ok_or AssetBalanceNotFound (first_balance fs)
             | _ \<Rightarrow> Inl AssetBalanceFormat)))
       | _ \<Rightarrow> call_err (StorageValueFormat value_fetch)))"

text \<open>The first balance called \<open>free\<close> inside a composite called \<open>data\<close>.\<close>

fun free_balance :: "field_data list \<Rightarrow> balance option" where
  "free_balance [] = None"
| "free_balance ((name, PrimitiveU128 v SpecialtyBalance) # fs) =
     (if name = Some ''free'' then Some (Balance v) else free_balance fs)"
| "free_balance (_ # fs) = free_balance fs"

fun data_balance :: "field_data list \<Rightarrow> balance option" where
  "data_balance [] = None"
| "data_balance ((name, Composite inner) # fs) =
     (if name = Some ''data'' then
        (case free_balance inner of Some b \<Rightarrow> Some b | None \<Rightarrow> data_balance fs)
      else data_balance fs)"
| "data_balance (_ # fs) = data_balance fs"

definition system_balance_at_account ::
    "'r chain_lib \<Rightarrow> 'w client \<Rightarrow> block_hash \<Rightarrow> 'r metadata \<Rightarrow> account
      \<Rightarrow> ('w, chain_error, balance) call" where
  "system_balance_at_account L C block m a =
     call_then (call_of (system_balance_query L m a)) (\<lambda>query.
     call_then (get_value_from_storage L C (query_key query) block) (\<lambda>value_fetch.
       case value_fetch of
         JString string_value \<Rightarrow> call_of (
           and_then (map_err Util (unhex L string_value HexStorageValue)) (\<lambda>value_data.
           and_then (map_err ParserError
               (decode_all_as_type L (query_value_ty query) value_data (registry m))) (\<lambda>value.
             case value of
               Composite fs \<Rightarrow> ok_or BalanceNotFound (data_balance fs)
             | _ \<Rightarrow> Inl BalanceNotFound)))
       | _ \<Rightarrow> call_err BalanceNotFound))"

section \<open>Events\<close>

datatype event_filter = EventFilter (filter_pallet: string) (filter_variant: "string option")

fun passes :: "event_filter option \<Rightarrow> event \<Rightarrow> bool" where
  "passes (Some (EventFilter pallet (Some variant))) (p, v, _) = (p = pallet \<and> v = variant)"
| "passes (Some (EventFilter pallet None)) (p, v, _) = (p = pallet)"
| "passes None _ = True"

text \<open>The events inside the fields of one record, and inside the decoded sequence of records.\<close>

fun record_events :: "event_filter option \<Rightarrow> field_data list \<Rightarrow> event list" where
  "record_events flt [] = []"
| "record_events flt ((name, ParsedEvent p v fs) # rest) =
     (if name = Some ''event'' \<and> passes flt (p, v, fs) then (p, v, fs) # record_events flt rest
      else record_events flt rest)"
| "record_events flt (_ # rest) = record_events flt rest"

fun sequence_events :: "event_filter option \<Rightarrow> parsed_data list \<Rightarrow> event list" where
  "sequence_events flt [] = []"
| "sequence_events flt (Composite fs # rest) = record_events flt fs @ sequence_events flt rest"
| "sequence_events flt (_ # rest) = sequence_events flt rest"

text \<open>
  A decoding failure is \<open>expect\<close>ed away by the source and panics; \<open>EventsPanic\<close> stands for it.
\<close>

datatype events_outcome = EventsErr chain_error | EventsPanic

fun events_at_keys ::
    "'r chain_lib \<Rightarrow> 'w client \<Rightarrow> block_hash \<Rightarrow> event_filter option \<Rightarrow> storage_entry \<Rightarrow> 'r
      \<Rightarrow> json list \<Rightarrow> ('w, events_outcome, event list) call" where
  "events_at_keys L C block flt entry reg [] = call_ok []"
| "events_at_keys L C block flt entry reg (JString key # keys) =
     call_then (call_map_err EventsErr (get_value_from_storage L C key block)) (\<lambda>data.
     call_then (call_of (map_err (\<lambda>e. EventsErr (Util e)) (unhex L key HexStorageValue))) (\<lambda>key_bytes.
     call_then (case data of
         JString s \<Rightarrow> call_of (map_err (\<lambda>e. EventsErr (Util e)) (unhex L s HexStorageValue))
       | _ \<Rightarrow> call_err (EventsErr (StorageValueFormat data))) (\<lambda>value_bytes.
     call_then (call_of (map_err (\<lambda>_. EventsPanic)
         (decode_as_storage_entry L key_bytes value_bytes entry reg))) (\<lambda>(_, value).
     call_then (events_at_keys L C block flt entry reg keys) (\<lambda>out.
       call_ok ((case value of SequenceRaw es \<Rightarrow> sequence_events flt es | _ \<Rightarrow> []) @ out))))))"
| "events_at_keys L C block flt entry reg (_ # keys) = events_at_keys L C block flt entry reg keys"

fun events_at_pages ::
    "'r chain_lib \<Rightarrow> 'w client \<Rightarrow> block_hash \<Rightarrow> event_filter option \<Rightarrow> storage_entry \<Rightarrow> 'r
      \<Rightarrow> json list \<Rightarrow> ('w, events_outcome, event list) call" where
  "events_at_pages L C block flt entry reg [] = call_ok []"
| "events_at_pages L C block flt entry reg (JArray keys # pages) =
     call_then (events_at_keys L C block flt entry reg keys) (\<lambda>es.
     call_then (events_at_pages L C block flt entry reg pages) (\<lambda>out. call_ok (es @ out)))"
| "events_at_pages L C block flt entry reg (_ # pages) = events_at_pages L C block flt entry reg pages"

definition events_at_block ::
    "'r chain_lib \<Rightarrow> 'w client \<Rightarrow> block_hash \<Rightarrow> event_filter option \<Rightarrow> storage_entry \<Rightarrow> 'r
      \<Rightarrow> ('w, events_outcome, event list) call" where
  "events_at_block L C block flt entry reg = (\<lambda>w.
     case get_keys_from_storage L C ''System'' ''Events'' block w of
       (pages, w') \<Rightarrow> events_at_pages L C block flt entry reg pages w')"

definition BALANCES :: string where
  "BALANCES = ''Balances''"

definition TRANSFER :: string where
  "TRANSFER = ''Transfer''"

definition transfer_events ::
    "'r chain_lib \<Rightarrow> 'w client \<Rightarrow> block_hash \<Rightarrow> 'r metadata \<Rightarrow> ('w, events_outcome, event list) call" where
  "transfer_events L C block m =
     call_then (call_of (map_err EventsErr (events_entry_metadata m))) (\<lambda>entry.
       events_at_block L C block (Some (EventFilter BALANCES (Some TRANSFER))) entry (registry m))"

section \<open>Block number and submission\<close>

definition current_block_number ::
    "'r chain_lib \<Rightarrow> 'w client \<Rightarrow> 'r metadata \<Rightarrow> block_hash \<Rightarrow> ('w, chain_error, u32) call" where
  "current_block_number L C m block =
     call_then (call_of (block_number_query L m)) (\<lambda>query.
     call_then (get_value_from_storage L C (query_key query) block) (\<lambda>fetched_value.
       case fetched_value of
         JString hex_data \<Rightarrow> call_of (
           and_then (map_err Util (unhex L hex_data HexStorageValue)) (\<lambda>value_data.
           and_then (map_err ParserError
               (decode_all_as_type L (query_value_ty query) value_data (registry m))) (\<lambda>value.
             case value of PrimitiveU32 v \<Rightarrow> Inr v | _ \<Rightarrow> Inl BlockNumberFormat)))
       | _ \<Rightarrow> call_err (StorageValueFormat fetched_value)))"

text \<open>\<open>get_nonce\<close> prints the nonce and drops it.\<close>

definition get_nonce :: "'w client \<Rightarrow> string \<Rightarrow> ('w, foreign_error, unit) call" where
  "get_nonce C account_id =
     call_then (request C ''account_nextIndex'' [JString account_id]) (\<lambda>nonce. call_ok ())"

definition send_stuff :: "'w client \<Rightarrow> string \<Rightarrow> ('w, chain_error, json) call" where
  "send_stuff C data = ask C ''author_submitAndWatchExtrinsic'' [JString data]"

section \<open>Lemmas\<close>

lemma record_events_pass: "ev \<in> set (record_events flt fs) \<Longrightarrow> passes flt ev"
  by (induction flt fs rule: record_events.induct) (auto split: if_splits)

lemma sequence_events_pass: "ev \<in> set (sequence_events flt xs) \<Longrightarrow> passes flt ev"
  by (induction flt xs rule: sequence_events.induct) (auto dest: record_events_pass)

lemma events_at_keys_pass:
  "events_at_keys L C block flt entry reg keys w = (Inr out, w') \<Longrightarrow> ev \<in> set out \<Longrightarrow> passes flt ev"
proof (induction L C block flt entry reg keys arbitrary: w out w' rule: events_at_keys.induct)
  case (2 L C block flt entry reg key keys)
  from 2(2) obtain val out' w1 w2 where rest: "events_at_keys L C block flt entry reg keys w1 = (Inr out', w2)"
      and out: "out = (case val of SequenceRaw es \<Rightarrow> sequence_events flt es | _ \<Rightarrow> []) @ out'"
    by (fastforce elim!: call_then_InrE simp: call_of_def call_ok_def)
  from 2(3) out show ?case
    using 2(1) [OF rest] sequence_events_pass [of ev flt]
    by (auto split: parsed_data.splits)
qed auto

lemma events_at_pages_pass:
  "events_at_pages L C block flt entry reg pages w = (Inr out, w') \<Longrightarrow> ev \<in> set out \<Longrightarrow> passes flt ev"
proof (induction L C block flt entry reg pages arbitrary: w out w' rule: events_at_pages.induct)
  case (2 L C block flt entry reg keys pages)
  then show ?case
    by (fastforce elim!: call_then_InrE simp: call_ok_def dest: events_at_keys_pass)
qed auto

lemma transfer_events_pass:
  assumes "transfer_events L C block m w = (Inr out, w')" and "(p, v, fs) \<in> set out"
  shows "p = BALANCES \<and> v = TRANSFER"
proof -
  from assms(1) obtain entry pages w1 where
      "events_at_pages L C block (Some (EventFilter BALANCES (Some TRANSFER))) entry (registry m)
        pages w1 = (Inr out, w')"
    by (auto simp: transfer_events_def events_at_block_def call_of_def elim!: call_then_InrE
        split: prod.splits)
  from events_at_pages_pass [OF this assms(2)] show ?thesis by simp
qed

lemma key_pages_bound:
  "key_pages C n T b k acc w = (pages, w') \<Longrightarrow>
     length pages \<le> length acc + n \<and> (\<exists>more. pages = acc @ more \<and>
       (\<forall>p \<in> set more. \<exists>keys. p = JArray keys \<and> keys \<noteq> []))"
proof (induction C n T b k acc w arbitrary: pages w' rule: key_pages.induct)
  case (2 C n T b k acc w)
  obtain r w1 where r: "request C ''state_getKeysPaged''
      (T @ (case k of Some k \<Rightarrow> [JString k] | None \<Rightarrow> []) @ [b]) w = (r, w1)"
    by fastforce
  show ?case
  proof (cases "\<exists>keys s. r = Inr (JArray keys) \<and> keys \<noteq> [] \<and> last keys = JString s")
    case True
    then obtain keys s where ks: "r = Inr (JArray keys)" "keys \<noteq> []" "last keys = JString s" by blast
    from 2(2) have "key_pages C n T b (Some s) (acc @ [JArray keys]) w1 = (pages, w')"
      by (simp add: Let_def r ks)
    from 2(1) [OF refl r [symmetric] ks(1) refl ks(2,3) this] ks(2) show ?thesis by auto
  next
    case False
    with 2(2) have "pages = acc"
      by (auto simp: Let_def r split: sum.splits json.splits if_splits)
    then show ?thesis by simp
  qed
qed simp

end
