(* ===== verification/Tracker.thy ===== *)
theory Tracker
  imports Chain_Rpc
begin

text \<open>
  The watcher of one chain: the invoices of \<open>src/chain/definitions.rs\<close> and the task of
  \<open>src/chain/tracker.rs\<close> that connects to an endpoint, checks that it serves the configured chain
  and currencies, and decides for every finalized block which watched accounts have been paid.
  What the task tells the rest of the daemon is collected in a list of outputs.
\<close>

section \<open>Accounts under watch\<close>

record invoice =
  inv_id :: string
  inv_address :: account
  inv_currency :: string
  inv_amount :: balance
  inv_recipient :: account
  inv_death :: timestamp

text \<open>A \<open>WatchAccount\<close> is an invoice with a channel for the acknowledgement.\<close>

datatype watch_account = WatchAccount (watch_invoice: invoice)

definition watch_account_new ::
    "('p, 'g, 'w) crypto_env \<Rightarrow> string \<Rightarrow> order_info \<Rightarrow> account \<Rightarrow> chain_error + watch_account" where
  "watch_account_new Cr oid order recipient =
     and_then (map_err InvoiceAccount (account_from_base58 Cr (payment_account order)))
       (\<lambda>(address, _). Inr (WatchAccount \<lparr>inv_id = oid, inv_address = address,
          inv_currency = ci_currency (order_currency order),
          inv_amount = balance_parse (order_amount order) (ci_decimals (order_currency order)),
          inv_recipient = recipient, inv_death = order_death order\<rparr>))"

record 'r chain_watcher =
  w_genesis_hash :: block_hash
  w_metadata :: "'r metadata"
  w_specs :: short_specs
  w_assets :: currency_map
  w_version :: json

definition invoice_balance ::
    "'r chain_lib \<Rightarrow> 'w client \<Rightarrow> 'r chain_watcher \<Rightarrow> block_hash \<Rightarrow> invoice
      \<Rightarrow> ('w, chain_error, balance) call" where
  "invoice_balance L C watcher block i =
     call_then (call_of (ok_or (InvalidCurrency (inv_currency i))
         (map_of (w_assets watcher) (inv_currency i)))) (\<lambda>currency.
       case cp_asset_id currency of
         Some aid \<Rightarrow> asset_balance_at_account L C block (w_metadata watcher) (inv_address i) aid
       | None \<Rightarrow> system_balance_at_account L C block (w_metadata watcher) (inv_address i))"

definition invoice_check ::
    "'r chain_lib \<Rightarrow> 'w client \<Rightarrow> 'r chain_watcher \<Rightarrow> block_hash \<Rightarrow> invoice
      \<Rightarrow> ('w, chain_error, bool) call" where
  "invoice_check L C watcher block i =
     call_then (invoice_balance L C watcher block i) (\<lambda>b. call_ok (inv_amount i \<le> b))"

text \<open>The \<open>HashMap\<close> of watched accounts, with one entry per order id.\<close>

type_synonym watched = "(string \<times> invoice) list"

datatype tracker_output =
    ConnectChain currency_map
  | OrderPaid string
  | Watching string
  | SpawnPayout string invoice

section \<open>Preparing a connection\<close>

definition wanted :: "chain_config \<Rightarrow> short_specs \<Rightarrow> string \<times> currency_properties \<Rightarrow> bool" where
  "wanted chain specs np = (case native_token chain of
     Some t \<Rightarrow> native_name t = fst np \<and> native_decimals t = specs_decimals specs
   | None \<Rightarrow> (\<exists>a \<in> set (assets chain).
       asset_name a = fst np \<and> Some (asset_id a) = cp_asset_id (snd np)))"

fun check_watched ::
    "'r chain_lib \<Rightarrow> 'w client \<Rightarrow> 'r chain_watcher \<Rightarrow> block_hash \<Rightarrow> watched \<Rightarrow> 'w
      \<Rightarrow> string list \<times> 'w" where
  "check_watched L C watcher block [] w = ([], w)"
| "check_watched L C watcher block ((oid, i) # ws) w =
     (case invoice_check L C watcher block i w of (r, w1) \<Rightarrow>
       (case check_watched L C watcher block ws w1 of (paid, w2) \<Rightarrow>
         (case r of Inr True \<Rightarrow> (oid # paid, w2) | _ \<Rightarrow> (paid, w2))))"

text \<open>\<open>for id in id_remove_list { watched_accounts.remove(&id) }\<close>\<close>

definition remove_ids :: "string list \<Rightarrow> watched \<Rightarrow> watched" where
  "remove_ids ids ws = filter (\<lambda>(oid, _). oid \<notin> set ids) ws"

definition prepare_chain ::
    "'r chain_lib \<Rightarrow> 'w client \<Rightarrow> chain_config \<Rightarrow> watched \<Rightarrow> string
      \<Rightarrow> ('w, chain_error, 'r chain_watcher \<times> tracker_output list \<times> watched) call" where
  "prepare_chain L C chain ws rpc_url =
     call_then (genesis_hash L C) (\<lambda>genesis.
     call_then (subscribe_blocks C) (\<lambda>_.
     call_then (next_block L C) (\<lambda>block.
     call_then (runtime_version_identifier L C block) (\<lambda>ver.
     call_then (metadata_at L C block) (\<lambda>m.
     call_then (call_of (map_err MetaVersionErrorPallets (spec_name L m))) (\<lambda>name.
     if name \<noteq> chain_name chain then call_err (WrongNetwork (chain_name chain) name rpc_url)
     else
     call_then (specs_at L C m block) (\<lambda>specs.
     call_then (assets_set_at_block L C block m rpc_url specs) (\<lambda>all_assets.
       let kept = filter (wanted chain specs) all_assets in
       if length kept \<noteq> length (assets chain) + (if native_token chain \<noteq> None then 1 else 0)
       then call_err (AssetsInvalid (chain_name chain))
       else
         let watcher = \<lparr>w_genesis_hash = genesis, w_metadata = m, w_specs = specs,
               w_assets = kept, w_version = ver\<rparr>
         in (\<lambda>w. case check_watched L C watcher block ws w of (paid, w') \<Rightarrow>
              (Inr (watcher, ConnectChain kept # map OrderPaid paid, remove_ids paid ws), w'))))))))))"

section \<open>A finalized block\<close>

text \<open>How the request loop goes on after a block: next request, next endpoint, the end of the task with
  an error, or a panic.\<close>

datatype block_outcome = GoOn | SwitchServer | TaskError chain_error | TaskPanic

text \<open>Which outputs and which removals one account causes.\<close>

definition scan_account ::
    "'r chain_lib \<Rightarrow> 'w client \<Rightarrow> 'r chain_watcher \<Rightarrow> block_hash \<Rightarrow> u64 \<Rightarrow> event list
      \<Rightarrow> string \<Rightarrow> invoice \<Rightarrow> 'w \<Rightarrow> string list \<times> string list \<times> 'w" where
  "scan_account L C watcher block now events oid i w =
     (case (if \<exists>(p, v, fs) \<in> set events. was_balance_received_at_account (inv_address i) fs
        then (case invoice_check L C watcher block i w of
            (Inr True, w') \<Rightarrow> ([oid], [oid], w')
          | (_, w') \<Rightarrow> ([], [], w'))
        else ([], [], w)) of (paid, gone, w1) \<Rightarrow>
      if now \<le> ts_millis (inv_death i)
      then (case invoice_check L C watcher block i w1 of
          (Inr p, w2) \<Rightarrow> (paid @ (if p then [oid] else []), gone @ [oid], w2)
        | (Inl _, w2) \<Rightarrow> (paid, gone, w2))
      else (paid, gone, w1))"

fun scan_accounts ::
    "'r chain_lib \<Rightarrow> 'w client \<Rightarrow> 'r chain_watcher \<Rightarrow> block_hash \<Rightarrow> u64 \<Rightarrow> event list
      \<Rightarrow> watched \<Rightarrow> 'w \<Rightarrow> string list \<times> string list \<times> 'w" where
  "scan_accounts L C watcher block now events [] w = ([], [], w)"
| "scan_accounts L C watcher block now events ((oid, i) # ws) w =
     (case scan_account L C watcher block now events oid i w of (paid, gone, w1) \<Rightarrow>
       (case scan_accounts L C watcher block now events ws w1 of (paid', gone', w2) \<Rightarrow>
         (paid @ paid', gone @ gone', w2)))"

definition on_new_block ::
    "'r chain_lib \<Rightarrow> 'w client \<Rightarrow> 'r chain_watcher \<Rightarrow> u64 \<Rightarrow> string \<Rightarrow> watched \<Rightarrow> 'w
      \<Rightarrow> block_outcome \<times> tracker_output list \<times> watched \<times> 'w" where
  "on_new_block L C watcher now number ws w =
     (case block_hash_at L C (Some number) w of
        (Inl _, w1) \<Rightarrow> (SwitchServer, [], ws, w1)
      | (Inr block, w1) \<Rightarrow> (case runtime_version_identifier L C block w1 of
          (Inl e, w2) \<Rightarrow> (TaskError e, [], ws, w2)
        | (Inr ver, w2) \<Rightarrow>
            if w_version watcher \<noteq> ver then (SwitchServer, [], ws, w2)
            else (case transfer_events L C block (w_metadata watcher) w2 of
              (Inl (EventsErr _), w3) \<Rightarrow> (SwitchServer, [], ws, w3)
            | (Inl EventsPanic, w3) \<Rightarrow> (TaskPanic, [], ws, w3)
            | (Inr events, w3) \<Rightarrow>
                (case scan_accounts L C watcher block now events ws w3 of (paid, gone, w4) \<Rightarrow>
                  (GoOn, map OrderPaid paid, remove_ids gone ws, w4)))))"

section \<open>The watcher task\<close>

datatype tracker_request =
    TrackWatch watch_account
  | TrackNewBlock string
  | TrackReap watch_account
  | TrackShutdown

text \<open>The task is at the head of the endpoint loop, serving requests over a client, or ended.\<close>

datatype task_end = EndOk | EndErr chain_error | EndPanic

datatype ('r, 'w) tracker_phase =
    AtEndpoint
  | Serving "'w client" "'r chain_watcher" string
  | Ended task_end

record ('r, 'w) tracker_state =
  phase :: "('r, 'w) tracker_phase"
  next_endpoint :: nat
  watching :: watched
  shutting_down :: bool

text \<open>
  What happens next: the loop head looks at the cancellation token and tries an endpoint; a
  serving task receives a request at a time \<open>now\<close>, or its wait of 120 seconds ends (or its
  channel is closed), which leaves the request loop.
\<close>

datatype tracker_input =
    TryEndpoint bool
  | Receive u64 tracker_request
  | NoRequest

fun tracker_step ::
    "'r chain_lib \<Rightarrow> (string \<Rightarrow> 'w \<Rightarrow> 'w client option \<times> 'w) \<Rightarrow> chain_config \<Rightarrow> tracker_input
      \<Rightarrow> ('r, 'w) tracker_state \<Rightarrow> 'w \<Rightarrow> (('r, 'w) tracker_state \<times> tracker_output list \<times> 'w) option" where
  "tracker_step L connect chain (TryEndpoint cancelled) s w =
     (case phase s of
        AtEndpoint \<Rightarrow>
          if shutting_down s \<or> cancelled \<or> endpoints chain = []
          then Some (s\<lparr>phase := Ended EndOk\<rparr>, [], w)
          else
            (let endpoint = endpoints chain ! (next_endpoint s mod length (endpoints chain));
                 s1 = s\<lparr>next_endpoint := Suc (next_endpoint s)\<rparr>
             in case connect endpoint w of
                  (None, w1) \<Rightarrow> Some (s1, [], w1)
                | (Some C, w1) \<Rightarrow> (case prepare_chain L C chain (watching s) endpoint w1 of
                    (Inl _, w2) \<Rightarrow> Some (s1, [], w2)
                  | (Inr (watcher, out, ws), w2) \<Rightarrow>
                      Some (s1\<lparr>phase := Serving C watcher endpoint, watching := ws\<rparr>, out, w2)))
      | _ \<Rightarrow> None)"
| "tracker_step L connect chain NoRequest s w =
     (case phase s of
        Serving _ _ _ \<Rightarrow> Some (s\<lparr>phase := AtEndpoint\<rparr>, [], w)
      | _ \<Rightarrow> None)"
| "tracker_step L connect chain (Receive now (TrackNewBlock number)) s w =
     (case phase s of
        Serving C watcher endpoint \<Rightarrow>
          (case on_new_block L C watcher now number (watching s) w of (outcome, out, ws, w1) \<Rightarrow>
            Some (s\<lparr>watching := ws, phase := (case outcome of
                GoOn \<Rightarrow> phase s
              | SwitchServer \<Rightarrow> AtEndpoint
              | TaskError e \<Rightarrow> Ended (EndErr e)
              | TaskPanic \<Rightarrow> Ended EndPanic)\<rparr>, out, w1))
      | _ \<Rightarrow> None)"
| "tracker_step L connect chain (Receive now (TrackWatch a)) s w =
     (case phase s of
        Serving _ _ _ \<Rightarrow> Some (s\<lparr>watching :=
            AList.update (inv_id (watch_invoice a)) (watch_invoice a) (watching s)\<rparr>,
          [Watching (inv_id (watch_invoice a))], w)
      | _ \<Rightarrow> None)"
| "tracker_step L connect chain (Receive now (TrackReap a)) s w =
     (case phase s of
        Serving _ _ endpoint \<Rightarrow> Some (s, [SpawnPayout endpoint (watch_invoice a)], w)
      | _ \<Rightarrow> None)"
| "tracker_step L connect chain (Receive now TrackShutdown) s w =
     (case phase s of
        Serving _ _ _ \<Rightarrow> Some (s\<lparr>shutting_down := True, phase := AtEndpoint\<rparr>, [], w)
      | _ \<Rightarrow> None)"

definition tracker_start :: "('r, 'w) tracker_state" where
  "tracker_start = \<lparr>phase = AtEndpoint, next_endpoint = 0, watching = [], shutting_down = False\<rparr>"

text \<open>The runs of the task, with the outputs in order.\<close>

inductive tracker_run ::
    "'r chain_lib \<Rightarrow> (string \<Rightarrow> 'w \<Rightarrow> 'w client option \<times> 'w) \<Rightarrow> chain_config
      \<Rightarrow> ('r, 'w) tracker_state \<Rightarrow> 'w \<Rightarrow> tracker_input list \<Rightarrow> tracker_output list
      \<Rightarrow> ('r, 'w) tracker_state \<Rightarrow> 'w \<Rightarrow> bool"
  for L connect chain where
  stop: "tracker_run L connect chain s w [] [] s w"
| step: "tracker_step L connect chain x s w = Some (s1, out, w1) \<Longrightarrow>
     tracker_run L connect chain s1 w1 xs outs s2 w2 \<Longrightarrow>
     tracker_run L connect chain s w (x # xs) (out @ outs) s2 w2"

end
