(* ===== verification/Toy_Node.thy ===== *)
theory Toy_Node
  imports Tracker
begin

text \<open>
  A node in miniature, on which the witnesses of the chain properties run: a chain called
  \<open>toy\<close> with the native token \<open>TOY\<close> (10 decimals) and a \<open>System\<close> pallet, one page of events with
  one transfer to the account \<open>[1]\<close>, and a native balance of 7 for every account. The
  hexadecimal digits carry no information here.
\<close>

definition toy_hash :: string where
  "toy_hash = replicate 32 (CHR ''h'')"

definition toy_pallet :: pallet_metadata where
  "toy_pallet = \<lparr>pallet_name = ''System'', pallet_index_of = 0,
     storage = Some \<lparr>storage_prefix = ''System'',
       entries = [\<lparr>entry_name = ''Events'', entry_ty = Plain 0\<rparr>]\<rparr>,
     constants = []\<rparr>"

definition toy_metadata :: "unit metadata" where
  "toy_metadata = \<lparr>pallets = [toy_pallet], call_ty = 0, registry = ()\<rparr>"

definition toy_event :: parsed_data where
  "toy_event = SequenceRaw [Composite [(Some ''event'',
     ParsedEvent ''Balances'' ''Transfer'' [(Some ''from'', ParsedId [9]), (Some ''to'', ParsedId [1])])]]"

text \<open>Forms: every call offers the three pallets the daemon uses, each with its one method.\<close>

definition toy_methods :: "string \<Rightarrow> string list" where
  "toy_methods pallet = (if pallet = ''Assets'' then [''transfer'']
     else if pallet = ''Balances'' then [''transfer_keep_alive'', ''transfer_all'']
     else if pallet = ''Utility'' then [''batch'', ''batch_all''] else [])"

definition toy_fields :: "string \<Rightarrow> fill_fields" where
  "toy_fields name =
     (if name = ''transfer'' then
        [(Some ''id'', FillCompact (FillU32 None) SpecialtyNone),
         (Some ''target'', FillVariant [''Id''] 0 []),
         (Some ''amount'', FillCompact (FillU128 None) SpecialtyBalance)]
      else if name = ''transfer_all'' then
        [(Some ''dest'', FillVariant [''Id''] 0 []), (Some ''keep_alive'', FillBool None)]
      else if name = ''transfer_keep_alive'' then
        [(Some ''dest'', FillVariant [''Id''] 0 []),
         (Some ''value'', FillCompact (FillU128 None) SpecialtyBalance)]
      else if name = ''batch'' \<or> name = ''batch_all'' then [(Some ''calls'', FillSequence [])]
      else if name = ''Id'' then [(None, FillAccount None)]
      else [(None, FillVariant (toy_methods name) 0 [])])"

definition toy_pallets :: "string list" where
  "toy_pallets = [''System'', ''Balances'', ''Assets'', ''Utility'']"

definition toy_lib :: "unit chain_lib" where
  "toy_lib = \<lparr>hex_encode = map (\<lambda>_. CHR ''h''), hex_decode = (\<lambda>s. Inr (map (\<lambda>_. 0) s)),
     blake2_128 = id, blake2_256 = id, twox_64 = id, twox_128 = id, twox_256 = id,
     encode_u32 = (\<lambda>n. [ucast n]), from_utf8 = (\<lambda>b. None), resolve_ty = (\<lambda>_ _. Inr TypeU32),
     decode_all_as_type = (\<lambda>ty b _. if ty = 1 then Inr (PrimitiveU32 5)
        else Inr (Composite [(Some ''data'',
          Composite [(Some ''free'', PrimitiveU128 7 SpecialtyBalance)])])),
     decode_as_storage_entry = (\<lambda>k v e _. Inr (KeyOther, toy_event)),
     decode_option_bytes = (\<lambda>b. Inr (Some (bytes_of ''meta''))), decode_metadata = (\<lambda>_. Inr (V15 toy_metadata)),
     spec_name = (\<lambda>_. Inr ''toy''),
     prepare_type = (\<lambda>_ _. Inr (FillVariant toy_pallets 0 [])),
     variant_new_at = (\<lambda>names _ i. Inr (names, i, toy_fields (names ! i))),
     selector_init = (\<lambda>_. Inr (StorageFunctional [''System''] ''System'' EntryEmpty)),
     selector_new_at = (\<lambda>ps _ i. Inr (ps, ps ! i,
        EntryFunctional [''Account'', ''Number''] ''Account'' EntryPlain)),
     entry_new_at = (\<lambda>es _ i. Inr (es, es ! i,
        if es ! i = ''Account'' then EntryMap (FillAccount None) else EntryPlain)),
     query_finalize = (\<lambda>p e. Inr (Some \<lparr>query_key =
        (case e of EntryFunctional _ n _ \<Rightarrow> n | EntryEmpty \<Rightarrow> p), query_value_ty = (case e of EntryFunctional _ n _ \<Rightarrow> if n = ''Number'' then 1 else 0
          | EntryEmpty \<Rightarrow> 0)\<rparr>)),
     transaction_init = (\<lambda>_ _. Inr \<lparr>author = FillAccount None, call = FillOther ''none'',
        extensions = [FillEra EraUnset]\<rparr>),
     populate_block_info = (\<lambda>_ _ t. t), populate_nonce = (\<lambda>_ t. t)\<rparr>"

definition toy_request :: "string \<Rightarrow> json list \<Rightarrow> foreign_error + json" where
  "toy_request name params =
     (if name = ''chain_getBlockHash'' then Inr (JString (''0x'' @ toy_hash))
      else if name = ''state_getRuntimeVersion'' then Inr JNull
      else if name = ''state_call'' then Inr (JString ''0xmeta'')
      else if name = ''system_properties'' then Inr (JObject [(''ss58Format'', JNumber (PosInt 0)),
        (''tokenDecimals'', JNumber (PosInt 10)), (''tokenSymbol'', JString ''TOY'')])
      else if name = ''state_getKeysPaged'' then
        (if length params = 3 then Inr (JArray [JString ''0xkey'']) else Inr (JArray []))
      else if name = ''state_getStorage'' then
        Inr (JString ''0x07'')
      else Inl ''unknown method'')"

definition toy_client :: "unit client" where
  "toy_client = \<lparr>request = (\<lambda>name params w. (toy_request name params, w)),
     subscribe_heads = (\<lambda>w. (Inr (), w)), next_head = (\<lambda>w. (Some (Inr ''0x10''), w))\<rparr>"

definition toy_chain :: chain_config where
  "toy_chain = \<lparr>chain_name = ''toy'', endpoints = [''ws://toy''],
     native_token = Some \<lparr>native_name = ''TOY'', native_decimals = 10\<rparr>, assets = []\<rparr>"

definition toy_connect :: "string \<Rightarrow> unit \<Rightarrow> unit client option \<times> unit" where
  "toy_connect endpoint w = (Some toy_client, w)"

text \<open>An invoice over \<open>n\<close> units for the account \<open>a\<close>, living until \<open>death\<close>.\<close>

definition toy_invoice :: "string \<Rightarrow> bytes \<Rightarrow> u128 \<Rightarrow> u64 \<Rightarrow> invoice" where
  "toy_invoice oid a n death = \<lparr>inv_id = oid, inv_address = a, inv_currency = ''TOY'',
     inv_amount = Balance n, inv_recipient = [3], inv_death = Timestamp death\<rparr>"

definition toy_assets :: currency_map where
  "toy_assets = [(''TOY'', \<lparr>cp_chain_name = ''toy'', cp_kind = Native, cp_decimals = 10,
     cp_rpc_url = ''ws://toy'', cp_asset_id = None, cp_ss58 = 0\<rparr>)]"

definition toy_watcher :: "unit chain_watcher" where
  "toy_watcher = \<lparr>w_genesis_hash = BlockHash (replicate 32 0), w_metadata = toy_metadata,
     w_specs = \<lparr>specs_base58prefix = 0, specs_decimals = 10, specs_unit = ''TOY''\<rparr>,
     w_assets = toy_assets, w_version = JNull\<rparr>"

lemma toy_lib_simps [simp]:
  "hex_encode toy_lib b = map (\<lambda>_. CHR ''h'') b" "hex_decode toy_lib s = Inr (map (\<lambda>_. 0) s)"
  "resolve_ty toy_lib r ty = Inr TypeU32"
  "decode_all_as_type toy_lib ty b r = (if ty = 1 then Inr (PrimitiveU32 5)
     else Inr (Composite [(Some ''data'',
       Composite [(Some ''free'', PrimitiveU128 7 SpecialtyBalance)])]))"
  "decode_as_storage_entry toy_lib b c e r = Inr (KeyOther, toy_event)"
  "decode_option_bytes toy_lib b = Inr (Some (bytes_of ''meta''))"
  "decode_metadata toy_lib b = Inr (V15 toy_metadata)" "spec_name toy_lib m = Inr ''toy''"
  "prepare_type toy_lib ty r = Inr (FillVariant toy_pallets 0 [])"
  "variant_new_at toy_lib names r i = Inr (names, i, toy_fields (names ! i))"
  "selector_init toy_lib m = Inr (StorageFunctional [''System''] ''System'' EntryEmpty)"
  "selector_new_at toy_lib ps r i = Inr (ps, ps ! i,
     EntryFunctional [''Account'', ''Number''] ''Account'' EntryPlain)"
  "entry_new_at toy_lib es r i = Inr (es, es ! i,
     if es ! i = ''Account'' then EntryMap (FillAccount None) else EntryPlain)"
  "query_finalize toy_lib p sel = Inr (Some \<lparr>query_key =
     (case sel of EntryFunctional _ n _ \<Rightarrow> n | EntryEmpty \<Rightarrow> p),
      query_value_ty = (case sel of EntryFunctional _ n _ \<Rightarrow> if n = ''Number'' then 1 else 0
        | EntryEmpty \<Rightarrow> 0)\<rparr>)"
  "transaction_init toy_lib m b = Inr \<lparr>author = FillAccount None, call = FillOther ''none'',
     extensions = [FillEra EraUnset]\<rparr>"
  "populate_block_info toy_lib b n t = t" "populate_nonce toy_lib k t = t"
  by (simp_all add: toy_lib_def)

lemma toy_client_simps [simp]:
  "request toy_client name params w = (toy_request name params, w)"
  "subscribe_heads toy_client w = (Inr (), w)"
  "next_head toy_client w = (Some (Inr ''0x10''), w)"
  by (simp_all add: toy_client_def)

lemmas toy_defs = toy_request_def toy_hash_def toy_metadata_def
  toy_pallet_def toy_invoice_def toy_assets_def toy_watcher_def
  call_then_def call_of_def call_ok_def call_map_err_def ask_def get_value_from_storage_def

definition toy_block :: block_hash where
  "toy_block = BlockHash (replicate 32 0)"

lemma toy_block_hash: "block_hash_at toy_lib toy_client number () = (Inr toy_block, ())"
  by (simp add: block_hash_at_def block_hash_from_str_def toy_defs toy_block_def
      split: option.split)

lemma toy_genesis: "genesis_hash toy_lib toy_client () = (Inr toy_block, ())"
  by (simp add: genesis_hash_def block_hash_from_str_def toy_defs toy_block_def)

lemma toy_version: "runtime_version_identifier toy_lib toy_client block () = (Inr JNull, ())"
  by (cases block) (simp add: runtime_version_identifier_def toy_defs)

lemma toy_metadata_at: "metadata_at toy_lib toy_client block () = (Inr toy_metadata, ())"
  by (cases block) (simp add: metadata_at_def toy_defs bytes_of_def)

lemma toy_specs: "specs_at toy_lib toy_client toy_metadata block () = (Inr (w_specs toy_watcher), ())"
  by (cases block) (simp add: specs_at_def system_properties_to_short_specs_def decimals_def
      unit_of_def base58prefix_def optional_prefix_from_meta_def find_constant_def
      u64_to_u8_def u64_to_u16_def toy_defs)

lemma toy_pages: "get_keys_from_storage toy_lib toy_client prefix name block () =
    ([JArray [JString ''0xkey'']], ())"
proof -
  have "key_pages toy_client (Suc (Suc n)) [x, y] b None [] () = ([JArray [JString ''0xkey'']], ())"
    for n x y b
    by (simp add: toy_request_def Let_def)
  from this [of 254] show ?thesis by (simp add: get_keys_from_storage_def MAX_KEY_PAGES_def)
qed

lemma toy_events: "transfer_events toy_lib toy_client block toy_metadata () =
    (Inr [(''Balances'', ''Transfer'', [(Some ''from'', ParsedId [9]), (Some ''to'', ParsedId [1])])], ())"
  by (cases block) (simp add: transfer_events_def events_entry_metadata_def events_at_block_def
      toy_pages toy_event_def BALANCES_def TRANSFER_def toy_defs)

lemma toy_balance: "system_balance_at_account toy_lib toy_client block m a () = (Inr (Balance 7), ())"
  by (cases block) (simp add: system_balance_at_account_def system_balance_query_def
      account_query_def fill_entry_def finalize_query_def toy_defs)

lemma toy_check: "invoice_check toy_lib toy_client toy_watcher block (toy_invoice oid a n death) () =
    (Inr (n \<le> 7), ())"
  by (simp add: invoice_check_def invoice_balance_def toy_balance toy_invoice_def toy_watcher_def
      toy_assets_def call_then_def less_eq_balance_def)

lemma toy_assets_set:
  "assets_set_at_block toy_lib toy_client block toy_metadata ''ws://toy'' (w_specs toy_watcher) () =
     (Inr toy_assets, ())"
  by (simp add: assets_set_at_block_def toy_defs Let_def)

lemma toy_prepare:
  "prepare_chain toy_lib toy_client toy_chain [(''a'', toy_invoice ''a'' [1] 7 50)] ''ws://toy'' () =
     (Inr (toy_watcher, [ConnectChain toy_assets, OrderPaid ''a''], []), ())"
  and toy_prepare_empty:
  "prepare_chain toy_lib toy_client toy_chain [] ''ws://toy'' () =
     (Inr (toy_watcher, [ConnectChain toy_assets], []), ())"
proof -
  have next_block: "next_block toy_lib toy_client () = (Inr toy_block, ())"
    by (simp add: next_block_def next_block_number_def toy_block_hash call_then_def)
  have sub: "subscribe_blocks toy_client () = (Inr (), ())"
    by (simp add: subscribe_blocks_def call_map_err_def)
  have watcher: "\<lparr>w_genesis_hash = toy_block, w_metadata = toy_metadata,
      w_specs = w_specs toy_watcher, w_assets = toy_assets, w_version = JNull\<rparr> = toy_watcher"
    by (simp add: toy_watcher_def toy_block_def)
  have kept: "filter (wanted toy_chain (w_specs toy_watcher)) toy_assets = toy_assets"
    by (simp add: wanted_def toy_chain_def toy_assets_def toy_watcher_def)
  have one: "length toy_assets = length (assets toy_chain) +
      (if native_token toy_chain \<noteq> None then 1 else 0)" "chain_name toy_chain = ''toy''"
    by (simp_all add: toy_chain_def toy_assets_def)
  show "prepare_chain toy_lib toy_client toy_chain [(''a'', toy_invoice ''a'' [1] 7 50)] ''ws://toy'' () =
      (Inr (toy_watcher, [ConnectChain toy_assets, OrderPaid ''a''], []), ())"
    "prepare_chain toy_lib toy_client toy_chain [] ''ws://toy'' () =
      (Inr (toy_watcher, [ConnectChain toy_assets], []), ())"
    by (simp_all add: prepare_chain_def call_then_def toy_genesis sub next_block toy_version
        toy_metadata_at toy_specs toy_assets_set kept one watcher toy_check remove_ids_def
        Let_def)
qed

lemma toy_new_block:
  "on_new_block toy_lib toy_client toy_watcher 60 ''0x11''
      [(''a'', toy_invoice ''a'' [1] 7 50), (''b'', toy_invoice ''b'' [2] 7 50),
       (''c'', toy_invoice ''c'' [2] 8 90)] () =
     (GoOn, [OrderPaid ''a''], [(''b'', toy_invoice ''b'' [2] 7 50)], ())"
  and toy_new_block_one:
  "on_new_block toy_lib toy_client toy_watcher 60 ''0x11'' [(''a'', toy_invoice ''a'' [1] 7 50)] () =
     (GoOn, [OrderPaid ''a''], [], ())"
proof -
  have w: "w_version toy_watcher = JNull" "w_metadata toy_watcher = toy_metadata"
    by (simp_all add: toy_watcher_def)
  have fields: "inv_address (toy_invoice oid a n d) = a" "inv_death (toy_invoice oid a n d) = Timestamp d"
    for oid a n d by (simp_all add: toy_invoice_def)
  show "on_new_block toy_lib toy_client toy_watcher 60 ''0x11''
      [(''a'', toy_invoice ''a'' [1] 7 50), (''b'', toy_invoice ''b'' [2] 7 50),
       (''c'', toy_invoice ''c'' [2] 8 90)] () =
     (GoOn, [OrderPaid ''a''], [(''b'', toy_invoice ''b'' [2] 7 50)], ())"
    "on_new_block toy_lib toy_client toy_watcher 60 ''0x11'' [(''a'', toy_invoice ''a'' [1] 7 50)] () =
     (GoOn, [OrderPaid ''a''], [], ())"
    by (simp_all add: on_new_block_def toy_block_hash toy_version toy_events w scan_account_def
        was_balance_received_at_account_def toy_check fields remove_ids_def)
qed

end
