(* ===== verification/Chain_Properties.thy ===== *)
theory Chain_Properties
  imports Toy_Node
begin

text \<open>
  The properties of the chain code that decides nothing about orders by itself: which system
  properties of a node are accepted, who received a transfer, block hashes as text, and the scan
  of storage keys.
\<close>

text \<open>The specs read from a node's system properties are exactly these: decimals given as an integer
  below 256, alone or as the only element of an array, a unit given as a string in the same two
  ways, and an address prefix given as an integer below 65536 that agrees with the metadata's, or
  the metadata's when the node gives none.\<close>

theorem short_specs_accepted:
  "system_properties_to_short_specs L x m = Inr s \<longleftrightarrow>
     (\<exists>n. unat n = unat (specs_decimals s) \<and>
        map_of x ''tokenDecimals'' \<in> {Some (JNumber (PosInt n)), Some (JArray [JNumber (PosInt n)])}) \<and>
     map_of x ''tokenSymbol'' \<in> {Some (JString (specs_unit s)), Some (JArray [JString (specs_unit s)])} \<and>
     ((\<exists>n. map_of x ''ss58Format'' = Some (JNumber (PosInt n)) \<and> unat n = unat (specs_base58prefix s) \<and>
         optional_prefix_from_meta L m \<in> {None, Some (specs_base58prefix s)}) \<or>
      map_of x ''ss58Format'' = None \<and> optional_prefix_from_meta L m = Some (specs_base58prefix s))"
proof -
  have "system_properties_to_short_specs L x m = Inr s \<longleftrightarrow>
      base58prefix x (optional_prefix_from_meta L m) = Inr (specs_base58prefix s) \<and>
      decimals x = Inr (specs_decimals s) \<and> unit_of x = Inr (specs_unit s)"
    by (cases s) (auto simp: system_properties_to_short_specs_def and_then_Inr_iff)
  then show ?thesis
    unfolding base58prefix_Inr decimals_Inr unit_of_Inr by auto
qed

text \<open>C35. A transfer event counts as received by an account exactly when that account is the one and only
  account among the event's \<open>to\<close> fields.\<close>

theorem received_iff_sole_receiver:
  "was_balance_received_at_account a fs \<longleftrightarrow> receivers fs = [a]"
  by (auto simp: was_balance_received_at_account_def receiver_loop_eq split: list.splits)

text \<open>A block hash survives its printed form, and every text read as a block hash is one of 32 bytes.\<close>

theorem block_hash_text:
  assumes "hex_contract L" and "length h = 32"
  shows "block_hash_from_str L (block_hash_to_string L (BlockHash h)) = Inr (BlockHash h) \<and>
    (\<forall>s b. block_hash_from_str L s = Inr (BlockHash b) \<longrightarrow> length b = 32)"
  using assms
  by (auto simp: block_hash_from_str_def hex_contract_def and_then_Inr_iff split: if_splits)

definition hex_lib :: "unit chain_lib" where
  "hex_lib = toy_lib\<lparr>hex_encode := map (\<lambda>w. char_of (unat w)), hex_decode := (\<lambda>s. Inr (bytes_of s))\<rparr>"

lemma hex_lib_contract: "hex_contract hex_lib"
proof -
  have "word_of_nat (of_char (char_of (unat w) :: char)) = (w :: u8)" for w
  proof -
    have "unat w < 256" using unsigned_less [of w] by simp
    then have "of_char (char_of (unat w) :: char) = unat w" by simp
    then show ?thesis by simp
  qed
  then show ?thesis
    by (simp add: hex_contract_def hex_lib_def bytes_of_def o_def)
qed

theorem block_hash_text_witness:
  "block_hash_from_str hex_lib (block_hash_to_string hex_lib (BlockHash (replicate 32 7))) =
     Inr (BlockHash (replicate 32 7))"
  using block_hash_text [OF hex_lib_contract, of "replicate 32 7"] by simp


end
