(* ===== verification/Tracker_Properties.thy ===== *)
theory Tracker_Properties
  imports Toy_Node
begin

text \<open>
  What the chain watcher guarantees: payments are reported only for funded accounts it was asked
  to watch, a connection is accepted only when it serves exactly the configured currencies, and
  which accounts a processed block drops.
\<close>

section \<open>Reported payments\<close>

text \<open>Some client of the watcher answered a balance query for the invoice with enough.\<close>

definition funded :: "'r chain_lib \<Rightarrow> invoice \<Rightarrow> 'w client \<Rightarrow> bool" where
  "funded L i C \<longleftrightarrow> (\<exists>watcher block w1 w2 b.
     invoice_balance L C watcher block i w1 = (Inr b, w2) \<and> inv_amount i \<le> b)"

lemma check_funded: "invoice_check L C watcher block i w = (Inr True, w') \<Longrightarrow> funded L i C"
  unfolding funded_def by (fastforce simp: invoice_check_def call_ok_def elim!: call_then_InrE)

lemma check_watched_funded:
  "check_watched L C watcher block ws w = (paid, w') \<Longrightarrow> oid \<in> set paid \<Longrightarrow>
     \<exists>i. (oid, i) \<in> set ws \<and> funded L i C"
proof (induction L C watcher block ws w arbitrary: paid w' rule: check_watched.induct)
  case (2 L C watcher block o' i ws w)
  obtain r w1 where r: "invoice_check L C watcher block i w = (r, w1)" by fastforce
  obtain paid1 w2 where rest: "check_watched L C watcher block ws w1 = (paid1, w2)" by fastforce
  from 2(2) r rest have "paid = (if r = Inr True then o' # paid1 else paid1)"
    by (auto split: sum.splits bool.splits)
  then show ?case
    using 2(1) [OF r [symmetric] rest] 2(3) check_funded [of L C watcher block i w] r
    by (auto split: if_splits)
qed simp

lemma scan_account_paid:
  assumes "scan_account L C watcher block now events oid i w = (paid, gone, w')"
  shows "set paid \<subseteq> {oid} \<and> set gone \<subseteq> {oid} \<and> (oid \<in> set paid \<longrightarrow> funded L i C)"
  using assms by (auto simp: scan_account_def dest: check_funded
      split: if_splits prod.splits sum.splits bool.splits)

lemma scan_accounts_paid:
  "scan_accounts L C watcher block now events ws w = (paid, gone, w') \<Longrightarrow> oid \<in> set paid \<Longrightarrow>
     \<exists>i. (oid, i) \<in> set ws \<and> funded L i C"
proof (induction L C watcher block now events ws w arbitrary: paid gone w'
    rule: scan_accounts.induct)
  case (2 L C watcher block now events o' i ws w)
  obtain p1 g1 w1 where one: "scan_account L C watcher block now events o' i w = (p1, g1, w1)"
    by (metis prod_cases3)
  obtain p2 g2 w2 where rest: "scan_accounts L C watcher block now events ws w1 = (p2, g2, w2)"
    by (metis prod_cases3)
  from 2(2) one rest have "paid = p1 @ p2" by simp
  then show ?case
    using 2(1) [OF one [symmetric] refl rest] 2(3) scan_account_paid [OF one] by auto
qed simp

lemma prepare_chain_ok:
  assumes "prepare_chain L C chain ws url w = (Inr (watcher, out, ws'), w')"
  shows "\<exists>all_assets specs w1 w2 w3. spec_name L (w_metadata watcher) = Inr (chain_name chain) \<and>
    w_assets watcher = filter (wanted chain specs) all_assets \<and> w_specs watcher = specs \<and>
    length (w_assets watcher) = length (assets chain) + (if native_token chain \<noteq> None then 1 else 0) \<and>
    (\<exists>block. assets_set_at_block L C block (w_metadata watcher) url specs w1 = (Inr all_assets, w2) \<and>
      (\<exists>paid. check_watched L C watcher block ws w2 = (paid, w3) \<and>
        out = ConnectChain (w_assets watcher) # map OrderPaid paid \<and> ws' = remove_ids paid ws))"
  using assms unfolding prepare_chain_def
  by (elim call_then_InrE) (fastforce simp: Let_def call_of_def call_err_def
      elim!: call_then_InrE split: if_splits prod.splits)

lemma on_new_block_paid:
  assumes "on_new_block L C watcher now number ws w = (outcome, out, ws', w')"
    and "OrderPaid oid \<in> set out"
  shows "\<exists>i. (oid, i) \<in> set ws \<and> funded L i C"
  using assms by (auto simp: on_new_block_def dest: scan_accounts_paid
      split: prod.splits sum.splits events_outcome.splits if_splits)

text \<open>A block never adds an account to the watch.\<close>

lemma remove_ids_subset: "set (remove_ids ids ws) \<subseteq> set ws"
  by (auto simp: remove_ids_def)

lemma on_new_block_subset:
  assumes "on_new_block L C watcher now number ws w = (outcome, out, ws', w')"
  shows "set ws' \<subseteq> set ws"
  using assms remove_ids_subset by (fastforce simp: on_new_block_def
      split: prod.splits sum.splits events_outcome.splits if_splits)

lemma update_in_set: "x \<in> set (AList.update k v xs) \<Longrightarrow> x = (k, v) \<or> x \<in> set xs"
  by (induction xs) (auto split: if_splits)

text \<open>One step: a watched account is one the task was told to watch, under its own id, and a payment
  is reported of a watched, funded one.\<close>

lemma tracker_step_sound:
  fixes w :: 'w
  assumes "tracker_step L connect chain x s w = Some (s1, out, w1)"
    and "\<forall>(oid, i) \<in> set (watching s). oid = inv_id i \<and> P i"
    and "\<And>now a. x = Receive now (TrackWatch a) \<Longrightarrow> P (watch_invoice a)"
  shows "(\<forall>(oid, i) \<in> set (watching s1). oid = inv_id i \<and> P i) \<and>
    (\<forall>oid. OrderPaid oid \<in> set out \<longrightarrow> (\<exists>i (C :: 'w client). P i \<and> inv_id i = oid \<and> funded L i C))"
proof (cases x)
  case (TryEndpoint cancelled)
  from assms(1) have idle: "phase s = AtEndpoint" using TryEndpoint by (cases "phase s") auto
  show ?thesis
  proof (cases "watching s1 = watching s \<and> out = []")
    case False
    with assms(1) TryEndpoint idle obtain C endpoint u watcher where
      prep: "prepare_chain L C chain (watching s) endpoint u = (Inr (watcher, out, watching s1), w1)"
      by (auto simp: Let_def split: if_splits prod.splits option.splits sum.splits)
    from prepare_chain_ok [OF prep] obtain block paid w2 w3 where
      paid: "check_watched L C watcher block (watching s) w2 = (paid, w3)"
        "out = ConnectChain (w_assets watcher) # map OrderPaid paid"
        "watching s1 = remove_ids paid (watching s)"
      by blast
    show ?thesis
      using assms(2) paid(2,3) check_watched_funded [OF paid(1)] remove_ids_subset by fastforce
  qed (use assms(2) in auto)
next
  case NoRequest
  then show ?thesis using assms(1,2) by (auto split: tracker_phase.splits)
next
  case (Receive now req)
  show ?thesis
  proof (cases req)
    case (TrackWatch a)
    then show ?thesis
      using assms Receive by (auto split: tracker_phase.splits dest!: update_in_set)
  next
    case (TrackNewBlock number)
    with assms(1) Receive obtain C watcher endpoint outcome u where
      blk: "on_new_block L C watcher now number (watching s) w = (outcome, out, watching s1, u)"
      by (auto split: tracker_phase.splits prod.splits)
    show ?thesis
      using assms(2) on_new_block_subset [OF blk] on_new_block_paid [OF blk] by fastforce
  qed (use assms(1,2) Receive in \<open>auto split: tracker_phase.splits\<close>)
qed

lemma tracker_run_sound:
  fixes w :: 'w
  assumes "tracker_run L connect chain s w xs outs s' w'"
    and "\<forall>(oid, i) \<in> set (watching s). oid = inv_id i \<and> P i"
    and "\<And>now a. Receive now (TrackWatch a) \<in> set xs \<Longrightarrow> P (watch_invoice a)"
  shows "\<forall>oid. OrderPaid oid \<in> set outs \<longrightarrow> (\<exists>i (C :: 'w client). P i \<and> inv_id i = oid \<and> funded L i C)"
  using assms
proof (induction rule: tracker_run.induct)
  case (step x s w s1 out w1 xs outs s2 w2)
  have now: "(\<forall>(oid, i) \<in> set (watching s1). oid = inv_id i \<and> P i) \<and>
    (\<forall>oid. OrderPaid oid \<in> set out \<longrightarrow> (\<exists>i (C :: 'w client). P i \<and> inv_id i = oid \<and> funded L i C))"
    by (rule tracker_step_sound [OF step(1) step(4)]) (use step(5) in auto)
  have "\<forall>oid. OrderPaid oid \<in> set outs \<longrightarrow> (\<exists>i (C :: 'w client). P i \<and> inv_id i = oid \<and> funded L i C)"
    by (rule step(3)) (use now step(5) in auto)
  with now show ?case by auto
qed simp

section \<open>The currencies of a connection\<close>

text \<open>What the native currency has and every asset found keeps, the currencies of a connection have.\<close>

lemma assets_at_keys_keeps:
  assumes step: "\<And>key xs ys w w'. step key xs w = (Inr ys, w') \<Longrightarrow> Q xs \<Longrightarrow> Q ys"
  shows "assets_at_keys step keys xs w = (Inr ys, w') \<Longrightarrow> Q xs \<Longrightarrow> Q ys"
proof (induction keys arbitrary: xs w)
  case (Cons key keys)
  then show ?case by (cases key) (auto elim!: call_then_InrE dest: step)
qed simp

lemma assets_at_pages_keeps:
  assumes step: "\<And>key xs ys w w'. step key xs w = (Inr ys, w') \<Longrightarrow> Q xs \<Longrightarrow> Q ys"
  shows "assets_at_pages step pages xs w = (Inr ys, w') \<Longrightarrow> Q xs \<Longrightarrow> Q ys"
proof (induction pages arbitrary: xs w)
  case (Cons page pages)
  show ?case
  proof (cases page)
    case (JArray keys)
    with Cons.prems(1) obtain zs w1 where keys: "assets_at_keys step keys xs w = (Inr zs, w1)"
      and rest: "assets_at_pages step pages zs w1 = (Inr ys, w')" by (auto elim!: call_then_InrE)
    from assets_at_keys_keeps [of step Q, OF step keys Cons.prems(2)] Cons.IH [OF rest] show ?thesis by simp
  qed (use Cons in auto)
qed simp

lemma assets_set_keeps:
  assumes set: "assets_set_at_block L C block m url specs w = (Inr xs, w')" and name: "spec_name L m = Inr chain"
    and native: "Q [(specs_unit specs, \<lparr>cp_chain_name = chain, cp_kind = Native,
      cp_decimals = specs_decimals specs, cp_rpc_url = url, cp_asset_id = None, cp_ss58 = specs_base58prefix specs\<rparr>)]"
    and asset: "\<And>cs symbol aid dec. Q cs \<Longrightarrow>
      Q (AList.update symbol (asset_currency chain url (specs_base58prefix specs) aid dec) cs)"
  shows "Q xs"
proof -
  let ?mk = "asset_currency chain url (specs_base58prefix specs)"
  have "ys = cs \<or> (\<exists>symbol aid dec. ys = AList.update symbol (?mk aid dec) cs)"
    if "asset_at_key L C block m ae me ?mk key cs v = (Inr ys, v')" for ae me key cs ys v v'
    using that unfolding asset_at_key_def
    by (fastforce elim!: call_then_InrE simp: call_of_def call_ok_def
        split: json.splits prod.splits if_splits option.splits)
  then have "Q ys" if "asset_at_key L C block m ae me ?mk key cs v = (Inr ys, v')" and "Q cs" for ae me key cs ys v v'
    using that asset by metis
  then have pages: "Q ys" if "assets_at_pages (asset_at_key L C block m ae me ?mk) pages
      [(specs_unit specs, \<lparr>cp_chain_name = chain, cp_kind = Native, cp_decimals = specs_decimals specs,
        cp_rpc_url = url, cp_asset_id = None, cp_ss58 = specs_base58prefix specs\<rparr>)] v = (Inr ys, v')"
    for ae me pages ys v v'
    using assets_at_pages_keeps [of "asset_at_key L C block m ae me ?mk" Q, OF _ that native] by blast
  show ?thesis
    using set name native unfolding assets_set_at_block_def Let_def
    by (elim call_then_InrE)
      (auto simp: call_ok_def split: option.splits prod.splits dest: pages)
qed

lemma assets_set_distinct:
  assumes "assets_set_at_block L C block m url specs w = (Inr xs, w')"
  shows "distinct (map fst xs)"
proof -
  from assms obtain chain where "spec_name L m = Inr chain"
    unfolding assets_set_at_block_def
    by (elim call_then_InrE) (auto simp: call_of_def map_err_def split: sum.splits)
  from assets_set_keeps [OF assms this, where Q = "\<lambda>cs. distinct (map fst cs)"] show ?thesis
    by (simp add: distinct_update)
qed

lemma distinct_singleton: "distinct xs \<Longrightarrow> set xs \<subseteq> {a} \<Longrightarrow> length xs \<le> 1"
  by (cases xs; cases "tl xs") auto

lemma prepare_chain_assets:
  assumes "prepare_chain L C chain ws url w = (Inr (watcher, out, ws'), w')"
  shows "distinct (map fst (w_assets watcher)) \<and>
    (\<forall>np \<in> set (w_assets watcher). wanted chain (w_specs watcher) np) \<and>
    length (w_assets watcher) = length (assets chain) + (if native_token chain \<noteq> None then 1 else 0)"
proof -
  from prepare_chain_ok [OF assms] obtain all_assets block w1 w2 where
      all: "assets_set_at_block L C block (w_metadata watcher) url (w_specs watcher) w1 = (Inr all_assets, w2)"
      "w_assets watcher = filter (wanted chain (w_specs watcher)) all_assets"
      "length (w_assets watcher) = length (assets chain) + (if native_token chain \<noteq> None then 1 else 0)"
    by blast
  from assets_set_distinct [OF all(1)] all(2,3) show ?thesis
    by (auto simp: distinct_map_filter)
qed



text \<open>C25. A chain configured with a native token and with assets as well can never be connected to:
  every node's answer fails, by \<open>AssetsInvalid\<close> or earlier.\<close>

theorem native_and_assets_never_connect:
  assumes "native_token chain \<noteq> None" and "assets chain \<noteq> []"
  shows "\<exists>e w'. prepare_chain L C chain ws url w = (Inl e, w')"
proof -
  obtain r w' where r: "prepare_chain L C chain ws url w = (r, w')" by fastforce
  show ?thesis
  proof (cases r)
    case (Inr x)
    obtain watcher out ws' where "x = (watcher, out, ws')" by (cases x)
    with r Inr have prep: "prepare_chain L C chain ws url w = (Inr (watcher, out, ws'), w')" by simp
    obtain t where t: "native_token chain = Some t" using assms(1) by auto
    from prepare_chain_assets [OF prep] have dist: "distinct (map fst (w_assets watcher))"
      and want: "\<And>np. np \<in> set (w_assets watcher) \<Longrightarrow> wanted chain (w_specs watcher) np"
      and len: "length (w_assets watcher) = length (assets chain) + 1"
      using t by auto
    have "set (map fst (w_assets watcher)) \<subseteq> {native_name t}"
      using want t by (fastforce simp: wanted_def)
    from distinct_singleton [OF dist this] have "length (w_assets watcher) \<le> 1" by simp
    with len assms(2) show ?thesis by simp
  qed (use r in auto)
qed

theorem native_and_assets_never_connect_witness:
  "\<exists>e. prepare_chain toy_lib toy_client
      (toy_chain\<lparr>assets := [\<lparr>asset_name = ''USDt'', asset_id = 1984\<rparr>]\<rparr>) [] ''ws://toy'' () = (Inl e, ())"
  using native_and_assets_never_connect [of "toy_chain\<lparr>assets := [\<lparr>asset_name = ''USDt'', asset_id = 1984\<rparr>]\<rparr>"
      toy_lib toy_client "[]" "''ws://toy''" "()"]
  by (simp add: toy_chain_def)

section \<open>Properties of the watch\<close>

text \<open>C8. From its start the watcher reports a payment only of an order it was told to watch, and only
  after a balance query for that very invoice was answered with at least its amount.\<close>

theorem payment_reported_only_when_funded:
  fixes w :: 'w
  assumes "tracker_run L connect chain tracker_start w xs outs s' w'" and "OrderPaid oid \<in> set outs"
  shows "\<exists>now i. Receive now (TrackWatch (WatchAccount i)) \<in> set xs \<and> inv_id i = oid \<and>
    (\<exists>(C :: 'w client) watcher block w1 w2 b.
      invoice_balance L C watcher block i w1 = (Inr b, w2) \<and> inv_amount i \<le> b)"
proof -
  have "\<forall>oid. OrderPaid oid \<in> set outs \<longrightarrow> (\<exists>i (C :: 'w client).
      (\<exists>now. Receive now (TrackWatch (WatchAccount i)) \<in> set xs) \<and> inv_id i = oid \<and> funded L i C)"
    by (rule tracker_run_sound [OF assms(1)]) (auto simp: tracker_start_def)
  with assms(2) show ?thesis unfolding funded_def by blast
qed

text \<open>The steps of a run that connects, watches one account and sees one block.\<close>

lemma toy_run:
  "tracker_run toy_lib toy_connect toy_chain tracker_start ()
     [TryEndpoint False, Receive 60 (TrackWatch (WatchAccount (toy_invoice ''a'' [1] 7 50))),
      Receive 60 (TrackNewBlock ''0x11'')]
     ([ConnectChain toy_assets] @ [Watching ''a''] @ [OrderPaid ''a''] @ [])
     \<lparr>phase = Serving toy_client toy_watcher ''ws://toy'', next_endpoint = 1, watching = [],
       shutting_down = False\<rparr> ()"
proof (intro tracker_run.intros)
  have "prepare_chain toy_lib toy_client toy_chain [] ''ws://toy'' () =
      (Inr (toy_watcher, [ConnectChain toy_assets], []), ())"
    by (rule toy_prepare_empty)
  then show "tracker_step toy_lib toy_connect toy_chain (TryEndpoint False) tracker_start () =
      Some (\<lparr>phase = Serving toy_client toy_watcher ''ws://toy'', next_endpoint = 1, watching = [],
        shutting_down = False\<rparr>, [ConnectChain toy_assets], ())"
    by (simp add: tracker_start_def toy_chain_def toy_connect_def)
  show "tracker_step toy_lib toy_connect toy_chain
      (Receive 60 (TrackWatch (WatchAccount (toy_invoice ''a'' [1] 7 50))))
      \<lparr>phase = Serving toy_client toy_watcher ''ws://toy'', next_endpoint = 1, watching = [],
        shutting_down = False\<rparr> () =
    Some (\<lparr>phase = Serving toy_client toy_watcher ''ws://toy'', next_endpoint = 1,
        watching = [(''a'', toy_invoice ''a'' [1] 7 50)], shutting_down = False\<rparr>, [Watching ''a''], ())"
    by (simp add: toy_invoice_def)
  show "tracker_step toy_lib toy_connect toy_chain (Receive 60 (TrackNewBlock ''0x11''))
      \<lparr>phase = Serving toy_client toy_watcher ''ws://toy'', next_endpoint = 1,
        watching = [(''a'', toy_invoice ''a'' [1] 7 50)], shutting_down = False\<rparr> () =
    Some (\<lparr>phase = Serving toy_client toy_watcher ''ws://toy'', next_endpoint = 1, watching = [],
        shutting_down = False\<rparr>, [OrderPaid ''a''], ())"
    by (simp add: toy_new_block_one)
qed (rule tracker_run.stop)

theorem payment_reported_only_when_funded_witness:
  "\<exists>(C :: unit client) watcher block b.
     invoice_balance toy_lib C watcher block (toy_invoice ''a'' [1] 7 50) () = (Inr b, ()) \<and>
     inv_amount (toy_invoice ''a'' [1] 7 50) \<le> b"
  using payment_reported_only_when_funded [OF toy_run, of "''a''"] by auto

lemma scan_account_gone:
  assumes "scan_account L C watcher block now events oid i w = (paid, gone, w')"
    and "now \<le> ts_millis (inv_death i)"
    and "\<And>w. \<exists>p w'. invoice_check L C watcher block i w = (Inr p, w')"
  shows "oid \<in> set gone"
proof -
  obtain p0 g0 w1 where first: "(if \<exists>(p, v, fs) \<in> set events. was_balance_received_at_account (inv_address i) fs
      then (case invoice_check L C watcher block i w of
          (Inr True, w') \<Rightarrow> ([oid], [oid], w') | (_, w') \<Rightarrow> ([], [], w'))
      else ([], [], w)) = (p0, g0, w1)"
    by (rule prod_cases3)
  obtain p w2 where "invoice_check L C watcher block i w1 = (Inr p, w2)"
    using assms(3) by blast
  with assms(1,2) show ?thesis
    unfolding scan_account_def first by auto
qed

lemma scan_accounts_gone:
  assumes "scan_accounts L C watcher block now events ws w = (paid, gone, w')"
    and "(oid, i) \<in> set ws" and "now \<le> ts_millis (inv_death i)"
    and "\<And>w. \<exists>p w'. invoice_check L C watcher block i w = (Inr p, w')"
  shows "oid \<in> set gone"
  using assms(1,2)
proof (induction ws arbitrary: w paid gone w')
  case (Cons x ws)
  obtain o' j where x: "x = (o', j)" by fastforce
  obtain p1 g1 w1 where one: "scan_account L C watcher block now events o' j w = (p1, g1, w1)"
    by (metis prod_cases3)
  obtain p2 g2 w2 where rest: "scan_accounts L C watcher block now events ws w1 = (p2, g2, w2)"
    by (metis prod_cases3)
  have g: "gone = g1 @ g2" using Cons(2) one rest by (simp add: x)
  show ?case
  proof (cases "(oid, i) \<in> set ws")
    case True
    from Cons(1) [OF rest this] g show ?thesis by simp
  next
    case False
    with Cons(3) x have "o' = oid" "j = i" by auto
    have "oid \<in> set g1"
      using scan_account_gone [OF _ assms(3,4)] one unfolding \<open>o' = oid\<close> \<open>j = i\<close> by blast
    with g show ?thesis by simp
  qed
qed simp

lemma scan_accounts_kept:
  assumes "scan_accounts L C watcher block now events ws w = (paid, gone, w')"
    and "distinct (map fst ws)" and "(oid, i) \<in> set ws" and "ts_millis (inv_death i) < now"
    and "\<And>p v fs. (p, v, fs) \<in> set events \<Longrightarrow> \<not> was_balance_received_at_account (inv_address i) fs"
  shows "oid \<notin> set paid \<and> oid \<notin> set gone"
  using assms(1,2,3)
proof (induction ws arbitrary: w paid gone w')
  case (Cons x ws)
  obtain o' j where x: "x = (o', j)" by fastforce
  obtain p1 g1 w1 where one: "scan_account L C watcher block now events o' j w = (p1, g1, w1)"
    by (metis prod_cases3)
  obtain p2 g2 w2 where rest: "scan_accounts L C watcher block now events ws w1 = (p2, g2, w2)"
    by (metis prod_cases3)
  have g: "gone = g1 @ g2" "paid = p1 @ p2" using Cons(2) one rest by (auto simp: x)
  have later: "oid \<notin> set p2 \<and> oid \<notin> set g2" if "oid \<notin> set (map fst ws)"
    using that rest
  proof (induction ws arbitrary: w1 p2 g2 w2)
    case (Cons y ws)
    then show ?case
      by (cases y) (fastforce dest: scan_account_paid split: prod.splits)
  qed simp
  show ?case
  proof (cases "(oid, i) \<in> set ws")
    case True
    with Cons(3) x have "o' \<noteq> oid" by force
    with Cons(1) [OF rest _ True] Cons(3) g scan_account_paid [OF one] show ?thesis by auto
  next
    case False
    with Cons(4) x have eq: "o' = oid" "j = i" by auto
    then have "oid \<notin> set (map fst ws)" using Cons(3) x by simp
    moreover have "p1 = [] \<and> g1 = []"
      using one assms(4,5) unfolding eq by (auto simp: scan_account_def split: if_splits)
    ultimately show ?thesis using later g by simp
  qed
qed simp

lemma on_new_block_scanned:
  assumes "on_new_block L C watcher now number ws w = (GoOn, out, ws', w')"
  obtains block events paid gone w2 w3 where
    "transfer_events L C block (w_metadata watcher) w2 = (Inr events, w3)"
    "scan_accounts L C watcher block now events ws w3 = (paid, gone, w')"
    "out = map OrderPaid paid" "ws' = remove_ids gone ws"
  using assms by (auto simp: on_new_block_def
      split: prod.splits sum.splits events_outcome.splits if_splits)

text \<open>C22. After a block was processed, no invoice whose death still lies ahead is watched any longer,
  provided its balance could be read: paid or not, it is dropped.\<close>

theorem live_invoice_dropped:
  assumes "on_new_block L C watcher now number ws w = (GoOn, out, ws', w')"
    and "(oid, i) \<in> set ws" and "now \<le> ts_millis (inv_death i)"
    and "\<And>block w. \<exists>p w'. invoice_check L C watcher block i w = (Inr p, w')"
  shows "oid \<notin> fst ` set ws'"
proof -
  from on_new_block_scanned [OF assms(1)] obtain block events paid gone w3 where
    sc: "scan_accounts L C watcher block now events ws w3 = (paid, gone, w')" "ws' = remove_ids gone ws"
    by metis
  from scan_accounts_gone [OF sc(1) assms(2,3,4)] sc(2) show ?thesis
    by (auto simp: remove_ids_def)
qed

theorem live_invoice_dropped_witness:
  "''c'' \<notin> fst ` set [(''b'', toy_invoice ''b'' [2] 7 50)]"
proof (rule live_invoice_dropped [OF toy_new_block, of _ "toy_invoice ''c'' [2] 8 90"])
  show "\<exists>p w'. invoice_check toy_lib toy_client toy_watcher block (toy_invoice ''c'' [2] 8 90) w =
      (Inr p, w')" for block w
    using toy_check [of block "''c''" "[2]" 8 90] by (cases w) auto
qed (simp_all add: toy_invoice_def)

text \<open>An invoice whose death has passed stays under watch through a processed block as long as no
  transfer to its account is seen in it, and no payment is reported of it, whatever its balance.\<close>

theorem expired_invoice_kept:
  assumes "on_new_block L C watcher now number ws w = (GoOn, out, ws', w')"
    and "distinct (map fst ws)" and "(oid, i) \<in> set ws" and "ts_millis (inv_death i) < now"
    and "\<And>block w2 events w3 p v fs.
      transfer_events L C block (w_metadata watcher) w2 = (Inr events, w3) \<Longrightarrow>
      (p, v, fs) \<in> set events \<Longrightarrow> \<not> was_balance_received_at_account (inv_address i) fs"
  shows "(oid, i) \<in> set ws' \<and> OrderPaid oid \<notin> set out"
proof -
  from on_new_block_scanned [OF assms(1)] obtain block events paid gone w2 w3 where
    sc: "transfer_events L C block (w_metadata watcher) w2 = (Inr events, w3)"
      "scan_accounts L C watcher block now events ws w3 = (paid, gone, w')"
      "out = map OrderPaid paid" "ws' = remove_ids gone ws"
    by metis
  from scan_accounts_kept [OF sc(2) assms(2,3,4) assms(5) [OF sc(1)]] sc(3,4) assms(3)
  show ?thesis by (auto simp: remove_ids_def)
qed

theorem expired_invoice_kept_witness:
  "(''b'', toy_invoice ''b'' [2] 7 50) \<in> set [(''b'', toy_invoice ''b'' [2] 7 50)] \<and>
    OrderPaid ''b'' \<notin> set [OrderPaid ''a'']"
proof (rule expired_invoice_kept [OF toy_new_block])
  fix block events p v fs and w2 w3 :: unit
  assume "transfer_events toy_lib toy_client block (w_metadata toy_watcher) w2 = (Inr events, w3)"
    and "(p, v, fs) \<in> set events"
  then show "\<not> was_balance_received_at_account (inv_address (toy_invoice ''b'' [2] 7 50)) fs"
    using toy_events [of block]
    by (cases w2) (auto simp: toy_watcher_def was_balance_received_at_account_def toy_invoice_def)
qed (simp_all add: toy_invoice_def)

text \<open>A node that fails to tell its runtime version ends the watcher for good: no later input is
  served, while failures to give the block hash or the events only switch to the next endpoint.\<close>

theorem version_failure_ends_watcher:
  assumes "phase s = Serving C watcher endpoint"
    and "block_hash_at L C (Some number) w = (Inr block, w1)"
    and "runtime_version_identifier L C block w1 = (Inl e, w2)"
  shows "\<exists>s'. tracker_step L connect chain (Receive now (TrackNewBlock number)) s w = Some (s', [], w2) \<and>
    phase s' = Ended (EndErr e) \<and> (\<forall>x w3. tracker_step L connect chain x s' w3 = None)"
proof -
  let ?s = "s\<lparr>watching := watching s, phase := Ended (EndErr e)\<rparr>"
  have "tracker_step L connect chain (Receive now (TrackNewBlock number)) s w = Some (?s, [], w2)"
    using assms by (simp add: on_new_block_def)
  moreover have "tracker_step L connect chain x ?s w3 = None" for x w3
  proof (cases x)
    case (Receive t req)
    then show ?thesis by (cases req) auto
  qed auto
  ultimately show ?thesis by auto
qed

definition deaf_client :: "unit client" where
  "deaf_client = toy_client\<lparr>request := (\<lambda>name params w.
     if name = ''state_getRuntimeVersion'' then (Inl ''timeout'', w) else (toy_request name params, w))\<rparr>"

theorem version_failure_ends_watcher_witness:
  "\<exists>s'. tracker_step toy_lib toy_connect toy_chain (Receive 60 (TrackNewBlock ''0x11''))
      \<lparr>phase = Serving deaf_client toy_watcher ''ws://toy'', next_endpoint = 1, watching = [],
        shutting_down = False\<rparr> () = Some (s', [], ()) \<and>
    phase s' = Ended (EndErr (Client ''timeout''))"
proof -
  have hash: "block_hash_at toy_lib deaf_client (Some ''0x11'') () = (Inr toy_block, ())"
    by (simp add: deaf_client_def block_hash_at_def block_hash_from_str_def toy_defs toy_block_def)
  have ver: "runtime_version_identifier toy_lib deaf_client toy_block () = (Inl (Client ''timeout''), ())"
    by (simp add: deaf_client_def runtime_version_identifier_def toy_defs toy_block_def)
  have "phase \<lparr>phase = Serving deaf_client toy_watcher ''ws://toy'', next_endpoint = 1,
      watching = [], shutting_down = False\<rparr> = Serving deaf_client toy_watcher ''ws://toy''"
    by simp
  from version_failure_ends_watcher [OF this hash ver] show ?thesis by blast
qed

text \<open>Whatever the node answers, the events a block is searched for are native transfers only: an
  event of the \<open>Assets\<close> pallet never marks an account as having received anything.\<close>

theorem only_native_transfers_seen:
  assumes "transfer_events L C block m w = (Inr events, w')"
  shows "fst ` set events \<subseteq> {''Balances''} \<and> (fst \<circ> snd) ` set events \<subseteq> {''Transfer''}"
  using transfer_events_pass [OF assms] by (fastforce simp: BALANCES_def TRANSFER_def)

theorem only_native_transfers_seen_witness:
  "fst ` set [(''Balances'', ''Transfer'', [(Some ''from'', ParsedId [9]), (Some ''to'', ParsedId [1])])]
     \<subseteq> {''Balances''}"
  using only_native_transfers_seen [OF toy_events] by simp

text \<open>A shutdown request leaves the request loop, and the loop head then ends the task normally
  without trying another endpoint.\<close>

theorem shutdown_ends_watcher:
  assumes "phase s = Serving C watcher endpoint"
  shows "\<exists>s1. tracker_step L connect chain (Receive now TrackShutdown) s w = Some (s1, [], w) \<and>
    tracker_step L connect chain (TryEndpoint cancelled) s1 w = Some (s1\<lparr>phase := Ended EndOk\<rparr>, [], w)"
  using assms by simp

theorem shutdown_ends_watcher_witness:
  "\<exists>s1. tracker_step toy_lib toy_connect toy_chain (Receive 60 TrackShutdown)
      \<lparr>phase = Serving toy_client toy_watcher ''ws://toy'', next_endpoint = 1, watching = [],
        shutting_down = False\<rparr> () = Some (s1, [], ()) \<and>
    tracker_step toy_lib toy_connect toy_chain (TryEndpoint False) s1 () =
      Some (s1\<lparr>phase := Ended EndOk\<rparr>, [], ())"
  by (rule shutdown_ends_watcher) simp

section \<open>The round of the endpoints\<close>

text \<open>A failed attempt moves on to the next endpoint and keeps the accounts under watch.\<close>

lemma attempt:
  assumes "phase s = AtEndpoint" and "\<not> shutting_down s" and "endpoints chain \<noteq> []"
  shows "\<exists>s1 out w1. tracker_step L connect chain (TryEndpoint False) s w = Some (s1, out, w1) \<and>
    ((\<exists>C watcher e. phase s1 = Serving C watcher e) \<or>
     s1 = s\<lparr>next_endpoint := Suc (next_endpoint s)\<rparr> \<and>
     (\<forall>C v res v'. connect (endpoints chain ! (next_endpoint s mod length (endpoints chain))) w = (Some C, v) \<longrightarrow>
       prepare_chain L C chain (watching s) (endpoints chain ! (next_endpoint s mod length (endpoints chain))) v
         \<noteq> (Inr res, v')))"
  using assms by (auto simp: Let_def split: option.split prod.split sum.split)

lemma round_reaches:
  fixes w :: 'w
  assumes good: "\<forall>v. \<exists>C v' res v''. connect (endpoints chain ! k) v = (Some C, v') \<and>
      prepare_chain L C chain ws (endpoints chain ! k) v' = (Inr res, v'')"
    and k: "k < length (endpoints chain)"
  shows "phase s = AtEndpoint \<Longrightarrow> \<not> shutting_down s \<Longrightarrow> watching s = ws \<Longrightarrow>
    (next_endpoint s + m) mod length (endpoints chain) = k \<Longrightarrow>
    \<exists>n s' out w' (C :: 'w client) watcher e. n \<le> Suc m \<and>
      tracker_run L connect chain s w (replicate n (TryEndpoint False)) out s' w' \<and> phase s' = Serving C watcher e"
proof (induction m arbitrary: s w)
  case (0 s w)
  from k have "endpoints chain \<noteq> []" by auto
  from attempt [OF 0(1,2) this, of L connect w] obtain s1 out w1 where
    step: "tracker_step L connect chain (TryEndpoint False) s w = Some (s1, out, w1)" and
    "\<exists>C watcher e. phase s1 = Serving C watcher e"
    using good 0(3,4) by fastforce
  then obtain C :: "'w client" and watcher e where "phase s1 = Serving C watcher e" by blast
  with tracker_run.step [OF step tracker_run.stop] show ?case
    by (intro exI [of _ "1 :: nat"] exI [of _ s1] exI [of _ out] exI [of _ w1] exI [of _ C] exI) simp
next
  case (Suc m s w)
  from k have "endpoints chain \<noteq> []" by auto
  from attempt [OF Suc.prems(1,2) this, of L connect w] obtain s1 out w1 where
    step: "tracker_step L connect chain (TryEndpoint False) s w = Some (s1, out, w1)" and
    s1: "(\<exists>C watcher e. phase s1 = Serving C watcher e) \<or> s1 = s\<lparr>next_endpoint := Suc (next_endpoint s)\<rparr>"
    by blast
  from s1 show ?case
  proof
    assume "\<exists>C watcher e. phase s1 = Serving C watcher e"
    then obtain C :: "'w client" and watcher e where "phase s1 = Serving C watcher e" by blast
    with tracker_run.step [OF step tracker_run.stop] show ?case
      by (intro exI [of _ "1 :: nat"] exI [of _ s1] exI [of _ out] exI [of _ w1] exI [of _ C] exI) simp
  next
    assume "s1 = s\<lparr>next_endpoint := Suc (next_endpoint s)\<rparr>"
    with Suc.IH [of s1 w1] Suc.prems obtain n s' out' w' and C :: "'w client" and watcher e where
      rest: "n \<le> Suc m" "tracker_run L connect chain s1 w1 (replicate n (TryEndpoint False)) out' s' w'"
        "phase s' = Serving C watcher e" by auto
    from tracker_run.step [OF step rest(2)]
    have "tracker_run L connect chain s w (replicate (Suc n) (TryEndpoint False)) (out @ out') s' w'" by simp
    with rest(1,3) show ?case by (intro exI conjI) (rule Suc_le_mono [THEN iffD2])
  qed
qed

text \<open>C36. A watcher that is not connected gets connected within one round of its endpoints, wherever in the
  list it stands and whatever the other endpoints do, provided one of them serves the configured chain
  whenever it is asked: failures only move it on, and none of them ends it.\<close>

theorem connected_within_one_round:
  fixes w :: 'w
  assumes "phase s = AtEndpoint" and "\<not> shutting_down s" and "k < length (endpoints chain)"
    and "\<forall>v. \<exists>C v' res v''. connect (endpoints chain ! k) v = (Some C, v') \<and>
      prepare_chain L C chain (watching s) (endpoints chain ! k) v' = (Inr res, v'')"
  shows "\<exists>n s' out w' (C :: 'w client) watcher e. n \<le> length (endpoints chain) \<and>
    tracker_run L connect chain s w (replicate n (TryEndpoint False)) out s' w' \<and> phase s' = Serving C watcher e"
proof -
  let ?n = "length (endpoints chain)"
  define m where "m = (k + (?n - next_endpoint s mod ?n)) mod ?n"
  have "(next_endpoint s + m) mod ?n = (next_endpoint s mod ?n + (k + (?n - next_endpoint s mod ?n))) mod ?n"
    unfolding m_def by (simp add: mod_simps)
  also have "next_endpoint s mod ?n + (k + (?n - next_endpoint s mod ?n)) = k + ?n"
    using assms(3) mod_less_divisor [of ?n "next_endpoint s"] by linarith
  also have "(k + ?n) mod ?n = k" using assms(3) by simp
  finally have "(next_endpoint s + m) mod ?n = k" .
  from round_reaches [where L = L and connect = connect and chain = chain and ws = "watching s" and s = s and k = k and m = m and w = w, OF assms(4,3,1,2) refl this]
  obtain n s' out w' and C :: "'w client" and watcher e where
    "n \<le> Suc m" "tracker_run L connect chain s w (replicate n (TryEndpoint False)) out s' w'"
    "phase s' = Serving C watcher e" by blast
  moreover have "m < ?n" unfolding m_def by (rule mod_less_divisor) (use assms(3) in linarith)
  ultimately show ?thesis using le_trans Suc_leI by blast
qed

text \<open>A chain whose first endpoint is down.\<close>

definition shaky_connect :: "string \<Rightarrow> unit \<Rightarrow> unit client option \<times> unit" where
  "shaky_connect endpoint w = (if endpoint = ''ws://down'' then None else Some toy_client, w)"

theorem connected_within_one_round_witness:
  "\<exists>n s' out (C :: unit client) watcher e. n \<le> 2 \<and>
    tracker_run toy_lib shaky_connect (toy_chain\<lparr>endpoints := [''ws://down'', ''ws://toy'']\<rparr>) tracker_start ()
      (replicate n (TryEndpoint False)) out s' () \<and> phase s' = Serving C watcher e"
proof -
  let ?chain = "toy_chain\<lparr>endpoints := [''ws://down'', ''ws://toy'']\<rparr>"
  have same: "wanted ?chain = wanted toy_chain" "chain_name ?chain = chain_name toy_chain"
      "assets ?chain = assets toy_chain" "native_token ?chain = native_token toy_chain"
    by (simp_all add: wanted_def fun_eq_iff toy_chain_def)
  have "prepare_chain toy_lib toy_client ?chain ws url = prepare_chain toy_lib toy_client toy_chain ws url" for ws url
    unfolding prepare_chain_def same ..
  then have good: "\<forall>v. \<exists>C v' res v''. shaky_connect (endpoints ?chain ! 1) v = (Some C, v') \<and>
      prepare_chain toy_lib C ?chain (watching tracker_start) (endpoints ?chain ! 1) v' = (Inr res, v'')"
    using toy_prepare_empty by (auto simp: shaky_connect_def tracker_start_def)
  have "phase tracker_start = AtEndpoint" "\<not> shutting_down tracker_start" "1 < length (endpoints ?chain)"
    by (simp_all add: tracker_start_def)
  from connected_within_one_round [where chain = ?chain and k = 1 and connect = shaky_connect and L = toy_lib
      and w = "()", OF this good] show ?thesis by (simp add: numeral_2_eq_2)
qed

end
