(* ===== verification/Chain_Manager.thy ===== *)
theory Chain_Manager
  imports Toy_Node
begin

text \<open>
  The chain manager of \<open>src/chain/mod.rs\<close>: it starts one watcher per configured chain, keeps the
  two maps from currencies to chain names and from chain names to watchers, and routes the
  requests of the rest of the daemon. A watcher's channel is named by the position of its chain
  in the configuration.
\<close>

section \<open>Ignition\<close>

record manager =
  watch_chain :: "(string \<times> nat) list"
  currency_chain :: "(string \<times> string) list"

definition currency_names :: "chain_config \<Rightarrow> string list" where
  "currency_names c = (case native_token c of Some t \<Rightarrow> [native_name t] | None \<Rightarrow> []) @
     map asset_name (assets c)"

text \<open>\<open>if let Some(_) = currency_map.insert(name, chain) { return Err(DuplicateCurrency(name)) }\<close>\<close>

fun add_currencies ::
    "string \<Rightarrow> string list \<Rightarrow> (string \<times> string) list \<Rightarrow> error + (string \<times> string) list" where
  "add_currencies chain [] cm = Inr cm"
| "add_currencies chain (name # names) cm =
     (if map_of cm name \<noteq> None then Inl (DuplicateCurrency name)
      else add_currencies chain names ((name, chain) # cm))"

fun ignite_from :: "nat \<Rightarrow> chain_config list \<Rightarrow> manager \<Rightarrow> error + manager" where
  "ignite_from n [] m = Inr m"
| "ignite_from n (c # cs) m =
     (if endpoints c = [] then Inl (EmptyEndpoints (chain_name c))
      else and_then (add_currencies (chain_name c) (currency_names c) (currency_chain m)) (\<lambda>cm.
        ignite_from (Suc n) cs \<lparr>watch_chain = AList.update (chain_name c) n (watch_chain m),
          currency_chain = cm\<rparr>))"

definition ignite :: "chain_config list \<Rightarrow> error + manager" where
  "ignite config = ignite_from 0 config \<lparr>watch_chain = [], currency_chain = []\<rparr>"

section \<open>Requests\<close>

datatype chain_request =
    ManageWatch watch_account
  | ManageReap watch_account
  | ManageShutdown

text \<open>A request is forwarded to a watcher or answered by the manager itself.\<close>

datatype manager_action =
    Forward nat tracker_request
  | Refuse chain_error
  | StopAll "nat list"

definition route :: "manager \<Rightarrow> string \<Rightarrow> chain_error + nat" where
  "route m currency = (case map_of (currency_chain m) currency of
     Some chain \<Rightarrow> (case map_of (watch_chain m) chain of
         Some receiver \<Rightarrow> Inr receiver
       | None \<Rightarrow> Inl (InvalidChain chain))
   | None \<Rightarrow> Inl (InvalidCurrency currency))"

fun manage :: "manager \<Rightarrow> chain_request \<Rightarrow> manager_action \<times> manager option" where
  "manage m (ManageWatch a) = ((case route m (inv_currency (watch_invoice a)) of
     Inr receiver \<Rightarrow> Forward receiver (TrackWatch a) | Inl e \<Rightarrow> Refuse e), Some m)"
| "manage m (ManageReap a) = ((case route m (inv_currency (watch_invoice a)) of
     Inr receiver \<Rightarrow> Forward receiver (TrackReap a) | Inl e \<Rightarrow> Refuse e), Some m)"
| "manage m ManageShutdown = (StopAll (map snd (watch_chain m)), None)"

text \<open>
  \<open>add_invoice\<close> and \<open>reap\<close> of the handle: build the request, send it to the manager (\<open>None\<close> when
  its task has ended) and wait for the acknowledgement; \<open>ack\<close> tells whether a watcher takes a
  request that was forwarded to it, a dropped one is \<open>MessageDropped\<close>.
\<close>

definition manager_call ::
    "(nat \<Rightarrow> tracker_request \<Rightarrow> bool) \<Rightarrow> manager option \<Rightarrow> chain_request
      \<Rightarrow> (chain_error + unit) \<times> (nat \<times> tracker_request) list" where
  "manager_call ack m req = (case m of
     None \<Rightarrow> (Inl MessageDropped, [])
   | Some mm \<Rightarrow> (case fst (manage mm req) of
       Forward receiver fwd \<Rightarrow>
         (if ack receiver fwd then Inr () else Inl MessageDropped, [(receiver, fwd)])
     | Refuse e \<Rightarrow> (Inl e, [])
     | StopAll _ \<Rightarrow> (Inr (), [])))"

definition add_invoice ::
    "('p, 'g, 'w) crypto_env \<Rightarrow> (nat \<Rightarrow> tracker_request \<Rightarrow> bool) \<Rightarrow> manager option \<Rightarrow> string
      \<Rightarrow> order_info \<Rightarrow> account \<Rightarrow> (chain_error + unit) \<times> (nat \<times> tracker_request) list" where
  "add_invoice Cr ack m oid order recipient = (case watch_account_new Cr oid order recipient of
     Inl e \<Rightarrow> (Inl e, []) | Inr a \<Rightarrow> manager_call ack m (ManageWatch a))"

definition reap ::
    "('p, 'g, 'w) crypto_env \<Rightarrow> (nat \<Rightarrow> tracker_request \<Rightarrow> bool) \<Rightarrow> manager option \<Rightarrow> string
      \<Rightarrow> order_info \<Rightarrow> account \<Rightarrow> (chain_error + unit) \<times> (nat \<times> tracker_request) list" where
  "reap Cr ack m oid order recipient = (case watch_account_new Cr oid order recipient of
     Inl e \<Rightarrow> (Inl e, []) | Inr a \<Rightarrow> manager_call ack m (ManageReap a))"

definition manager_shutdown :: "manager option \<Rightarrow> nat list \<times> manager option" where
  "manager_shutdown m = (case m of
     None \<Rightarrow> ([], None)
   | Some mm \<Rightarrow> (case manage mm ManageShutdown of (StopAll ws, m') \<Rightarrow> (ws, m') | (_, m') \<Rightarrow> ([], m')))"

section \<open>Lemmas\<close>

lemma add_currencies_ok:
  "add_currencies chain names cm = Inr cm' \<Longrightarrow> distinct (map fst cm) \<Longrightarrow>
     distinct (map fst cm') \<and> distinct names \<and> set names \<inter> fst ` set cm = {} \<and>
     set cm' = set cm \<union> {(n, chain) |n. n \<in> set names}"
proof (induction chain names cm rule: add_currencies.induct)
  case (2 chain name names cm)
  from 2(2) have new: "map_of cm name = None" and
    rest: "add_currencies chain names ((name, chain) # cm) = Inr cm'"
    by (auto split: if_splits)
  then have "name \<notin> fst ` set cm" by (simp add: map_of_eq_None_iff)
  with 2(1) [OF _ rest] new 2(3) show ?case by auto
qed simp

lemma ignite_from_currencies:
  "ignite_from n cs m = Inr m' \<Longrightarrow> distinct (map fst (currency_chain m)) \<Longrightarrow>
     distinct (map fst (currency_chain m')) \<and> distinct (concat (map currency_names cs)) \<and>
     set (concat (map currency_names cs)) \<inter> fst ` set (currency_chain m) = {} \<and>
     set (currency_chain m') = set (currency_chain m) \<union>
       {(cur, chain_name c) |cur c. c \<in> set cs \<and> cur \<in> set (currency_names c)}"
proof (induction n cs m rule: ignite_from.induct)
  case (2 n c cs m)
  from 2(2) obtain cm where
    cm: "add_currencies (chain_name c) (currency_names c) (currency_chain m) = Inr cm" and
    rest: "ignite_from (Suc n) cs \<lparr>watch_chain = AList.update (chain_name c) n (watch_chain m),
          currency_chain = cm\<rparr> = Inr m'" and ne: "endpoints c \<noteq> []"
    by (auto simp: and_then_Inr_iff split: if_splits)
  note one = add_currencies_ok [OF cm 2(3)]
  from one 2(1) [OF ne _ , of cm] rest cm
  have ih: "distinct (map fst (currency_chain m')) \<and> distinct (concat (map currency_names cs)) \<and>
     set (concat (map currency_names cs)) \<inter> fst ` set cm = {} \<and>
     set (currency_chain m') = set cm \<union>
       {(cur, chain_name c) |cur c. c \<in> set cs \<and> cur \<in> set (currency_names c)}"
    by simp
  from one have eq: "set cm = set (currency_chain m) \<union> {(n, chain_name c) |n. n \<in> set (currency_names c)}"
    and names: "distinct (currency_names c)" "set (currency_names c) \<inter> fst ` set (currency_chain m) = {}"
    by blast+
  have "fst ` {(n, chain_name c) |n. n \<in> set (currency_names c)} = set (currency_names c)"
    by (auto simp: image_iff)
  then have keys: "fst ` set cm = fst ` set (currency_chain m) \<union> set (currency_names c)"
    unfolding eq by (simp add: image_Un)
  have "distinct (concat (map currency_names (c # cs)))"
    using ih names(1) keys by auto
  moreover have "set (concat (map currency_names (c # cs))) \<inter> fst ` set (currency_chain m) = {}"
    using ih names(2) keys by auto
  moreover have "set (currency_chain m') = set (currency_chain m) \<union>
      {(cur, chain_name d) |cur d. d \<in> set (c # cs) \<and> cur \<in> set (currency_names d)}"
    using ih eq by auto
  ultimately show ?case using ih by blast
qed simp

text \<open>The position of the last chain of a name, counting from \<open>n\<close>.\<close>

fun last_named :: "string \<Rightarrow> nat \<Rightarrow> chain_config list \<Rightarrow> nat option" where
  "last_named name n [] = None"
| "last_named name n (c # cs) = (case last_named name (Suc n) cs of
     Some k \<Rightarrow> Some k | None \<Rightarrow> if chain_name c = name then Some n else None)"

lemma last_named_None: "last_named name n cs = None \<longleftrightarrow> (\<forall>c \<in> set cs. chain_name c \<noteq> name)"
  by (induction name n cs rule: last_named.induct) (auto split: option.splits)

lemma last_named_Some:
  "last_named name n cs = Some k \<Longrightarrow> n \<le> k \<and> k - n < length cs \<and> chain_name (cs ! (k - n)) = name \<and>
     (\<forall>l. k - n < l \<and> l < length cs \<longrightarrow> chain_name (cs ! l) \<noteq> name)"
proof (induction name n cs arbitrary: k rule: last_named.induct)
  case (2 name n c cs)
  show ?case
  proof (cases "last_named name (Suc n) cs")
    case None
    with 2(2) have "k = n" "chain_name c = name" by (auto split: if_splits)
    with None show ?thesis by (auto simp: last_named_None nth_Cons split: nat.splits)
  next
    case (Some k')
    with 2(2) have "k' = k" by simp
    from 2(1) [OF Some] this have ih: "Suc n \<le> k" "k - Suc n < length cs"
        "chain_name (cs ! (k - Suc n)) = name"
        "\<forall>l. k - Suc n < l \<and> l < length cs \<longrightarrow> chain_name (cs ! l) \<noteq> name"
      by auto
    have "k - n = Suc (k - Suc n)" using ih(1) by simp
    with ih show ?thesis by (auto simp: less_Suc_eq_0_disj nth_Cons split: nat.splits)
  qed
qed simp

lemma ignite_from_watch:
  "ignite_from n cs m = Inr m' \<Longrightarrow>
     map_of (watch_chain m') name = (case last_named name n cs of
       Some k \<Rightarrow> Some k | None \<Rightarrow> map_of (watch_chain m) name)"
  by (induction n cs m rule: ignite_from.induct)
    (auto simp: and_then_Inr_iff update_conv' split: if_splits option.splits)

section \<open>Properties\<close>

text \<open>When ignition succeeds every chain has an endpoint and no currency is configured twice, on one
  chain or on two, and the other way round.\<close>

theorem ignite_accepts:
  "(\<exists>m. ignite config = Inr m) \<longleftrightarrow>
     [] \<notin> endpoints ` set config \<and> distinct (concat (map currency_names config))"
proof
  assume "\<exists>m. ignite config = Inr m"
  then obtain m where m: "ignite config = Inr m" ..
  have "ignite_from n cs m0 = Inr m' \<Longrightarrow> [] \<notin> endpoints ` set cs" for n cs m0 m'
    by (induction n cs m0 rule: ignite_from.induct) (auto simp: and_then_Inr_iff split: if_splits)
  with ignite_from_currencies [OF m [unfolded ignite_def]] m
  show "[] \<notin> endpoints ` set config \<and> distinct (concat (map currency_names config))"
    unfolding ignite_def by auto
next
  have add: "\<exists>cm'. add_currencies chain names cm = Inr cm' \<and>
      fst ` set cm' = fst ` set cm \<union> set names"
    if "distinct names" "set names \<inter> fst ` set cm = {}" for chain names cm
    using that
  proof (induction chain names cm rule: add_currencies.induct)
    case (2 chain name names cm)
    then have "map_of cm name = None" by (auto simp: map_of_eq_None_iff)
    moreover have "set names \<inter> fst ` set ((name, chain) # cm) = {}" using 2(2,3) by auto
    ultimately show ?case using 2(1) 2(2) by auto
  qed simp
  have "\<exists>m'. ignite_from n cs m0 = Inr m'"
    if "[] \<notin> endpoints ` set cs" "distinct (concat (map currency_names cs))"
      "set (concat (map currency_names cs)) \<inter> fst ` set (currency_chain m0) = {}" for n cs m0
    using that
  proof (induction n cs m0 rule: ignite_from.induct)
    case (2 n c cs m0)
    from add [of "currency_names c" "currency_chain m0" "chain_name c"] 2(3,4)
    obtain cm where cm: "add_currencies (chain_name c) (currency_names c) (currency_chain m0) = Inr cm"
        "fst ` set cm = fst ` set (currency_chain m0) \<union> set (currency_names c)"
      by auto
    have "\<exists>m'. ignite_from (Suc n) cs \<lparr>watch_chain = AList.update (chain_name c) n (watch_chain m0),
        currency_chain = cm\<rparr> = Inr m'"
      by (rule 2(1)) (use 2(2-4) cm in auto)
    with cm(1) 2(2) show ?case by auto
  qed simp
  then show "\<exists>m. ignite config = Inr m"
    if "[] \<notin> endpoints ` set config \<and> distinct (concat (map currency_names config))"
    using that by (simp add: ignite_def)
qed

text \<open>After a successful ignition every configured currency is routed to a watcher: the one of the last
  chain that bears the name of the chain the currency is configured on. With distinct chain
  names that is the currency's own chain.\<close>

theorem currency_routed:
  assumes "ignite config = Inr m" and "j < length config" and "cur \<in> set (currency_names (config ! j))"
  shows "\<exists>k. route m cur = Inr k \<and> k < length config \<and> j \<le> k \<and>
    chain_name (config ! k) = chain_name (config ! j) \<and>
    (\<forall>l. k < l \<and> l < length config \<longrightarrow> chain_name (config ! l) \<noteq> chain_name (config ! j)) \<and>
    (distinct (map chain_name config) \<longrightarrow> k = j)"
proof -
  note cs = ignite_from_currencies [OF assms(1) [unfolded ignite_def], simplified]
  have "(cur, chain_name (config ! j)) \<in> set (currency_chain m)"
    using cs assms(2,3) by auto
  then have cur: "map_of (currency_chain m) cur = Some (chain_name (config ! j))"
    using cs by simp
  have "last_named (chain_name (config ! j)) 0 config \<noteq> None"
    using assms(2) by (auto simp: last_named_None)
  then obtain k where k: "last_named (chain_name (config ! j)) 0 config = Some k" by blast
  have watch: "map_of (watch_chain m) (chain_name (config ! j)) = Some k"
    using ignite_from_watch [OF assms(1) [unfolded ignite_def]] k by simp
  from last_named_Some [OF k] have last: "k < length config"
      "chain_name (config ! k) = chain_name (config ! j)"
      "\<forall>l. k < l \<and> l < length config \<longrightarrow> chain_name (config ! l) \<noteq> chain_name (config ! j)"
    by auto
  have "j \<le> k"
  proof (rule ccontr)
    assume "\<not> j \<le> k"
    then have "k < j" by simp
    with last(3) [rule_format, of j] assms(2) show False by simp
  qed
  moreover have "k = j" if "distinct (map chain_name config)"
    using that last(1,2) assms(2) by (simp add: distinct_conv_nth) metis
  ultimately show ?thesis using cur watch last by (auto simp: route_def)
qed

text \<open>Two chains of one name: the currency of the first is routed to the watcher of the second.\<close>

theorem currency_routed_witness:
  "\<exists>m. ignite [toy_chain, toy_chain\<lparr>native_token := None,
      assets := [\<lparr>asset_name = ''USDt'', asset_id = 1984\<rparr>]\<rparr>] = Inr m \<and> route m ''TOY'' = Inr 1"
proof -
  let ?second = "toy_chain\<lparr>native_token := None, assets := [\<lparr>asset_name = ''USDt'', asset_id = 1984\<rparr>]\<rparr>"
  have "\<exists>m. ignite [toy_chain, ?second] = Inr m"
    by (simp add: ignite_def toy_chain_def currency_names_def)
  then obtain m where m: "ignite [toy_chain, ?second] = Inr m" ..
  have "''TOY'' \<in> set (currency_names ([toy_chain, ?second] ! 0))"
    by (simp add: toy_chain_def currency_names_def)
  from currency_routed [OF m _ this] obtain k where k: "route m ''TOY'' = Inr k"
      "k < length [toy_chain, ?second]"
      "\<forall>l. k < l \<and> l < length [toy_chain, ?second] \<longrightarrow>
        chain_name ([toy_chain, ?second] ! l) \<noteq> chain_name ([toy_chain, ?second] ! 0)"
    by auto
  have "k \<noteq> 0" using k(3) [rule_format, of 1] by (auto simp: toy_chain_def)
  with k(2) have "k = 1" by simp
  with m k(1) show ?thesis by blast
qed

text \<open>A currency that is not configured is refused with \<open>InvalidCurrency\<close>, for watching and for
  paying out, and no watcher hears of the request.\<close>

theorem unknown_currency_refused:
  assumes "ignite config = Inr m" and "cur \<notin> \<Union> (set ` currency_names ` set config)"
    and "inv_currency (watch_invoice a) = cur"
  shows "manager_call ack (Some m) (ManageWatch a) = (Inl (InvalidCurrency cur), []) \<and>
    manager_call ack (Some m) (ManageReap a) = (Inl (InvalidCurrency cur), [])"
proof -
  have "cur \<notin> fst ` set (currency_chain m)"
    using ignite_from_currencies [OF assms(1) [unfolded ignite_def]] assms(2) by force
  then have "map_of (currency_chain m) cur = None" by (simp add: map_of_eq_None_iff)
  then have "route m cur = Inl (InvalidCurrency cur)" by (simp add: route_def)
  with assms(3) show ?thesis by (simp add: manager_call_def)
qed

theorem unknown_currency_refused_witness:
  "\<exists>m. ignite [toy_chain] = Inr m \<and> manager_call (\<lambda>_ _. True) (Some m)
      (ManageWatch (WatchAccount ((toy_invoice ''a'' [1] 7 50)\<lparr>inv_currency := ''BTC''\<rparr>))) =
    (Inl (InvalidCurrency ''BTC''), [])"
proof -
  have "\<exists>m. ignite [toy_chain] = Inr m"
    by (simp add: ignite_def toy_chain_def currency_names_def)
  then obtain m where m: "ignite [toy_chain] = Inr m" ..
  with unknown_currency_refused [OF m, of "''BTC''"] show ?thesis
    by (simp add: toy_chain_def currency_names_def)
qed

end
