(* ===== verification/Kalatori_State.thy ===== *)
theory Kalatori_State
  imports Database_Properties Chain_Manager
begin

text \<open>
  The state handler of \<open>src/state.rs\<close>: the one task through which the web server and the chain
  watchers reach the order book, the signer and the chain manager. The state holds those
  components' own states, so an operation here is composed of theirs the way the source composes
  them; what it sends to the watchers is collected.
\<close>

section \<open>The state\<close>

record ('t, 'v, 'p, 'g, 'w) daemon_env =
  de_db :: "('t, 'v) db_env"
  de_life :: timestamp
  de_crypto :: "('p, 'g, 'w) crypto_env"
  de_ack :: "nat \<Rightarrow> tracker_request \<Rightarrow> bool"

datatype handler_task = HandlerRuns | HandlerDone | HandlerFailed error

record 't daemon =
  currencies :: "string \<rightharpoonup> currency_properties"
  recipient :: account
  server_info :: server_info
  db :: "'t db_state"
  chain_manager :: "manager option"
  signer :: signer_state
  handler :: handler_task

type_synonym sent = "(nat \<times> tracker_request) list"

definition SPEC_SS58 :: u16 where
  "SPEC_SS58 = 2"

section \<open>Operations\<close>

definition update_currencies :: "currency_map \<Rightarrow> 't daemon \<Rightarrow> 't daemon" where
  "update_currencies cs d = d\<lparr>currencies := currencies d ++ map_of cs\<rparr>"

definition order_status ::
    "('t, 'v, 'p, 'g, 'w) daemon_env \<Rightarrow> 't daemon \<Rightarrow> string \<Rightarrow> order_info \<Rightarrow> string \<Rightarrow> order_status" where
  "order_status D d order x msg = \<lparr>status_order = order, status_message = msg,
     status_recipient = account_to_base58 (de_crypto D) (recipient d) SPEC_SS58,
     status_server_info = server_info d, status_order_info = x, payment_page = [],
     redirect_url = []\<rparr>"

definition get_invoice_status ::
    "('t, 'v, 'p, 'g, 'w) daemon_env \<Rightarrow> db_tick \<Rightarrow> string \<Rightarrow> 't daemon
      \<Rightarrow> (error + order_response) \<times> 't daemon" where
  "get_invoice_status D k order d = (case call_read_order (de_db D) (de_life D) k order (db d) of
     (Inl e, db') \<Rightarrow> (Inl (ErrDb e), d\<lparr>db := db'\<rparr>)
   | (Inr (Some x), db') \<Rightarrow> (Inr (FoundOrder (order_status D d order x [])), d\<lparr>db := db'\<rparr>)
   | (Inr None, db') \<Rightarrow> (Inr NotFound, d\<lparr>db := db'\<rparr>))"

definition already_processed :: string where
  "already_processed = ''Order with this ID was already processed''"

definition create_invoice ::
    "('t, 'v, 'p, 'g, 'w) daemon_env \<Rightarrow> db_tick \<Rightarrow> order_query \<Rightarrow> 't daemon
      \<Rightarrow> (error + order_response) \<times> 't daemon \<times> sent" where
  "create_invoice D k q d =
     (let order = query_order q in
      case currencies d (query_currency q) of
        None \<Rightarrow> (Inl (ErrOrder UnknownCurrency), d, [])
      | Some p \<Rightarrow>
         (let currency = info p (query_currency q) in
          case signer_public (de_crypto D) (recipient d) (signer d) order (ci_ss58 currency) of
            Inl e \<Rightarrow> (Inl (ErrSigner e), d, [])
          | Inr payment_acc \<Rightarrow>
             (case call_create_order (de_db D) (de_life D) k order q currency payment_acc (db d) of
                (Inl e, db') \<Rightarrow> (Inl (ErrDb e), d\<lparr>db := db'\<rparr>, [])
              | (Inr (New x), db') \<Rightarrow>
                  (case add_invoice (de_crypto D) (de_ack D) (chain_manager d) order x (recipient d) of
                     (Inl e, out) \<Rightarrow> (Inl (ErrChain e), d\<lparr>db := db'\<rparr>, out)
                   | (Inr _, out) \<Rightarrow>
                       (Inr (NewOrder (order_status D d order x [])), d\<lparr>db := db'\<rparr>, out))
              | (Inr (Modified x), db') \<Rightarrow>
                  (Inr (ModifiedOrder (order_status D d order x [])), d\<lparr>db := db'\<rparr>, [])
              | (Inr (Collision x), db') \<Rightarrow>
                  (Inr (CollidedOrder (order_status D d order x already_processed)),
                   d\<lparr>db := db'\<rparr>, []))))"

text \<open>\<open>OrderPaid\<close>: record the payment first; only then have the order reaped, whatever comes of it.\<close>

definition order_paid ::
    "('t, 'v, 'p, 'g, 'w) daemon_env \<Rightarrow> db_tick \<Rightarrow> string \<Rightarrow> 't daemon \<Rightarrow> 't daemon \<times> sent" where
  "order_paid D k oid d = (case call_mark_paid (de_db D) (de_life D) k oid (db d) of
     (Inr x, db') \<Rightarrow> (d\<lparr>db := db'\<rparr>,
       snd (reap (de_crypto D) (de_ack D) (chain_manager d) oid x (recipient d)))
   | (Inl _, db') \<Rightarrow> (d\<lparr>db := db'\<rparr>, []))"

section \<open>The handler task\<close>

datatype state_request =
    SConnectChain currency_map
  | SGetInvoiceStatus string
  | SCreateInvoice order_query
  | SIsCurrencySupported string
  | SServerStatus
  | SOrderPaid string

datatype state_reply =
    OrderReply "error + order_response"
  | SupportedReply bool
  | StatusReply server_status

text \<open>\<open>.send(..).map_err(|_| Error::Fatal)?\<close>: when the caller no longer waits (\<open>alive\<close> is false) the
  reply cannot be delivered and the task ends with \<open>Fatal\<close>.\<close>

definition deliver :: "bool \<Rightarrow> state_reply \<Rightarrow> 't daemon \<Rightarrow> state_reply option \<times> 't daemon" where
  "deliver alive r d = (if alive then (Some r, d) else (None, d\<lparr>handler := HandlerFailed Fatal\<rparr>))"

fun state_step ::
    "('t, 'v, 'p, 'g, 'w) daemon_env \<Rightarrow> db_tick \<Rightarrow> bool \<Rightarrow> state_request \<Rightarrow> 't daemon
      \<Rightarrow> state_reply option \<times> 't daemon \<times> sent" where
  "state_step D k alive (SConnectChain cs) d = (None, update_currencies cs d, [])"
| "state_step D k alive (SGetInvoiceStatus order) d =
     (case get_invoice_status D k order d of (r, d') \<Rightarrow>
       (case deliver alive (OrderReply r) d' of (reply, d'') \<Rightarrow> (reply, d'', [])))"
| "state_step D k alive (SCreateInvoice q) d =
     (case create_invoice D k q d of (r, d', out) \<Rightarrow>
       (case deliver alive (OrderReply r) d' of (reply, d'') \<Rightarrow> (reply, d'', out)))"
| "state_step D k alive (SIsCurrencySupported currency) d =
     (case deliver alive (SupportedReply (currencies d currency \<noteq> None)) d of
        (reply, d') \<Rightarrow> (reply, d', []))"
| "state_step D k alive SServerStatus d =
     (case deliver alive (StatusReply \<lparr>ss_server_info = server_info d,
         supported_currencies = currencies d\<rparr>) d of (reply, d') \<Rightarrow> (reply, d', []))"
| "state_step D k alive (SOrderPaid oid) d =
     (case order_paid D k oid d of (d', out) \<Rightarrow> (None, d', out))"

text \<open>The shutdown: the chain manager and its watchers, then the database, then the signer.\<close>

definition state_shutdown ::
    "('t, 'v, 'p, 'g, 'w) daemon_env \<Rightarrow> db_tick \<Rightarrow> 't daemon \<Rightarrow> 't daemon \<times> nat list" where
  "state_shutdown D k d =
     (case manager_shutdown (chain_manager d) of (stopped, m) \<Rightarrow>
       (d\<lparr>chain_manager := m, db := call_shutdown (de_db D) (de_life D) k (db d),
          signer := signer_shutdown (de_crypto D) (recipient d) (signer d),
          handler := HandlerDone\<rparr>, stopped))"

text \<open>
  The biased \<open>select!\<close>: a queued request is taken before the cancellation is looked at. One
  event of a run is a request, with what the world supplies while it is served, or the
  cancellation seen with an empty queue.
\<close>

datatype state_event = Request db_tick bool state_request | Cancelled db_tick

fun on_event ::
    "('t, 'v, 'p, 'g, 'w) daemon_env \<Rightarrow> state_event \<Rightarrow> 't daemon
      \<Rightarrow> state_reply option \<times> 't daemon \<times> sent" where
  "on_event D (Request k alive req) d =
     (if handler d = HandlerRuns then state_step D k alive req d else (None, d, []))"
| "on_event D (Cancelled k) d =
     (if handler d = HandlerRuns then (None, fst (state_shutdown D k d), []) else (None, d, []))"

fun state_run ::
    "('t, 'v, 'p, 'g, 'w) daemon_env \<Rightarrow> state_event list \<Rightarrow> 't daemon
      \<Rightarrow> state_reply option list \<times> 't daemon \<times> sent" where
  "state_run D [] d = ([], d, [])"
| "state_run D (ev # evs) d = (case on_event D ev d of (r, d', out) \<Rightarrow>
     (case state_run D evs d' of (rs, d'', outs) \<Rightarrow> (r # rs, d'', out @ outs)))"

text \<open>
  The start: the manager's handle arrives (or its sender was dropped, \<open>Fatal\<close>), the active orders
  are read and a separate task has each of them watched again.
\<close>

definition state_start ::
    "('t, 'v, 'p, 'g, 'w) daemon_env \<Rightarrow> db_tick \<Rightarrow> manager option \<Rightarrow> 't daemon \<Rightarrow> 't daemon \<times> sent" where
  "state_start D k m d = (case m of
     None \<Rightarrow> (d\<lparr>handler := HandlerFailed Fatal\<rparr>, [])
   | Some mm \<Rightarrow> (case call_order_list (de_db D) (de_life D) k (db d) of
       (Inl e, db') \<Rightarrow> (d\<lparr>db := db', handler := HandlerFailed (ErrDb e)\<rparr>, [])
     | (Inr xs, db') \<Rightarrow> (d\<lparr>db := db', chain_manager := Some mm, currencies := Map.empty,
           handler := HandlerRuns\<rparr>,
         concat (map (\<lambda>(oid, x).
           snd (add_invoice (de_crypto D) (de_ack D) (Some mm) oid x (recipient d))) xs))))"

section \<open>The handle\<close>

text \<open>A method of the handle: the request and its reply, or \<open>Fatal\<close> when the task is gone.\<close>

definition handle_create_order ::
    "('t, 'v, 'p, 'g, 'w) daemon_env \<Rightarrow> db_tick \<Rightarrow> order_query \<Rightarrow> 't daemon
      \<Rightarrow> (error + order_response) \<times> 't daemon \<times> sent" where
  "handle_create_order D k q d =
     (case on_event D (Request k True (SCreateInvoice q)) d of
        (Some (OrderReply r), d', out) \<Rightarrow> (r, d', out) | (_, d', out) \<Rightarrow> (Inl Fatal, d', out))"

definition handle_order_status ::
    "('t, 'v, 'p, 'g, 'w) daemon_env \<Rightarrow> db_tick \<Rightarrow> string \<Rightarrow> 't daemon
      \<Rightarrow> (error + order_response) \<times> 't daemon \<times> sent" where
  "handle_order_status D k order d =
     (case on_event D (Request k True (SGetInvoiceStatus order)) d of
        (Some (OrderReply r), d', out) \<Rightarrow> (r, d', out) | (_, d', out) \<Rightarrow> (Inl Fatal, d', out))"

definition handle_is_currency_supported ::
    "('t, 'v, 'p, 'g, 'w) daemon_env \<Rightarrow> db_tick \<Rightarrow> string \<Rightarrow> 't daemon
      \<Rightarrow> (error + bool) \<times> 't daemon \<times> sent" where
  "handle_is_currency_supported D k currency d =
     (case on_event D (Request k True (SIsCurrencySupported currency)) d of
        (Some (SupportedReply b), d', out) \<Rightarrow> (Inr b, d', out) | (_, d', out) \<Rightarrow> (Inl Fatal, d', out))"

definition handle_server_status ::
    "('t, 'v, 'p, 'g, 'w) daemon_env \<Rightarrow> db_tick \<Rightarrow> 't daemon
      \<Rightarrow> (error + server_status) \<times> 't daemon \<times> sent" where
  "handle_server_status D k d = (case on_event D (Request k True SServerStatus) d of
     (Some (StatusReply s), d', out) \<Rightarrow> (Inr s, d', out) | (_, d', out) \<Rightarrow> (Inl Fatal, d', out))"

section \<open>Lemmas\<close>

lemma call_shutdown_state [simp]:
  "orders (call_shutdown E life k s) = orders s" "serving (call_shutdown E life k s) = False"
  by (simp_all add: call_shutdown_def db_call_def)

abbreviation ledger_in ::
    "('t, 'v, 'p, 'g, 'w) daemon_env \<Rightarrow> ('t \<Rightarrow> bytes \<rightharpoonup> 'v) \<Rightarrow> 't daemon \<Rightarrow> ledger" where
  "ledger_in D contents d \<equiv> db_view (de_db D) contents (db d)"

abbreviation daemon_inv ::
    "('t, 'v, 'p, 'g, 'w) daemon_env \<Rightarrow> ('t \<Rightarrow> bytes \<rightharpoonup> 'v) \<Rightarrow> 't daemon \<Rightarrow> bool" where
  "daemon_inv D contents d \<equiv> db_inv (de_db D) contents (db d)"

lemma create_invoice_evolves:
  assumes "daemon_inv D contents d" and "create_invoice D k q d = (r, d', out)"
  shows "daemon_inv D contents d' \<and> ledger_le (ledger_in D contents d) (ledger_in D contents d')"
proof (cases "db d' = db d")
  case False
  with assms(2) obtain oid c a x where
    "call_create_order (de_db D) (de_life D) k oid q c a (db d) = (x, db d')"
    by (auto simp: create_invoice_def Let_def
        split: option.splits sum.splits prod.splits order_create_response.splits)
  from database.create_inv [OF assms(1) this] database.create_le [OF assms(1) this] show ?thesis
    by simp
qed (use assms(1) in simp)

lemma get_invoice_status_evolves:
  assumes "daemon_inv D contents d" and "get_invoice_status D k order d = (r, d')"
  shows "daemon_inv D contents d' \<and> ledger_le (ledger_in D contents d) (ledger_in D contents d')"
proof -
  obtain x where "call_read_order (de_db D) (de_life D) k order (db d) = (x, db d')"
    using assms(2) by (auto simp: get_invoice_status_def split: sum.splits option.splits prod.splits)
  from database.lookup_inv [OF assms(1) this] show ?thesis by simp
qed

lemma order_paid_evolves:
  assumes "daemon_inv D contents d" and "order_paid D k oid d = (d', out)"
  shows "daemon_inv D contents d' \<and> ledger_le (ledger_in D contents d) (ledger_in D contents d')"
proof -
  obtain x where "call_mark_paid (de_db D) (de_life D) k oid (db d) = (x, db d')"
    using assms(2) by (auto simp: order_paid_def split: sum.splits prod.splits)
  from database.paid_inv [OF assms(1) this] database.paid_le [OF assms(1) this] show ?thesis by simp
qed

lemma deliver_db: "deliver alive r d = (reply, d') \<Longrightarrow> db d' = db d"
  by (auto simp: deliver_def split: if_splits)

lemma on_event_evolves:
  assumes "daemon_inv D contents d" and "on_event D ev d = (r, d', out)"
  shows "daemon_inv D contents d' \<and> ledger_le (ledger_in D contents d) (ledger_in D contents d')"
proof (cases "handler d = HandlerRuns")
  case True
  show ?thesis
  proof (cases ev)
    case (Cancelled k)
    with assms True show ?thesis
      by (auto simp: state_shutdown_def db_inv_def db_view_def split: prod.splits)
  next
    case (Request k alive req)
    show ?thesis
    proof (cases req)
      case (SGetInvoiceStatus order)
      with assms True Request show ?thesis
        by (auto split: prod.splits dest!: deliver_db dest: get_invoice_status_evolves)
    next
      case (SCreateInvoice q)
      with assms True Request show ?thesis
        by (auto split: prod.splits dest!: deliver_db dest: create_invoice_evolves)
    next
      case (SOrderPaid oid)
      with assms True Request show ?thesis
        by (auto split: prod.splits dest: order_paid_evolves)
    qed (use assms True Request in
        \<open>auto simp: update_currencies_def split: prod.splits dest!: deliver_db\<close>)
  qed
qed (use assms in \<open>cases ev; simp\<close>)

text \<open>The payout orders for one id among what was sent to the watchers.\<close>

definition is_reap :: "string \<Rightarrow> nat \<times> tracker_request \<Rightarrow> bool" where
  "is_reap oid out = (case snd out of TrackReap a \<Rightarrow> inv_id (watch_invoice a) = oid | _ \<Rightarrow> False)"

definition reaps :: "string \<Rightarrow> sent \<Rightarrow> nat" where
  "reaps oid out = length (filter (is_reap oid) out)"

lemma reaps_append [simp]: "reaps oid (xs @ ys) = reaps oid xs + reaps oid ys"
  and reaps_Nil [simp]: "reaps oid [] = 0"
  by (simp_all add: reaps_def)

lemma manager_call_watch: "snd (manager_call ack m (ManageWatch a)) = [] \<or>
    (\<exists>k. snd (manager_call ack m (ManageWatch a)) = [(k, TrackWatch a)])"
  by (auto simp: manager_call_def split: option.splits sum.splits)

lemma manager_call_reap: "snd (manager_call ack m (ManageReap a)) = [] \<or>
    (\<exists>k. snd (manager_call ack m (ManageReap a)) = [(k, TrackReap a)])"
  by (auto simp: manager_call_def split: option.splits sum.splits)

lemma add_invoice_reaps: "reaps oid (snd (add_invoice Cr ack m o' x rec)) = 0"
proof (cases "watch_account_new Cr o' x rec")
  case (Inr a)
  with manager_call_watch [of ack m a] show ?thesis
    by (auto simp: add_invoice_def reaps_def is_reap_def)
qed (simp add: add_invoice_def)

lemma reap_reaps: "reaps oid (snd (reap Cr ack m o' x rec)) \<le> (if o' = oid then 1 else 0)"
proof (cases "watch_account_new Cr o' x rec")
  case (Inr a)
  then have "inv_id (watch_invoice a) = o'"
    by (auto simp: watch_account_new_def and_then_Inr_iff)
  with Inr manager_call_reap [of ack m a] show ?thesis
    by (auto simp: reap_def reaps_def is_reap_def)
qed (simp add: reap_def)

lemma create_invoice_reaps: "create_invoice D k q d = (r, d', out) \<Longrightarrow> reaps oid out = 0"
  by (auto simp: create_invoice_def Let_def add_invoice_reaps dest: arg_cong [of _ _ snd]
      split: option.splits sum.splits prod.splits order_create_response.splits)
    (metis add_invoice_reaps snd_conv)+

lemma on_event_reaps:
  assumes "daemon_inv D contents d" and "on_event D ev d = (r, d', out)"
  shows "reaps oid out \<le> 1 \<and> (reaps oid out = 1 \<longrightarrow>
    (\<exists>x y. ledger_in D contents d oid = Some x \<and> payment_status x = Pending \<and>
       ledger_in D contents d' oid = Some y \<and> payment_status y = Paid))"
proof (cases "\<exists>k alive o'. handler d = HandlerRuns \<and> ev = Request k alive (SOrderPaid o')")
  case True
  then obtain k alive o' where ev: "handler d = HandlerRuns" "ev = Request k alive (SOrderPaid o')" by blast
  obtain x db' where paid: "call_mark_paid (de_db D) (de_life D) k o' (db d) = (x, db')" by fastforce
  show ?thesis
  proof (cases x)
    case (Inl e)
    then show ?thesis using assms(2) ev paid by (auto simp: order_paid_def)
  next
    case (Inr y)
    then have out: "out = snd (reap (de_crypto D) (de_ack D) (chain_manager d) o' y (recipient d))"
      and d': "db d' = db'"
      using assms(2) ev paid by (auto simp: order_paid_def)
    from database.paid_marks [OF assms(1) paid [unfolded Inr]] d'
    have "\<exists>x y. ledger_in D contents d o' = Some x \<and> payment_status x = Pending \<and>
       ledger_in D contents d' o' = Some y \<and> payment_status y = Paid"
      by auto
    moreover have "reaps oid out \<le> (if o' = oid then 1 else 0)"
      unfolding out by (rule reap_reaps)
    ultimately show ?thesis by (auto split: if_splits)
  qed
next
  case False
  have "reaps oid out = 0"
  proof (cases ev)
    case (Request k alive req)
    with False assms(2) show ?thesis
      by (cases req) (auto split: prod.splits if_splits dest: create_invoice_reaps)
  qed (use assms(2) in \<open>auto split: if_splits\<close>)
  then show ?thesis by simp
qed

section \<open>The handler as a task\<close>

definition event_step ::
    "('t, 'v, 'p, 'g, 'w) daemon_env \<Rightarrow> state_event \<Rightarrow> 't daemon
      \<Rightarrow> (state_reply option \<times> sent) \<times> 't daemon" where
  "event_step D ev d = (case on_event D ev d of (r, d', out) \<Rightarrow> ((r, out), d'))"

definition events_run ::
    "('t, 'v, 'p, 'g, 'w) daemon_env \<Rightarrow> state_event list \<Rightarrow> 't daemon
      \<Rightarrow> (state_reply option list \<times> sent) \<times> 't daemon" where
  "events_run D evs d = (case state_run D evs d of (rs, d', outs) \<Rightarrow> ((rs, outs), d'))"

definition collect :: "state_reply option \<times> sent \<Rightarrow> state_reply option list \<times> sent
    \<Rightarrow> state_reply option list \<times> sent" where
  "collect r acc = (fst r # fst acc, snd r @ snd acc)"

lemma event_step_spends:
  assumes "daemon_inv D contents d" and "event_step D ev d = (r, d')"
  shows "reaps oid (snd r) + pay_budget oid (ledger_in D contents d') \<le> pay_budget oid (ledger_in D contents d)"
proof -
  have ev: "on_event D ev d = (fst r, d', snd r)"
    using assms(2) by (auto simp: event_step_def split: prod.splits)
  show ?thesis
  proof (cases "reaps oid (snd r) = 1")
    case True
    with on_event_reaps [OF assms(1) ev, of oid] show ?thesis by (auto simp: pay_budget_def)
  next
    case False
    with on_event_reaps [OF assms(1) ev, of oid] have "reaps oid (snd r) = 0" by simp
    with on_event_evolves [OF assms(1) ev] pay_budget_mono show ?thesis by simp
  qed
qed

interpretation handler_task: budgeted_task "event_step D" "events_run D" "([], [])" collect "\<lambda>_. True"
  "\<lambda>d. daemon_inv D contents d" "\<lambda>d. ledger_in D contents d" ledger_le
  "\<lambda>_ r. reaps oid (snd r)" "\<lambda>_ acc. reaps oid (snd acc)" "pay_budget oid"
  for D contents oid
proof unfold_locales
  show "event_step D e s = (r, s1) \<Longrightarrow> events_run D es s1 = (acc, s2) \<Longrightarrow>
      events_run D (e # es) s = (collect r acc, s2)" for e s r s1 es acc s2
    by (auto simp: event_step_def events_run_def collect_def split: prod.splits)
  show "daemon_inv D contents s' \<and> ledger_le (ledger_in D contents s) (ledger_in D contents s')"
    if "daemon_inv D contents s" "event_step D e s = (r, s')" for s e r s'
    using on_event_evolves [OF that(1)] that(2) by (auto simp: event_step_def split: prod.splits)
qed (auto simp: events_run_def collect_def ledger_le_refl event_step_spends intro: ledger_le_trans)

lemma state_run_evolves:
  assumes "daemon_inv D contents d" and "state_run D evs d = (rs, d', outs)"
  shows "daemon_inv D contents d' \<and> ledger_le (ledger_in D contents d) (ledger_in D contents d')"
  using handler_task.run_evolves [OF assms(1), where es = evs] assms(2) by (simp add: events_run_def)

lemma state_run_reaps:
  assumes "daemon_inv D contents d" and "state_run D evs d = (rs, d', outs)"
  shows "reaps oid outs \<le> pay_budget oid (ledger_in D contents d)"
  using handler_task.run_spends [OF assms(1), where es = evs and oid = oid] assms(2)
  by (simp add: events_run_def)

end
