(* ===== verification/State_Properties.thy ===== *)
theory State_Properties
  imports Kalatori_State
begin

text \<open>
  The properties of the state handler: what a reply to the shop means for the order book and the
  watchers, that an order is paid out at most once, what a restart watches again, and what a
  shutdown or a caller that went away does to the task.
\<close>

section \<open>A daemon in miniature\<close>

definition toy_manager :: manager where
  "toy_manager = \<lparr>watch_chain = [(''polkadot'', 0)], currency_chain = [(''DOT'', ''polkadot'')]\<rparr>"

definition toy_env ::
    "((bytes \<times> (order_info + server_info)) list, order_info + server_info,
      string, string \<times> bytes, string list) daemon_env" where
  "toy_env = \<lparr>de_db = mem_env, de_life = Timestamp 60, de_crypto = toy_crypto,
     de_ack = (\<lambda>_ _. True)\<rparr>"

definition toy_daemon ::
    "(string \<times> order_info) list \<Rightarrow> (bytes \<times> (order_info + server_info)) list daemon" where
  "toy_daemon xs = \<lparr>currencies = [''DOT'' \<mapsto> properties sample_currency], recipient = [3],
     server_info = \<lparr>version = CARGO_PKG_VERSION, instance_id = ''jolly-fog'', debug = False,
       kalatori_remark = None\<rparr>,
     db = mem_state xs, chain_manager = Some toy_manager,
     signer = \<lparr>seed_entropy = [7], signer_running = True\<rparr>, handler = HandlerRuns\<rparr>"

lemma toy_env_simps [simp]: "de_db toy_env = mem_env" "de_life toy_env = Timestamp 60"
  "de_crypto toy_env = toy_crypto" "de_ack toy_env n r = True"
  by (simp_all add: toy_env_def)

lemma toy_daemon_simps [simp]:
  "currencies (toy_daemon xs) = [''DOT'' \<mapsto> properties sample_currency]"
  "recipient (toy_daemon xs) = [3]" "db (toy_daemon xs) = mem_state xs"
  "chain_manager (toy_daemon xs) = Some toy_manager" "handler (toy_daemon xs) = HandlerRuns"
  "signer (toy_daemon xs) = \<lparr>seed_entropy = [7], signer_running = True\<rparr>"
  by (simp_all add: toy_daemon_def)

lemma toy_daemon_inv: "daemon_inv toy_env map_of (toy_daemon xs)"
  by (simp add: mem_inv)

lemma mem_create_new:
  "call_create_order mem_env life k oid q c a (mem_state []) =
    (Inr (New (order_info_new q c a (calculate_death_ts (now_millis k) life))),
     mem_state [(oid, order_info_new q c a (calculate_death_ts (now_millis k) life))])"
  by (simp add: call_create_order_eq create_order_def call_then_def db_get_def db_insert_def
      call_map_err_def mem_state_def Let_def)

lemma mem_create_modified:
  "call_create_order mem_env life k oid q c a (mem_state [(oid, sample_order Pending)]) =
    (let x = (sample_order Pending)\<lparr>order_death := calculate_death_ts (now_millis k) life,
       order_currency := c, order_amount := query_amount q\<rparr>
     in (Inr (Modified x), mem_state [(oid, x)]))"
  by (simp add: call_create_order_eq create_order_def call_then_def db_get_def db_insert_def
      call_map_err_def mem_state_def Let_def decode_info_def)

lemma mem_paid: "call_mark_paid mem_env life k oid (mem_state [(oid, sample_order Pending)]) =
    (Inr (sample_order Paid), mem_state [(oid, sample_order Paid)])"
  by (simp add: call_mark_paid_eq mark_paid_def call_then_def db_get_def db_insert_def
      call_map_err_def mem_state_def Let_def decode_info_def sample_order_def)

lemma toy_address: "signer_public toy_crypto [3] \<lparr>seed_entropy = [7], signer_running = True\<rparr> oid ss58 =
    Inr (char_of (unat ss58) # oid)"
  by (simp add: signer_public_eq order_pair_def toy_crypto_def derivations_def)

lemma toy_watch: "\<exists>i. watch_account_new toy_crypto oid (x\<lparr>payment_account := c # a\<rparr>) r =
    Inr (WatchAccount i) \<and> inv_currency i = ci_currency (order_currency x)"
  by (simp add: watch_account_new_def toy_crypto_def)

text \<open>What a new order's reply stands for.\<close>

lemma create_invoice_new:
  assumes "daemon_inv D contents d"
    and "create_invoice D k q d = (Inr (NewOrder st), d', out)"
  shows "\<exists>p account x a n. currencies d (query_currency q) = Some p \<and>
    signer_public (de_crypto D) (recipient d) (signer d) (query_order q) (cp_ss58 p) = Inr account \<and>
    x = order_info_new q (info p (query_currency q)) account
      (calculate_death_ts (now_millis k) (de_life D)) \<and>
    ledger_in D contents d (query_order q) = None \<and>
    ledger_in D contents d' = (ledger_in D contents d)(query_order q \<mapsto> x) \<and>
    status_order_info st = x \<and>
    watch_account_new (de_crypto D) (query_order q) x (recipient d) = Inr a \<and>
    out = [(n, TrackWatch a)] \<and>
    (\<exists>m. chain_manager d = Some m \<and> route m (query_currency q) = Inr n)"
proof -
  from assms(2) obtain p account x where
    p: "currencies d (query_currency q) = Some p" and
    acc: "signer_public (de_crypto D) (recipient d) (signer d) (query_order q) (cp_ss58 p) = Inr account" and
    call: "call_create_order (de_db D) (de_life D) k (query_order q) q (info p (query_currency q))
      account (db d) = (Inr (New x), db d')" and
    st: "status_order_info st = x" and
    add: "add_invoice (de_crypto D) (de_ack D) (chain_manager d) (query_order q) x (recipient d)
      = (Inr (), out)"
    by (auto simp: create_invoice_def Let_def order_status_def info_def
        split: option.splits sum.splits prod.splits order_create_response.splits)
  from database.create_ok [OF assms(1) call]
  have sp: "ledger_in D contents d (query_order q) = None \<and>
      x = order_info_new q (info p (query_currency q)) account
        (calculate_death_ts (now_millis k) (de_life D)) \<and>
      ledger_in D contents d' = (ledger_in D contents d)(query_order q \<mapsto> x)"
    by (auto simp: spec_create_def Let_def split: option.splits if_splits)
  from add obtain a m where a: "watch_account_new (de_crypto D) (query_order q) x (recipient d) = Inr a"
    and m: "chain_manager d = Some m"
    and call': "manager_call (de_ack D) (Some m) (ManageWatch a) = (Inr (), out)"
    by (auto simp: add_invoice_def manager_call_def split: sum.splits option.splits)
  have "inv_currency (watch_invoice a) = query_currency q"
    using a sp by (auto simp: watch_account_new_def and_then_Inr_iff order_info_new_def)
  with call' obtain n where "route m (query_currency q) = Inr n" "out = [(n, TrackWatch a)]"
    by (auto simp: manager_call_def split: sum.splits if_splits)
  with p acc sp st a m show ?thesis by auto
qed

section \<open>Properties\<close>

text \<open>C12. When the shop is told that its order is new, the order was unknown before, is now in the book as
  pending with the address the signer derived for its id, and exactly one watcher, the one of the
  order's currency, was asked to watch it.\<close>

theorem new_order_stored_and_watched:
  assumes "daemon_inv D contents d"
    and "create_invoice D k q d = (Inr (NewOrder st), d', out)"
  shows "\<exists>p account x a n. currencies d (query_currency q) = Some p \<and>
    signer_public (de_crypto D) (recipient d) (signer d) (query_order q) (cp_ss58 p) = Inr account \<and>
    x = order_info_new q (info p (query_currency q)) account
      (calculate_death_ts (now_millis k) (de_life D)) \<and>
    ledger_in D contents d (query_order q) = None \<and>
    ledger_in D contents d' = (ledger_in D contents d)(query_order q \<mapsto> x) \<and>
    status_order_info st = x \<and>
    watch_account_new (de_crypto D) (query_order q) x (recipient d) = Inr a \<and>
    out = [(n, TrackWatch a)] \<and>
    (\<exists>m. chain_manager d = Some m \<and> route m (query_currency q) = Inr n)"
  using create_invoice_new [OF assms] .

theorem new_order_stored_and_watched_witness:
  "\<exists>x d' out. create_invoice toy_env sample_tick (sample_query ''a'') (toy_daemon []) =
      (Inr (NewOrder (order_status toy_env (toy_daemon []) ''a'' x [])), d', out) \<and>
    db_view mem_env map_of (db d') ''a'' = Some x \<and> payment_status x = Pending \<and>
    fst ` set out = {0}"
proof -
  define x where "x = order_info_new (sample_query ''a'') sample_currency (char_of (0 :: nat) # ''a'')
    (Timestamp 1060)"
  have q: "query_order (sample_query ''a'') = ''a''" "query_currency (sample_query ''a'') = ''DOT''"
    by (simp_all add: sample_query_def)
  have c: "info (properties sample_currency) ''DOT'' = sample_currency"
    by (simp add: properties_def info_def sample_currency_def)
  have death: "calculate_death_ts (now_millis sample_tick) (Timestamp 60) = Timestamp 1060"
    by (simp add: calculate_death_ts_def sample_tick_def)
  have ss58: "ci_ss58 sample_currency = 0" "ci_currency sample_currency = ''DOT''"
    by (simp_all add: sample_currency_def)
  obtain i where i: "watch_account_new toy_crypto ''a'' x [3] = Inr (WatchAccount i)"
      "inv_currency i = ''DOT''"
    by (simp add: watch_account_new_def toy_crypto_def x_def order_info_new_def ss58)
  have run: "create_invoice toy_env sample_tick (sample_query ''a'') (toy_daemon []) =
      (Inr (NewOrder (order_status toy_env (toy_daemon []) ''a'' x [])),
       (toy_daemon [])\<lparr>db := mem_state [(''a'', x)]\<rparr>, [(0, TrackWatch (WatchAccount i))])"
    using i by (simp add: create_invoice_def Let_def q c toy_address ss58 mem_create_new death
        x_def [symmetric] add_invoice_def manager_call_def route_def toy_manager_def)
  from new_order_stored_and_watched [OF toy_daemon_inv run]
  have "db_view mem_env map_of (mem_state [(''a'', x)]) ''a'' = Some x"
    by (auto simp: order_status_def q)
  moreover have "payment_status x = Pending" by (simp add: x_def order_info_new_def)
  ultimately show ?thesis using run by fastforce
qed

text \<open>When the shop is told that its order was modified, the book holds the new amount, currency and
  death under the old account, but no watcher is told: the invoice under watch keeps the amount
  it was created with.\<close>

theorem modified_order_not_rewatched:
  assumes "daemon_inv D contents d"
    and "create_invoice D k q d = (Inr (ModifiedOrder st), d', out)"
  shows "out = [] \<and> (\<exists>old new. ledger_in D contents d (query_order q) = Some old \<and>
    ledger_in D contents d' (query_order q) = Some new \<and> status_order_info st = new \<and>
    order_amount new = query_amount q \<and> payment_account new = payment_account old \<and>
    ci_currency (order_currency new) = query_currency q)"
proof -
  from assms(2) obtain p account x where
    call: "call_create_order (de_db D) (de_life D) k (query_order q) q (info p (query_currency q))
      account (db d) = (Inr (Modified x), db d')" and
    st: "status_order_info st = x" and out: "out = []"
    by (auto simp: create_invoice_def Let_def order_status_def
        split: option.splits sum.splits prod.splits order_create_response.splits)
  from database.create_ok [OF assms(1) call] obtain old where
    "ledger_in D contents d (query_order q) = Some old"
    "x = old\<lparr>order_death := calculate_death_ts (now_millis k) (de_life D),
       order_currency := info p (query_currency q), order_amount := query_amount q\<rparr>"
    "ledger_in D contents d' = (ledger_in D contents d)(query_order q \<mapsto> x)"
    by (auto simp: spec_create_def Let_def split: option.splits if_splits)
  with st out show ?thesis by simp
qed

theorem modified_order_not_rewatched_witness:
  "\<exists>st d'. create_invoice toy_env sample_tick ((sample_query ''a'')\<lparr>query_amount := Finite 3\<rparr>)
      (toy_daemon [(''a'', sample_order Pending)]) = (Inr (ModifiedOrder st), d', []) \<and>
    order_amount (status_order_info st) = Finite 3"
proof -
  let ?q = "(sample_query ''a'')\<lparr>query_amount := Finite 3\<rparr>"
  let ?d = "toy_daemon [(''a'', sample_order Pending)]"
  have q: "query_order ?q = ''a''" "query_currency ?q = ''DOT''"
    by (simp_all add: sample_query_def)
  obtain st d' where run: "create_invoice toy_env sample_tick ?q ?d = (Inr (ModifiedOrder st), d', [])"
    by (simp add: create_invoice_def Let_def q toy_address mem_create_modified)
  from modified_order_not_rewatched [OF toy_daemon_inv run] run show ?thesis by auto
qed

text \<open>Over any run of the handler, whatever is requested and whenever it is shut down, a payout of an
  order is ordered at most once.\<close>

theorem paid_out_at_most_once:
  assumes "daemon_inv D contents d" and "state_run D evs d = (rs, d', outs)"
  shows "reaps oid outs \<le> 1"
  using state_run_reaps [OF assms, of oid] pay_budget_le by (rule order_trans)

theorem paid_out_at_most_once_witness:
  "reaps ''a'' (snd (snd (state_run toy_env
     [Request sample_tick True (SOrderPaid ''a''), Request sample_tick True (SOrderPaid ''a''),
      Cancelled sample_tick] (toy_daemon [(''a'', sample_order Pending)])))) \<le> 1"
proof (rule paid_out_at_most_once [OF toy_daemon_inv])
  show "state_run toy_env
     [Request sample_tick True (SOrderPaid ''a''), Request sample_tick True (SOrderPaid ''a''),
      Cancelled sample_tick] (toy_daemon [(''a'', sample_order Pending)]) =
    (fst (state_run toy_env
     [Request sample_tick True (SOrderPaid ''a''), Request sample_tick True (SOrderPaid ''a''),
      Cancelled sample_tick] (toy_daemon [(''a'', sample_order Pending)])),
     fst (snd (state_run toy_env
     [Request sample_tick True (SOrderPaid ''a''), Request sample_tick True (SOrderPaid ''a''),
      Cancelled sample_tick] (toy_daemon [(''a'', sample_order Pending)]))),
     snd (snd (state_run toy_env
     [Request sample_tick True (SOrderPaid ''a''), Request sample_tick True (SOrderPaid ''a''),
      Cancelled sample_tick] (toy_daemon [(''a'', sample_order Pending)]))))"
    by (simp only: prod.collapse)
qed

text \<open>C31. A restart has exactly the pending orders of the book watched again: each whose account can be
  read and whose currency is routed, by the watcher of its currency, and no other order.\<close>

theorem restart_watches_pending:
  assumes "daemon_inv D contents d" and "state_start D k (Some m) d = (d', out)"
    and "handler d' = HandlerRuns" and "\<forall>e. Inl e \<notin> set (fst (tree_iter (de_db D) (orders (db d))))"
  shows "set out = {(n, TrackWatch a) |n a oid x. ledger_in D contents d oid = Some x \<and>
    payment_status x = Pending \<and> watch_account_new (de_crypto D) oid x (recipient d) = Inr a \<and>
    route m (ci_currency (order_currency x)) = Inr n}"
proof -
  have sent: "set (snd (add_invoice Cr ack (Some m) oid x rec)) =
      {(n, TrackWatch a) |n a. watch_account_new Cr oid x rec = Inr a \<and>
        route m (ci_currency (order_currency x)) = Inr n}" for Cr :: "('c, 'd, 'e) crypto_env" and ack oid x rec
  proof (cases "watch_account_new Cr oid x rec")
    case (Inr a)
    then have "inv_currency (watch_invoice a) = ci_currency (order_currency x)"
      by (auto simp: watch_account_new_def and_then_Inr_iff)
    with Inr show ?thesis
      by (cases "route m (ci_currency (order_currency x))")
        (auto simp: add_invoice_def manager_call_def)
  qed (simp add: add_invoice_def)
  obtain xs db' where xs: "call_order_list (de_db D) (de_life D) k (db d) = (Inr xs, db')"
    and out: "out = concat (map (\<lambda>(oid, x).
      snd (add_invoice (de_crypto D) (de_ack D) (Some m) oid x (recipient d))) xs)"
    using assms(2,3) by (auto simp: state_start_def split: prod.splits sum.splits)
  from order_list_ledger [OF assms(1) xs] assms(4)
  have mem: "\<And>oid x. (oid, x) \<in> set xs \<longleftrightarrow>
      ledger_in D contents d oid = Some x \<and> payment_status x = Pending"
    by blast
  have "set out = (\<Union>(oid, x) \<in> set xs. {(n, TrackWatch a) |n a.
      watch_account_new (de_crypto D) oid x (recipient d) = Inr a \<and>
      route m (ci_currency (order_currency x)) = Inr n})"
    unfolding out by (auto simp: sent)
  also have "\<dots> = {(n, TrackWatch a) |n a oid x. (oid, x) \<in> set xs \<and>
      watch_account_new (de_crypto D) oid x (recipient d) = Inr a \<and>
      route m (ci_currency (order_currency x)) = Inr n}"
    by blast
  finally show ?thesis by (simp add: mem conj_assoc)
qed

theorem restart_watches_pending_witness:
  "\<exists>out. snd (state_start toy_env sample_tick (Some toy_manager)
      (toy_daemon [(''a'', sample_order Pending), (''b'', sample_order Paid)])) = out \<and>
    (\<exists>a. (0, TrackWatch a) \<in> set out \<and> inv_id (watch_invoice a) = ''a'')"
proof -
  let ?d = "toy_daemon [(''a'', sample_order Pending), (''b'', sample_order Paid)]"
  let ?s = "state_start toy_env sample_tick (Some toy_manager) ?d"
  have run: "?s = (fst ?s, snd ?s)" by simp
  have ok: "handler (fst ?s) = HandlerRuns"
    by (simp add: state_start_def call_order_list_def db_call_def active_order_list_def
        mem_state_def split: prod.split)
  have iter: "\<forall>e. Inl e \<notin> set (fst (tree_iter (de_db toy_env) (orders (db ?d))))" by auto
  have view: "ledger_in toy_env map_of ?d ''a'' = Some (sample_order Pending)"
    by (simp add: db_view_def ledger_of_def mem_state_def)
  obtain a where a: "watch_account_new toy_crypto ''a'' (sample_order Pending) [3] = Inr a"
      "inv_id (watch_invoice a) = ''a''"
    by (simp add: watch_account_new_def toy_crypto_def)
  have "route toy_manager (ci_currency (order_currency (sample_order Pending))) = Inr 0"
    by (simp add: route_def toy_manager_def sample_defs)
  then have "(0, TrackWatch a) \<in> set (snd ?s)"
    unfolding restart_watches_pending [OF toy_daemon_inv run ok iter]
    by (intro CollectI exI [of _ 0] exI [of _ a] exI [of _ "''a''"] exI [of _ "sample_order Pending"])
      (use view a(1) in simp)
  with a(2) show ?thesis by blast
qed

text \<open>C37. Seeing the cancellation, the handler stops every watcher, ends the database service, clears the
  signer's entropy and finishes; a payment reported afterwards is not recorded.\<close>

theorem shutdown_complete:
  assumes "handler d = HandlerRuns" and "chain_manager d = Some m"
    and "serving (db d)" and "signer_running (signer d)"
    and "state_run D (Cancelled k # Request k' alive (SOrderPaid oid) # evs) d = (rs, d', outs)"
  shows "snd (state_shutdown D k d) = map snd (watch_chain m) \<and> handler d' = HandlerDone \<and>
    chain_manager d' = None \<and> \<not> serving (db d') \<and>
    seed_entropy (signer d') = replicate (length (seed_entropy (signer d))) 0 \<and>
    orders (db d') = orders (db d) \<and> outs = [] \<and> set rs = {None}"
proof -
  have idle: "state_run D xs u = (map (\<lambda>_. None) xs, u, [])" if "handler u \<noteq> HandlerRuns" for xs u
    using that
  proof (induction xs arbitrary: u)
    case (Cons x xs)
    then show ?case by (cases x) auto
  qed simp
  let ?u = "fst (state_shutdown D k d)"
  have "handler ?u = HandlerDone" by (simp add: state_shutdown_def split: prod.split)
  then have run: "state_run D (Cancelled k # Request k' alive (SOrderPaid oid) # evs) d =
      (map (\<lambda>_. None) (Cancelled k # Request k' alive (SOrderPaid oid) # evs), ?u, [])"
    using assms(1) idle [of ?u] by simp
  with assms(2-5) show ?thesis
    by (auto simp: state_shutdown_def manager_shutdown_def signer_shutdown_def)
qed

theorem shutdown_complete_witness:
  "orders (db (fst (snd (state_run toy_env
      [Cancelled sample_tick, Request sample_tick True (SOrderPaid ''a'')]
      (toy_daemon [(''a'', sample_order Pending)]))))) =
    orders (mem_state [(''a'', sample_order Pending)])"
proof -
  let ?r = "state_run toy_env (Cancelled sample_tick #
    Request sample_tick True (SOrderPaid ''a'') # []) (toy_daemon [(''a'', sample_order Pending)])"
  have "?r = (fst ?r, fst (snd ?r), snd (snd ?r))" by (simp only: prod.collapse)
  from shutdown_complete [OF _ _ _ _ this] show ?thesis
    by (simp add: mem_state_def del: state_run.simps)
qed

text \<open>A caller that gives up waiting for its reply takes the handler down: the reply cannot be
  delivered, the task fails with \<open>Fatal\<close>, and every later call of the handle fails with it.\<close>

theorem lost_caller_kills_handler:
  assumes "handler d = HandlerRuns"
    and "(\<exists>order. req = SGetInvoiceStatus order) \<or> (\<exists>q. req = SCreateInvoice q) \<or>
      (\<exists>c. req = SIsCurrencySupported c) \<or> req = SServerStatus"
    and "on_event D (Request k False req) d = (r, d', out)"
  shows "r = None \<and> handler d' = HandlerFailed Fatal \<and>
    fst (handle_create_order D k' q d') = Inl Fatal \<and> fst (handle_order_status D k' oid d') = Inl Fatal \<and>
    fst (handle_server_status D k' d') = Inl Fatal"
proof -
  have "r = None \<and> handler d' = HandlerFailed Fatal"
    using assms by (auto simp: deliver_def split: prod.splits)
  then show ?thesis
    by (simp add: handle_create_order_def handle_order_status_def handle_server_status_def)
qed

theorem lost_caller_kills_handler_witness:
  "handler (fst (snd (on_event toy_env (Request sample_tick False SServerStatus) (toy_daemon [])))) =
    HandlerFailed Fatal"
proof -
  let ?r = "on_event toy_env (Request sample_tick False SServerStatus) (toy_daemon [])"
  have "?r = (fst ?r, fst (snd ?r), snd (snd ?r))" by (simp only: prod.collapse)
  from lost_caller_kills_handler [OF _ _ this] show ?thesis by (simp del: on_event.simps)
qed

end
