(* ===== verification/System.thy ===== *)
theory System
  imports State_Properties Tracker_Properties
begin

text \<open>
  The daemon as a whole: the state handler, one watcher per configured chain and the messages
  between them. The components' own steps are those of their theories; this theory adds the
  channels of \<open>src/state.rs\<close>, \<open>src/chain/mod.rs\<close> and \<open>src/chain/tracker.rs\<close> that connect them, the
  task that restores saved orders, and every interleaving of all of these.
\<close>

section \<open>The system\<close>

text \<open>
  What is on its way: the orders still to be restored, the requests forwarded to each watcher,
  the reports of the watchers to the state. Payouts that were begun are collected with the
  watcher, the endpoint and the invoice.
\<close>

record ('t, 'r, 'w) system =
  sys_daemon :: "'t daemon"
  sys_restoring :: sent
  sys_watchers :: "nat \<Rightarrow> ('r, 'w) tracker_state"
  sys_in_flight :: sent
  sys_to_state :: "state_request list"
  sys_payouts :: "(nat \<times> string \<times> invoice) list"
  sys_world :: 'w

fun report :: "tracker_output \<Rightarrow> state_request list" where
  "report (ConnectChain cs) = [SConnectChain cs]"
| "report (OrderPaid oid) = [SOrderPaid oid]"
| "report (Watching oid) = []"
| "report (SpawnPayout endpoint i) = []"

fun begun :: "nat \<Rightarrow> tracker_output \<Rightarrow> (nat \<times> string \<times> invoice) list" where
  "begun n (SpawnPayout endpoint i) = [(n, endpoint, i)]"
| "begun n (ConnectChain cs) = []"
| "begun n (OrderPaid oid) = []"
| "begun n (Watching oid) = []"

text \<open>The first request in flight to a watcher, and the others.\<close>

fun take_for :: "nat \<Rightarrow> sent \<Rightarrow> (tracker_request \<times> sent) option" where
  "take_for n [] = None"
| "take_for n ((k, req) # ms) = (if k = n then Some (req, ms)
     else map_option (\<lambda>(r, rest). (r, (k, req) # rest)) (take_for n ms))"

text \<open>The requests that come from the web server; the two others come from the watchers.\<close>

fun from_web :: "state_request \<Rightarrow> bool" where
  "from_web (SConnectChain cs) = False"
| "from_web (SOrderPaid oid) = False"
| "from_web (SGetInvoiceStatus order) = True"
| "from_web (SCreateInvoice q) = True"
| "from_web (SIsCurrencySupported c) = True"
| "from_web SServerStatus = True"

fun own_input :: "tracker_input \<Rightarrow> bool" where
  "own_input (TryEndpoint cancelled) = True"
| "own_input NoRequest = True"
| "own_input (Receive now (TrackNewBlock number)) = True"
| "own_input (Receive now (TrackWatch a)) = False"
| "own_input (Receive now (TrackReap a)) = False"
| "own_input (Receive now TrackShutdown) = False"

datatype sys_event =
    Web db_tick bool state_request
  | Message db_tick
  | Cancel db_tick
  | Restore
  | Watcher nat tracker_input
  | Deliver nat u64

definition absorb ::
    "nat \<Rightarrow> ('r, 'w) tracker_state \<times> tracker_output list \<times> 'w \<Rightarrow> ('t, 'r, 'w) system
      \<Rightarrow> ('t, 'r, 'w) system" where
  "absorb n res s = (case res of (t, out, w) \<Rightarrow>
     s\<lparr>sys_watchers := (sys_watchers s)(n := t),
       sys_to_state := sys_to_state s @ concat (map report out),
       sys_payouts := sys_payouts s @ concat (map (begun n) out), sys_world := w\<rparr>)"

definition handle_event ::
    "('t, 'v, 'p, 'g, 'x) daemon_env \<Rightarrow> state_event \<Rightarrow> ('t, 'r, 'w) system \<Rightarrow> ('t, 'r, 'w) system" where
  "handle_event D ev s = (case on_event D ev (sys_daemon s) of (_, d', out) \<Rightarrow>
     s\<lparr>sys_daemon := d', sys_in_flight := sys_in_flight s @ out\<rparr>)"

text \<open>The requests by which the chain manager stops the watchers.\<close>

definition stop_requests :: "('t, 'v, 'p, 'g, 'x) daemon_env \<Rightarrow> db_tick \<Rightarrow> 't daemon \<Rightarrow> sent" where
  "stop_requests D k d = (if handler d = HandlerRuns
     then map (\<lambda>n. (n, TrackShutdown)) (snd (state_shutdown D k d)) else [])"

fun sys_step ::
    "('t, 'v, 'p, 'g, 'x) daemon_env \<Rightarrow> 'r chain_lib \<Rightarrow> (string \<Rightarrow> 'w \<Rightarrow> 'w client option \<times> 'w)
      \<Rightarrow> chain_config list \<Rightarrow> sys_event \<Rightarrow> ('t, 'r, 'w) system \<Rightarrow> ('t, 'r, 'w) system option" where
  "sys_step D L connect config (Web k alive req) s =
     (if from_web req then Some (handle_event D (Request k alive req) s) else None)"
| "sys_step D L connect config (Message k) s = (case sys_to_state s of
     [] \<Rightarrow> None
   | req # reqs \<Rightarrow> Some (handle_event D (Request k True req) (s\<lparr>sys_to_state := reqs\<rparr>)))"
| "sys_step D L connect config (Cancel k) s =
     Some (let stops = stop_requests D k (sys_daemon s);
               s' = handle_event D (Cancelled k) s
           in s'\<lparr>sys_in_flight := sys_in_flight s' @ stops\<rparr>)"
| "sys_step D L connect config Restore s = (case sys_restoring s of
     [] \<Rightarrow> None
   | m # ms \<Rightarrow> Some (s\<lparr>sys_restoring := ms, sys_in_flight := sys_in_flight s @ [m]\<rparr>))"
| "sys_step D L connect config (Watcher n x) s =
     (if n < length config \<and> own_input x then
        map_option (\<lambda>res. absorb n res s)
          (tracker_step L connect (config ! n) x (sys_watchers s n) (sys_world s))
      else None)"
| "sys_step D L connect config (Deliver n now) s =
     (if n < length config then
        (case take_for n (sys_in_flight s) of
           None \<Rightarrow> None
         | Some (req, rest) \<Rightarrow> map_option (\<lambda>res. absorb n res (s\<lparr>sys_in_flight := rest\<rparr>))
             (tracker_step L connect (config ! n) (Receive now req) (sys_watchers s n) (sys_world s)))
      else None)"

definition system_from :: "'t daemon \<Rightarrow> sent \<Rightarrow> 'w \<Rightarrow> ('t, 'r, 'w) system" where
  "system_from d restoring w =
     \<lparr>sys_daemon = d, sys_restoring = restoring, sys_watchers = (\<lambda>_. tracker_start),
      sys_in_flight = [], sys_to_state = [], sys_payouts = [], sys_world = w\<rparr>"

definition system_start ::
    "('t, 'v, 'p, 'g, 'x) daemon_env \<Rightarrow> db_tick \<Rightarrow> manager option \<Rightarrow> 't daemon \<Rightarrow> 'w
      \<Rightarrow> ('t, 'r, 'w) system" where
  "system_start D k m d w = (case state_start D k m d of (d', out) \<Rightarrow> system_from d' out w)"

inductive reachable ::
    "('t, 'v, 'p, 'g, 'x) daemon_env \<Rightarrow> 'r chain_lib \<Rightarrow> (string \<Rightarrow> 'w \<Rightarrow> 'w client option \<times> 'w)
      \<Rightarrow> chain_config list \<Rightarrow> ('t, 'r, 'w) system \<Rightarrow> ('t, 'r, 'w) system \<Rightarrow> bool"
  for D L connect config s0 where
  start: "reachable D L connect config s0 s0"
| step: "reachable D L connect config s0 s \<Longrightarrow> sys_step D L connect config ev s = Some s' \<Longrightarrow>
     reachable D L connect config s0 s'"

end
