(* ===== verification/System_Invariant.thy ===== *)
theory System_Invariant
  imports System
begin

text \<open>
  The invariant of the whole daemon: everything on its way is about an order of the book, a reported
  payment was seen, and the payouts ordered and begun for an order are counted against its payment
  status. It rests on what the state handler sends and on what a watcher's step reports.
\<close>

section \<open>What the state sends\<close>

lemma add_invoice_sends:
  assumes "(n, req) \<in> set (snd (add_invoice Cr ack m oid x rec))"
  shows "\<exists>a. req = TrackWatch a \<and> watch_account_new Cr oid x rec = Inr a"
proof (cases "watch_account_new Cr oid x rec")
  case (Inr a)
  with assms manager_call_watch [of ack m a] show ?thesis by (auto simp: add_invoice_def)
qed (use assms in \<open>simp add: add_invoice_def\<close>)

lemma reap_sends:
  assumes "(n, req) \<in> set (snd (reap Cr ack m oid x rec))"
  shows "\<exists>a. req = TrackReap a \<and> watch_account_new Cr oid x rec = Inr a"
proof (cases "watch_account_new Cr oid x rec")
  case (Inr a)
  with assms manager_call_reap [of ack m a] show ?thesis by (auto simp: reap_def)
qed (use assms in \<open>simp add: reap_def\<close>)

lemma create_invoice_sends:
  assumes "create_invoice D k q d = (r, d', out)" and "(n, req) \<in> set out"
  shows "\<exists>p account x a. call_create_order (de_db D) (de_life D) k (query_order q) q p account (db d)
      = (Inr (New x), db d') \<and> req = TrackWatch a \<and>
    watch_account_new (de_crypto D) (query_order q) x (recipient d) = Inr a"
proof -
  from assms obtain p account x where
    "call_create_order (de_db D) (de_life D) k (query_order q) q p account (db d) = (Inr (New x), db d')"
    "out = snd (add_invoice (de_crypto D) (de_ack D) (chain_manager d) (query_order q) x (recipient d))"
    by (auto simp: create_invoice_def Let_def
        split: option.splits sum.splits prod.splits order_create_response.splits)
  with add_invoice_sends assms(2) show ?thesis by blast
qed

lemma order_paid_sends:
  assumes "order_paid D k oid d = (d', out)" and "(n, req) \<in> set out"
  shows "\<exists>x a. call_mark_paid (de_db D) (de_life D) k oid (db d) = (Inr x, db d') \<and>
    out = snd (reap (de_crypto D) (de_ack D) (chain_manager d) oid x (recipient d)) \<and>
    req = TrackReap a \<and> watch_account_new (de_crypto D) oid x (recipient d) = Inr a"
proof -
  from assms obtain x where
    "call_mark_paid (de_db D) (de_life D) k oid (db d) = (Inr x, db d')"
    "out = snd (reap (de_crypto D) (de_ack D) (chain_manager d) oid x (recipient d))"
    by (auto simp: order_paid_def split: prod.splits sum.splits)
  with reap_sends assms(2) show ?thesis by blast
qed

text \<open>Whatever the state sends comes from one of these two operations.\<close>

lemma on_event_sends:
  assumes "on_event D ev d = (r, d', out)" and "(n, req) \<in> set out"
  obtains (created) k alive q r1 d1 where "ev = Request k alive (SCreateInvoice q)"
      "create_invoice D k q d = (r1, d1, out)" "db d' = db d1"
  | (paid) k alive oid where "ev = Request k alive (SOrderPaid oid)" "order_paid D k oid d = (d', out)"
proof (cases ev)
  case (Request k alive rq)
  with assms created paid show thesis
    by (cases rq) (auto simp: deliver_def split: prod.splits if_splits)
qed (use assms in \<open>auto split: if_splits\<close>)

lemma state_sends_reap:
  assumes "on_event D ev d = (r, d', out)" and "(n, TrackReap a) \<in> set out"
  shows "\<exists>k alive oid x m. ev = Request k alive (SOrderPaid oid) \<and> chain_manager d = Some m \<and>
    call_mark_paid (de_db D) (de_life D) k oid (db d) = (Inr x, db d') \<and>
    watch_account_new (de_crypto D) oid x (recipient d) = Inr a \<and>
    route m (inv_currency (watch_invoice a)) = Inr n"
  using assms
proof (cases rule: on_event_sends)
  case (created k alive q r1 d1)
  from create_invoice_sends [OF created(2) assms(2)] show ?thesis by blast
next
  case (paid k alive oid)
  from order_paid_sends [OF paid(2) assms(2)] obtain x where
    x: "call_mark_paid (de_db D) (de_life D) k oid (db d) = (Inr x, db d')"
      "out = snd (reap (de_crypto D) (de_ack D) (chain_manager d) oid x (recipient d))"
      "watch_account_new (de_crypto D) oid x (recipient d) = Inr a"
    by blast
  with assms(2) obtain m where m: "chain_manager d = Some m"
      "(n, TrackReap a) \<in> set (snd (manager_call (de_ack D) (Some m) (ManageReap a)))"
    by (auto simp: reap_def manager_call_def split: option.splits)
  then have "route m (inv_currency (watch_invoice a)) = Inr n"
    by (auto simp: manager_call_def split: sum.splits)
  with paid(1) x m(1) show ?thesis by blast
qed

text \<open>An invoice of the book: made from an order of its id with the account the book has for it.\<close>

definition of_book :: "('p, 'g, 'x) crypto_env \<Rightarrow> account \<Rightarrow> ledger \<Rightarrow> invoice \<Rightarrow> bool" where
  "of_book Cr rec L i \<longleftrightarrow> (\<exists>x y. L (inv_id i) = Some x \<and> payment_account y = payment_account x \<and>
     watch_account_new Cr (inv_id i) y rec = Inr (WatchAccount i))"

lemma of_bookD:
  assumes "of_book Cr rec L i"
  shows "\<exists>x v. L (inv_id i) = Some x \<and> inv_recipient i = rec \<and>
    account_from_base58 Cr (payment_account x) = Inr (inv_address i, v)"
proof -
  from assms obtain x y where x: "L (inv_id i) = Some x" "payment_account y = payment_account x" and
    "watch_account_new Cr (inv_id i) y rec = Inr (WatchAccount i)"
    unfolding of_book_def by blast
  then obtain v address where acc: "account_from_base58 Cr (payment_account x) = Inr (address, v)" and
    i: "\<lparr>inv_id = inv_id i, inv_address = address, inv_currency = ci_currency (order_currency y),
      inv_amount = balance_parse (order_amount y) (ci_decimals (order_currency y)),
      inv_recipient = rec, inv_death = order_death y\<rparr> = i"
    by (auto simp: watch_account_new_def and_then_Inr_iff map_err_def split: sum.splits)
  from arg_cong [OF i, of inv_address] arg_cong [OF i, of inv_recipient]
  have "inv_address i = address" "inv_recipient i = rec" by simp_all
  with x acc show ?thesis by blast
qed

lemma of_book_mono: "of_book Cr rec L i \<Longrightarrow> ledger_le L M \<Longrightarrow> of_book Cr rec M i"
  by (fastforce simp: of_book_def ledger_le_def order_le_def)

lemma of_book_order:
  assumes "watch_account_new Cr oid x rec = Inr a" and "L oid = Some x"
  shows "of_book Cr rec L (watch_invoice a)"
proof -
  have "inv_id (watch_invoice a) = oid" "a = WatchAccount (watch_invoice a)"
    using assms(1) by (auto simp: watch_account_new_def and_then_Inr_iff)
  with assms show ?thesis unfolding of_book_def by metis
qed

lemma on_event_recipient: "on_event D ev d = (r, d', out) \<Longrightarrow> recipient d' = recipient d"
proof (cases ev)
  case (Request k alive req)
  assume "on_event D ev d = (r, d', out)"
  with Request show ?thesis
    by (cases req) (auto simp: deliver_def get_invoice_status_def create_invoice_def order_paid_def
        update_currencies_def Let_def
        split: if_splits prod.splits sum.splits option.splits order_create_response.splits)
next
  case (Cancelled k)
  assume "on_event D ev d = (r, d', out)"
  with Cancelled show ?thesis by (auto simp: state_shutdown_def split: if_splits prod.splits)
qed

lemma state_sends_watch:
  assumes "daemon_inv D contents d" and "on_event D ev d = (r, d', out)"
    and "(n, TrackWatch a) \<in> set out"
  shows "of_book (de_crypto D) (recipient d) (ledger_in D contents d') (watch_invoice a)"
  using assms(2,3)
proof (cases rule: on_event_sends)
  case (created k alive q r1 d1)
  from create_invoice_sends [OF created(2) assms(3)] obtain p account x where
    call: "call_create_order (de_db D) (de_life D) k (query_order q) q p account (db d) = (Inr (New x), db d1)"
    and a: "watch_account_new (de_crypto D) (query_order q) x (recipient d) = Inr a"
    by blast
  from database.create_ok [OF assms(1) call] have "ledger_in D contents d1 (query_order q) = Some x"
    by (auto simp: spec_create_def Let_def split: option.splits if_splits) (metis fun_upd_same)
  with a created(3) show ?thesis by (auto intro: of_book_order)
next
  case (paid k alive oid)
  from order_paid_sends [OF paid(2) assms(3)] show ?thesis by blast
qed

text \<open>A payout that is ordered is for an order that has just become paid.\<close>

lemma state_sends_reap_paid:
  assumes "daemon_inv D contents d" and "on_event D ev d = (r, d', out)"
    and "(n, TrackReap a) \<in> set out"
  shows "of_book (de_crypto D) (recipient d) (ledger_in D contents d') (watch_invoice a) \<and>
    (\<exists>k alive x. ev = Request k alive (SOrderPaid (inv_id (watch_invoice a))) \<and>
      ledger_in D contents d' (inv_id (watch_invoice a)) = Some x \<and> payment_status x = Paid)"
proof -
  from state_sends_reap [OF assms(2,3)] obtain k alive oid x where
    ev: "ev = Request k alive (SOrderPaid oid)" and
    call: "call_mark_paid (de_db D) (de_life D) k oid (db d) = (Inr x, db d')" and
    a: "watch_account_new (de_crypto D) oid x (recipient d) = Inr a"
    by blast
  from database.paid_marks [OF assms(1) call] have x: "ledger_in D contents d' oid = Some x"
      "payment_status x = Paid"
    by auto
  moreover have "inv_id (watch_invoice a) = oid"
    using a by (auto simp: watch_account_new_def and_then_Inr_iff)
  ultimately show ?thesis using ev of_book_order [where L = "ledger_in D contents d'", OF a x(1)] by blast
qed

lemma state_sends_kinds:
  assumes "on_event D ev d = (r, d', out)" and "(n, req) \<in> set out"
  shows "\<exists>a. req = TrackWatch a \<or> req = TrackReap a"
  using assms
proof (cases rule: on_event_sends)
  case (created k alive q r1 d1)
  from create_invoice_sends [OF created(2) assms(2)] show ?thesis by blast
next
  case (paid k alive oid)
  from order_paid_sends [OF paid(2) assms(2)] show ?thesis by blast
qed

section \<open>The invariant\<close>

text \<open>A payment of the order was seen: a node answered a balance query for an invoice of the book with
  at least the amount asked.\<close>

definition seen_paid ::
    "('p, 'g, 'x) crypto_env \<Rightarrow> account \<Rightarrow> 'r chain_lib \<Rightarrow> 'w \<Rightarrow> ledger \<Rightarrow> string \<Rightarrow> bool" where
  "seen_paid Cr rec L w book oid \<longleftrightarrow>
     (\<exists>i (C :: 'w client). inv_id i = oid \<and> of_book Cr rec book i \<and> funded L i C)"

definition is_paid :: "ledger \<Rightarrow> string \<Rightarrow> bool" where
  "is_paid book oid \<longleftrightarrow> (\<exists>x. book oid = Some x \<and> payment_status x = Paid)"

text \<open>A payout that was ordered or begun for an invoice is justified.\<close>

definition justified ::
    "('p, 'g, 'x) crypto_env \<Rightarrow> account \<Rightarrow> 'r chain_lib \<Rightarrow> 'w \<Rightarrow> ledger \<Rightarrow> invoice \<Rightarrow> bool" where
  "justified Cr rec L w book i \<longleftrightarrow>
     of_book Cr rec book i \<and> is_paid book (inv_id i) \<and> seen_paid Cr rec L w book (inv_id i)"

definition request_ok ::
    "('p, 'g, 'x) crypto_env \<Rightarrow> account \<Rightarrow> 'r chain_lib \<Rightarrow> 'w \<Rightarrow> ledger \<Rightarrow> tracker_request \<Rightarrow> bool" where
  "request_ok Cr rec L w book req \<longleftrightarrow> (case req of
     TrackWatch a \<Rightarrow> of_book Cr rec book (watch_invoice a)
   | TrackReap a \<Rightarrow> justified Cr rec L w book (watch_invoice a)
   | _ \<Rightarrow> True)"

definition report_ok ::
    "('p, 'g, 'x) crypto_env \<Rightarrow> account \<Rightarrow> 'r chain_lib \<Rightarrow> 'w \<Rightarrow> ledger \<Rightarrow> state_request \<Rightarrow> bool" where
  "report_ok Cr rec L w book req \<longleftrightarrow>
     (case req of SOrderPaid oid \<Rightarrow> seen_paid Cr rec L w book oid | _ \<Rightarrow> True)"

lemmas ok_defs = seen_paid_def is_paid_def justified_def request_ok_def report_ok_def

lemma seen_paid_mono:
  fixes w w' :: 'w
  assumes "seen_paid Cr rec L w book oid" and "ledger_le book book'"
  shows "seen_paid Cr rec L w' book' oid"
  using assms of_book_mono unfolding seen_paid_def by metis

lemma is_paid_mono: "is_paid book oid \<Longrightarrow> ledger_le book book' \<Longrightarrow> is_paid book' oid"
  unfolding is_paid_def using ledger_le_paid by metis

lemma justified_mono:
  fixes w w' :: 'w
  assumes "justified Cr rec L w book i" and "ledger_le book book'"
  shows "justified Cr rec L w' book' i"
  using assms of_book_mono is_paid_mono seen_paid_mono unfolding justified_def by metis

lemma request_ok_mono:
  fixes w w' :: 'w
  assumes "request_ok Cr rec L w book req" and "ledger_le book book'"
  shows "request_ok Cr rec L w' book' req"
proof (cases req)
  case (TrackWatch a)
  with assms of_book_mono show ?thesis by (simp add: request_ok_def)
next
  case (TrackReap a)
  with assms(1) have "justified Cr rec L w book (watch_invoice a)" by (simp add: request_ok_def)
  from justified_mono [OF this assms(2)] TrackReap show ?thesis by (simp add: request_ok_def)
qed (simp_all add: request_ok_def)

lemma report_ok_mono:
  fixes w w' :: 'w
  assumes "report_ok Cr rec L w book req" and "ledger_le book book'"
  shows "report_ok Cr rec L w' book' req"
proof (cases req)
  case (SOrderPaid oid)
  with assms(1) have "seen_paid Cr rec L w book oid" by (simp add: report_ok_def)
  from seen_paid_mono [OF this assms(2)] SOrderPaid show ?thesis by (simp add: report_ok_def)
qed (simp_all add: report_ok_def)

text \<open>The payouts of one order: those begun and those on their way.\<close>

definition payouts_of :: "string \<Rightarrow> (nat \<times> string \<times> invoice) list \<Rightarrow> nat" where
  "payouts_of oid ps = length (filter (\<lambda>(n, endpoint, i). inv_id i = oid) ps)"

lemma payouts_of_simps [simp]: "payouts_of oid [] = 0"
  "payouts_of oid (xs @ ys) = payouts_of oid xs + payouts_of oid ys"
  by (simp_all add: payouts_of_def)

definition book_of ::
    "('t, 'v, 'p, 'g, 'x) daemon_env \<Rightarrow> ('t \<Rightarrow> bytes \<rightharpoonup> 'v) \<Rightarrow> ('t, 'r, 'w) system \<Rightarrow> ledger" where
  "book_of D contents s = ledger_in D contents (sys_daemon s)"

text \<open>Everything on its way is in order with respect to a book.\<close>

definition sys_msgs ::
    "('p, 'g, 'x) crypto_env \<Rightarrow> account \<Rightarrow> 'r chain_lib \<Rightarrow> ledger \<Rightarrow> ('t, 'r, 'w) system \<Rightarrow> bool" where
  "sys_msgs Cr rec L book s \<longleftrightarrow>
     (\<forall>m \<in> set (sys_restoring s).
        (\<exists>a. snd m = TrackWatch a) \<and> request_ok Cr rec L (sys_world s) book (snd m)) \<and>
     (\<forall>m \<in> set (sys_in_flight s). request_ok Cr rec L (sys_world s) book (snd m)) \<and>
     (\<forall>req \<in> set (sys_to_state s). report_ok Cr rec L (sys_world s) book req) \<and>
     (\<forall>n. \<forall>oi \<in> set (watching (sys_watchers s n)).
        fst oi = inv_id (snd oi) \<and> of_book Cr rec book (snd oi)) \<and>
     (\<forall>p \<in> set (sys_payouts s). justified Cr rec L (sys_world s) book (snd (snd p)))"

lemma sys_msgs_mono:
  assumes "sys_msgs Cr rec L book s" and "ledger_le book book'"
  shows "sys_msgs Cr rec L book' s"
  using assms request_ok_mono [OF _ assms(2)] report_ok_mono [OF _ assms(2)]
    of_book_mono [OF _ assms(2)] justified_mono [OF _ assms(2)]
  unfolding sys_msgs_def by metis

definition count_ok :: "ledger \<Rightarrow> ('t, 'r, 'w) system \<Rightarrow> bool" where
  "count_ok book s \<longleftrightarrow> (\<forall>oid. reaps oid (sys_in_flight s) + payouts_of oid (sys_payouts s) \<le>
     (if is_paid book oid then 1 else 0))"

definition sys_inv ::
    "('t, 'v, 'p, 'g, 'x) daemon_env \<Rightarrow> ('t \<Rightarrow> bytes \<rightharpoonup> 'v) \<Rightarrow> 'r chain_lib \<Rightarrow> account
      \<Rightarrow> ('t, 'r, 'w) system \<Rightarrow> bool" where
  "sys_inv D contents L rec s \<longleftrightarrow>
     daemon_inv D contents (sys_daemon s) \<and> recipient (sys_daemon s) = rec \<and>
     sys_msgs (de_crypto D) rec L (book_of D contents s) s \<and> count_ok (book_of D contents s) s"

text \<open>The state's event.\<close>

text \<open>What the state sends is in order with respect to the book it leaves.\<close>

lemma state_sends_ok:
  fixes w :: 'w
  assumes di: "daemon_inv D contents d" and rec: "recipient d = rec"
    and ev: "on_event D ev d = (r, d', out)" and m: "m \<in> set out"
    and ok: "\<And>k alive oid. ev = Request k alive (SOrderPaid oid) \<Longrightarrow>
      seen_paid (de_crypto D) rec L w (ledger_in D contents d') oid"
  shows "request_ok (de_crypto D) rec L w (ledger_in D contents d') (snd m)"
proof -
  obtain n req where nr: "m = (n, req)" by fastforce
  from state_sends_kinds [OF ev m [unfolded nr]] obtain a where
    "req = TrackWatch a \<or> req = TrackReap a" by blast
  then show ?thesis
  proof
    assume "req = TrackWatch a"
    with state_sends_watch [OF di ev] m nr rec show ?thesis by (simp add: request_ok_def)
  next
    assume req: "req = TrackReap a"
    from state_sends_reap_paid [OF di ev] m nr req rec ok show ?thesis
      by (fastforce simp: request_ok_def justified_def is_paid_def)
  qed
qed

lemma state_event_count:
  assumes di: "daemon_inv D contents d" and ev: "on_event D ev d = (r, d', out)"
    and before: "n \<le> (if is_paid (ledger_in D contents d) oid then 1 else 0)"
  shows "n + reaps oid out \<le> (if is_paid (ledger_in D contents d') oid then 1 else 0)"
proof -
  have "ledger_le (ledger_in D contents d) (ledger_in D contents d')"
    using on_event_evolves [OF di ev] by simp
  moreover from on_event_reaps [OF di ev, of oid] have "reaps oid out = 0 \<or> reaps oid out = 1 \<and>
      \<not> is_paid (ledger_in D contents d) oid \<and> is_paid (ledger_in D contents d') oid"
    by (cases "reaps oid out = 1") (auto simp: is_paid_def)
  ultimately show ?thesis using before is_paid_mono by (auto split: if_splits)
qed

lemma handle_event_inv:
  fixes s :: "('t, 'r, 'w) system"
  assumes inv: "sys_inv D contents L rec s"
    and ok: "\<And>k alive oid. ev = Request k alive (SOrderPaid oid) \<Longrightarrow>
      seen_paid (de_crypto D) rec L (sys_world s) (book_of D contents s) oid"
  shows "sys_inv D contents L rec (handle_event D ev s)"
proof -
  obtain r d' out where ev: "on_event D ev (sys_daemon s) = (r, d', out)" by (rule prod_cases3)
  let ?s = "s\<lparr>sys_daemon := d', sys_in_flight := sys_in_flight s @ out\<rparr>"
  have s': "handle_event D ev s = ?s" by (simp add: handle_event_def ev)
  from inv have di: "daemon_inv D contents (sys_daemon s)" and rec: "recipient (sys_daemon s) = rec"
    and msgs: "sys_msgs (de_crypto D) rec L (book_of D contents s) s"
    and count: "count_ok (book_of D contents s) s"
    by (simp_all add: sys_inv_def)
  have book: "book_of D contents ?s = ledger_in D contents d'" by (simp add: book_of_def)
  from on_event_evolves [OF di ev] have di': "daemon_inv D contents d'" and
    le: "ledger_le (book_of D contents s) (ledger_in D contents d')"
    by (simp_all add: book_of_def)
  have "request_ok (de_crypto D) rec L (sys_world s) (ledger_in D contents d') (snd m)" if "m \<in> set out" for m
    by (rule state_sends_ok [OF di rec ev that]) (rule seen_paid_mono [OF ok le])
  then have "sys_msgs (de_crypto D) rec L (ledger_in D contents d') ?s"
    using sys_msgs_mono [OF msgs le] unfolding sys_msgs_def by (simp add: ball_Un)
  moreover have "count_ok (ledger_in D contents d') ?s"
    unfolding count_ok_def
  proof
    fix oid
    have "reaps oid (sys_in_flight s) + payouts_of oid (sys_payouts s) \<le>
        (if is_paid (ledger_in D contents (sys_daemon s)) oid then 1 else 0)"
      using count by (simp add: count_ok_def book_of_def)
    from state_event_count [OF di ev this]
    show "reaps oid (sys_in_flight ?s) + payouts_of oid (sys_payouts ?s) \<le>
        (if is_paid (ledger_in D contents d') oid then 1 else 0)" by simp
  qed
  ultimately show ?thesis
    unfolding s' sys_inv_def book using di' rec on_event_recipient [OF ev] by simp
qed

text \<open>The watcher's step.\<close>

lemma in_report:
  assumes "req \<in> set (concat (map report out))"
  shows "(\<exists>cs. req = SConnectChain cs) \<or> (\<exists>oid. req = SOrderPaid oid \<and> OrderPaid oid \<in> set out)"
proof -
  have "x \<in> set out \<Longrightarrow> req \<in> set (report x) \<Longrightarrow> ?thesis" for x by (cases x) auto
  with assms show ?thesis by auto
qed

lemma tracker_step_spawns:
  assumes "tracker_step L connect chain x s w = Some (t, out, w')"
  shows "concat (map (begun n) out) = (case x of Receive now (TrackReap a) \<Rightarrow>
    (case phase s of Serving C watcher endpoint \<Rightarrow> [(n, endpoint, watch_invoice a)] | _ \<Rightarrow> []) | _ \<Rightarrow> [])"
proof -
  have none: "concat (map (begun n) (map OrderPaid ids)) = []" for ids by (induction ids) auto
  show ?thesis
  proof (cases x)
    case (TryEndpoint cancelled)
    with assms none show ?thesis
      by (auto simp: Let_def dest!: prepare_chain_ok
          split: tracker_phase.splits if_splits option.splits prod.splits sum.splits)
  next
    case NoRequest
    with assms show ?thesis by (auto split: tracker_phase.splits)
  next
    case (Receive now req)
    have blk: "concat (map (begun n) out') = []"
      if "on_new_block L C watcher now number ws u = (oc, out', ws', u')" for C watcher number ws u oc out' ws' u'
      using that none by (auto simp: on_new_block_def
          split: prod.splits sum.splits events_outcome.splits if_splits)
    from assms Receive show ?thesis
      by (cases req) (auto split: tracker_phase.splits prod.splits dest: blk)
  qed
qed

text \<open>The state of the world does not matter for what was seen.\<close>

lemma worlds_alike:
  fixes w w' :: 'w
  shows "justified Cr rec L w = justified Cr rec L w'"
    and "request_ok Cr rec L w = request_ok Cr rec L w'"
    and "report_ok Cr rec L w = report_ok Cr rec L w'"
proof -
  have seen: "seen_paid Cr rec L w = seen_paid Cr rec L w'"
    by (simp add: fun_eq_iff seen_paid_def)
  show just: "justified Cr rec L w = justified Cr rec L w'"
    by (simp add: fun_eq_iff justified_def seen)
  show "request_ok Cr rec L w = request_ok Cr rec L w'" "report_ok Cr rec L w = report_ok Cr rec L w'"
    unfolding fun_eq_iff request_ok_def report_ok_def just seen by simp_all
qed

text \<open>What a watcher of a sound system reports is sound, and so is what it watches.\<close>

lemma watcher_sound:
  fixes s :: "('t, 'r, 'w) system"
  assumes msgs: "sys_msgs Cr rec L book s"
    and step: "tracker_step L connect chain x (sys_watchers s n) (sys_world s) = Some (t, out, w)"
    and ok: "\<And>now req. x = Receive now req \<Longrightarrow> request_ok Cr rec L (sys_world s) book req"
  shows "(\<forall>oi \<in> set (watching t). fst oi = inv_id (snd oi) \<and> of_book Cr rec book (snd oi)) \<and>
    (\<forall>req \<in> set (concat (map report out)). report_ok Cr rec L w book req)"
proof -
  have watched: "\<forall>(oid, i) \<in> set (watching (sys_watchers s n)). oid = inv_id i \<and> of_book Cr rec book i"
    using msgs by (force simp: sys_msgs_def)
  have told: "of_book Cr rec book (watch_invoice a)" if "x = Receive now (TrackWatch a)" for now a
    using ok [OF that] by (simp add: request_ok_def)
  have sound: "(\<forall>(oid, i) \<in> set (watching t). oid = inv_id i \<and> of_book Cr rec book i) \<and>
    (\<forall>oid. OrderPaid oid \<in> set out \<longrightarrow>
      (\<exists>i (C :: 'w client). of_book Cr rec book i \<and> inv_id i = oid \<and> funded L i C))"
    by (rule tracker_step_sound [OF step watched told])
  have "report_ok Cr rec L w book req" if "req \<in> set (concat (map report out))" for req
    using in_report [OF that]
  proof (elim disjE exE conjE)
    fix oid assume "req = SOrderPaid oid" "OrderPaid oid \<in> set out"
    with sound show ?thesis unfolding report_ok_def seen_paid_def by (simp, metis)
  qed (simp add: report_ok_def)
  with sound show ?thesis by (auto simp: case_prod_beta)
qed

lemma absorb_inv:
  fixes s :: "('t, 'r, 'w) system" and D :: "('t, 'v, 'p, 'g, 'x) daemon_env"
  assumes inv: "sys_inv D contents L rec s"
    and step: "tracker_step L connect chain x (sys_watchers s n) (sys_world s) = Some res"
    and ok: "\<And>now req. x = Receive now req \<Longrightarrow>
      request_ok (de_crypto D) rec L (sys_world s) (book_of D contents s) req"
    and room: "\<And>now a. x = Receive now (TrackReap a) \<Longrightarrow>
      reaps (inv_id (watch_invoice a)) (sys_in_flight s) +
      payouts_of (inv_id (watch_invoice a)) (sys_payouts s) = 0"
  shows "sys_inv D contents L rec (absorb n res s)"
proof -
  let ?book = "book_of D contents s" and ?s = "absorb n res s"
  obtain t out w where res: "res = (t, out, w)" by (rule prod_cases3)
  define sp where "sp = concat (map (begun n) out)"
  have s': "sys_daemon ?s = sys_daemon s" "sys_restoring ?s = sys_restoring s"
    "sys_watchers ?s = (sys_watchers s)(n := t)" "sys_in_flight ?s = sys_in_flight s"
    "sys_to_state ?s = sys_to_state s @ concat (map report out)"
    "sys_payouts ?s = sys_payouts s @ sp" "sys_world ?s = w" "book_of D contents ?s = ?book"
    by (simp_all add: absorb_def res sp_def book_of_def)
  from inv have msgs: "sys_msgs (de_crypto D) rec L ?book s" and count: "count_ok ?book s"
    by (simp_all add: sys_inv_def)
  note sound = watcher_sound [OF msgs step [unfolded res] ok]
  have spawned: "sp = [] \<or> (\<exists>now a endpoint. x = Receive now (TrackReap a) \<and>
      sp = [(n, endpoint, watch_invoice a)])"
    using tracker_step_spawns [OF step [unfolded res], of n]
    by (auto simp: sp_def split: tracker_input.splits tracker_request.splits tracker_phase.splits)
  with ok have "justified (de_crypto D) rec L (sys_world s) ?book (snd (snd p))" if "p \<in> set sp" for p
    using that by (auto simp: request_ok_def)
  then have "sys_msgs (de_crypto D) rec L ?book ?s"
    using msgs sound unfolding sys_msgs_def s' worlds_alike [where w = w and w' = "sys_world s"]
    by (simp add: ball_Un)
  moreover have "reaps oid (sys_in_flight s) + payouts_of oid (sys_payouts s @ sp) \<le>
      (if is_paid ?book oid then 1 else 0)" for oid
  proof -
    have before: "reaps oid (sys_in_flight s) + payouts_of oid (sys_payouts s) \<le>
        (if is_paid ?book oid then 1 else 0)"
      using count by (simp add: count_ok_def)
    from spawned show ?thesis
    proof (elim disjE exE conjE)
      fix now a endpoint
      assume x: "x = Receive now (TrackReap a)" and out: "sp = [(n, endpoint, watch_invoice a)]"
      from ok [OF x] have "is_paid ?book (inv_id (watch_invoice a))"
        by (simp add: request_ok_def justified_def)
      with before room [OF x] out show ?thesis
        by (cases "inv_id (watch_invoice a) = oid") (auto simp: payouts_of_def)
    qed (use before in simp)
  qed
  ultimately show ?thesis using inv unfolding sys_inv_def count_ok_def s' by simp
qed

lemma take_for_Some:
  "take_for n ms = Some (req, rest) \<Longrightarrow>
     \<exists>pre post. ms = pre @ (n, req) # post \<and> rest = pre @ post"
proof (induction n ms arbitrary: rest rule: take_for.induct)
  case (2 n k r ms)
  show ?case
  proof (cases "k = n")
    case True
    with 2(2) show ?thesis by (intro exI [of _ "[]"] exI [of _ ms]) auto
  next
    case False
    with 2(2) obtain rest' where "take_for n ms = Some (req, rest')" "rest = (k, r) # rest'"
      by auto
    with 2(1) [OF False] show ?thesis by (metis append_Cons)
  qed
qed simp

lemma reaps_Cons [simp]: "reaps oid (m # ms) = (if is_reap oid m then 1 else 0) + reaps oid ms"
  by (simp add: reaps_def)

text \<open>The steps of the channels.\<close>

lemma cancel_inv:
  assumes "sys_inv D contents L rec s"
  shows "sys_inv D contents L rec
    (s\<lparr>sys_in_flight := sys_in_flight s @ stop_requests D k d\<rparr>)"
proof -
  have stops: "\<forall>m \<in> set (stop_requests D k d). snd m = TrackShutdown" by (auto simp: stop_requests_def)
  then have "reaps oid (stop_requests D k d) = 0" for oid by (simp add: reaps_def is_reap_def)
  with assms stops show ?thesis
    by (simp add: sys_inv_def sys_msgs_def count_ok_def book_of_def ball_Un request_ok_def)
qed

lemma restore_inv:
  assumes "sys_inv D contents L rec s" and "sys_restoring s = m # ms"
  shows "sys_inv D contents L rec (s\<lparr>sys_restoring := ms, sys_in_flight := sys_in_flight s @ [m]\<rparr>)"
proof -
  have "\<exists>a. snd m = TrackWatch a" using assms by (simp add: sys_inv_def sys_msgs_def)
  then have "is_reap oid m = False" for oid by (auto simp: is_reap_def)
  then show ?thesis
    using assms by (auto simp: sys_inv_def sys_msgs_def count_ok_def book_of_def)
qed

text \<open>A request taken off its channel is in order, and leaves room for what it asks for.\<close>

lemma taken_inv:
  assumes inv: "sys_inv D contents L rec s" and take: "take_for n (sys_in_flight s) = Some (req, rest)"
  shows "sys_inv D contents L rec (s\<lparr>sys_in_flight := rest\<rparr>)"
    and "request_ok (de_crypto D) rec L (sys_world s) (book_of D contents s) req"
    and "req = TrackReap a \<Longrightarrow> reaps (inv_id (watch_invoice a)) rest +
      payouts_of (inv_id (watch_invoice a)) (sys_payouts s) = 0"
proof -
  from take_for_Some [OF take] obtain pre post where
    ms: "sys_in_flight s = pre @ (n, req) # post" and rest: "rest = pre @ post" by blast
  have count: "(if is_reap oid (n, req) then 1 else 0) + reaps oid rest + payouts_of oid (sys_payouts s) \<le>
      (if is_paid (book_of D contents s) oid then 1 else 0)" for oid
    using inv by (auto simp: sys_inv_def count_ok_def ms rest split: if_splits dest!: spec [of _ oid])
  have "reaps oid rest + payouts_of oid (sys_payouts s) \<le>
      (if is_paid (book_of D contents s) oid then 1 else 0)" for oid
    using count [of oid] by linarith
  then show "sys_inv D contents L rec (s\<lparr>sys_in_flight := rest\<rparr>)"
    using inv unfolding sys_inv_def sys_msgs_def count_ok_def by (simp add: ms rest ball_Un book_of_def)
  show "request_ok (de_crypto D) rec L (sys_world s) (book_of D contents s) req"
    using inv by (simp add: sys_inv_def sys_msgs_def ms)
  show "reaps (inv_id (watch_invoice a)) rest + payouts_of (inv_id (watch_invoice a)) (sys_payouts s) = 0"
    if "req = TrackReap a"
    using count [of "inv_id (watch_invoice a)"] that by (simp add: is_reap_def split: if_splits)
qed

lemma sys_step_inv:
  fixes s :: "('t, 'r, 'w) system" and D :: "('t, 'v, 'p, 'g, 'x) daemon_env"
  assumes inv: "sys_inv D contents L rec s" and step: "sys_step D L connect config ev s = Some s'"
  shows "sys_inv D contents L rec s'"
proof (cases ev)
  case (Web k alive req)
  with step have req: "from_web req" and s': "s' = handle_event D (Request k alive req) s"
    by (auto split: if_splits)
  show ?thesis unfolding s' by (rule handle_event_inv [OF inv]) (use req in auto)
next
  case (Message k)
  with step obtain req reqs where q: "sys_to_state s = req # reqs" and
    s': "s' = handle_event D (Request k True req) (s\<lparr>sys_to_state := reqs\<rparr>)"
    by (auto split: list.splits)
  have "sys_inv D contents L rec (s\<lparr>sys_to_state := reqs\<rparr>)"
    using inv q by (simp add: sys_inv_def sys_msgs_def count_ok_def book_of_def)
  moreover have "report_ok (de_crypto D) rec L (sys_world s) (book_of D contents s) req"
    using inv q by (simp add: sys_inv_def sys_msgs_def)
  ultimately show ?thesis
    unfolding s' by (intro handle_event_inv) (auto simp: report_ok_def book_of_def)
next
  case (Cancel k)
  have "sys_inv D contents L rec (handle_event D (Cancelled k) s)" by (rule handle_event_inv [OF inv]) auto
  from cancel_inv [OF this, of k "sys_daemon s"] step Cancel show ?thesis by (simp add: Let_def)
next
  case Restore
  with step restore_inv [OF inv] show ?thesis by (auto split: list.splits)
next
  case (Watcher n x)
  with step obtain res where x: "own_input x" and
    t: "tracker_step L connect (config ! n) x (sys_watchers s n) (sys_world s) = Some res" and
    s': "s' = absorb n res s"
    by (auto split: if_splits)
  have own: "\<exists>number. req = TrackNewBlock number" if "x = Receive now req" for now req
    using x that by (cases req) auto
  show ?thesis
    unfolding s' by (rule absorb_inv [OF inv t]) (use own in \<open>auto simp: request_ok_def\<close>)
next
  case (Deliver n now)
  with step obtain req rest res where take: "take_for n (sys_in_flight s) = Some (req, rest)" and
    t: "tracker_step L connect (config ! n) (Receive now req) (sys_watchers s n) (sys_world s) = Some res" and
    s': "s' = absorb n res (s\<lparr>sys_in_flight := rest\<rparr>)"
    by (auto split: if_splits option.splits)
  show ?thesis
    unfolding s' by (intro absorb_inv [OF taken_inv(1) [OF inv take]])
      (use t taken_inv(2,3) [OF inv take] in \<open>auto simp: book_of_def\<close>)
qed

text \<open>The start.\<close>

lemma order_list_evolves:
  assumes "db_inv E contents s" and "call_order_list E life k s = (r, s')"
  shows "db_inv E contents s' \<and> ledger_le (db_view E contents s) (db_view E contents s')"
proof (cases "serving s")
  case True
  obtain reply u where u: "serve E life k ActiveOrderList s = (reply, u)" by fastforce
  with True assms(2) have "u = s'"
    by (auto simp: call_order_list_def db_call_def split: prod.splits)
  with serve_step [OF assms(1) _ u] show ?thesis by simp
next
  case False
  with assms show ?thesis by (simp add: call_order_list_def db_call_def)
qed

lemma state_start_sends:
  assumes "daemon_inv D contents d" and st: "state_start D k m d = (d', out)"
  shows "daemon_inv D contents d' \<and> recipient d' = recipient d \<and>
    (\<forall>msg \<in> set out. \<exists>a. snd msg = TrackWatch a \<and>
      of_book (de_crypto D) (recipient d) (ledger_in D contents d') (watch_invoice a))"
proof (cases m)
  case None
  with st assms show ?thesis by (auto simp: state_start_def)
next
  case (Some mm)
  obtain r db' where call: "call_order_list (de_db D) (de_life D) k (db d) = (r, db')" by fastforce
  note ev = order_list_evolves [OF assms(1) call]
  show ?thesis
  proof (cases r)
    case (Inl e)
    with st call ev Some show ?thesis by (auto simp: state_start_def)
  next
    case (Inr xs)
    with st call Some have d': "db d' = db'" "recipient d' = recipient d" and
      out: "out = concat (map (\<lambda>(oid, x). snd (add_invoice (de_crypto D) (de_ack D) (Some mm) oid x
        (recipient d))) xs)"
      by (auto simp: state_start_def)
    have "\<exists>a. snd msg = TrackWatch a \<and>
        of_book (de_crypto D) (recipient d) (ledger_in D contents d') (watch_invoice a)"
      if "msg \<in> set out" for msg
    proof -
      from that obtain oid x where x: "(oid, x) \<in> set xs" and
        "(fst msg, snd msg) \<in> set (snd (add_invoice (de_crypto D) (de_ack D) (Some mm) oid x (recipient d)))"
        unfolding out by auto
      from add_invoice_sends [OF this(2)] obtain a where a: "snd msg = TrackWatch a"
        "watch_account_new (de_crypto D) oid x (recipient d) = Inr a" by blast
      from order_list_ledger [OF assms(1) call [unfolded Inr]] x
      have "ledger_in D contents d oid = Some x" by blast
      from of_book_mono [OF of_book_order [where L = "ledger_in D contents d", OF a(2) this]] ev a(1) d'
      show ?thesis by simp
    qed
    with ev d' show ?thesis by simp
  qed
qed

lemma system_start_inv:
  assumes "daemon_inv D contents d"
  shows "sys_inv D contents L (recipient d) (system_start D k m d w)"
proof -
  obtain d' out where st: "state_start D k m d = (d', out)" by fastforce
  have s: "system_start D k m d w = \<lparr>sys_daemon = d', sys_restoring = out,
      sys_watchers = (\<lambda>_. tracker_start), sys_in_flight = [], sys_to_state = [], sys_payouts = [],
      sys_world = w\<rparr>"
    by (simp add: system_start_def system_from_def st)
  from state_start_sends [OF assms st] show ?thesis
    unfolding s by (auto simp: sys_inv_def sys_msgs_def count_ok_def book_of_def request_ok_def tracker_start_def)
qed

lemma reachable_inv:
  assumes "reachable D L connect config s0 s" and "sys_inv D contents L rec s0"
  shows "sys_inv D contents L rec s"
  using assms by (induction rule: reachable.induct) (auto dest: sys_step_inv)

text \<open>What the invariant says of the payouts begun.\<close>

lemma reachable_payout:
  fixes w :: 'w
  assumes "daemon_inv D contents d"
    and "reachable D L connect config (system_start D k m d w) s"
    and "(n, endpoint, i) \<in> set (sys_payouts s)"
  shows "\<exists>x j (C :: 'w client) watcher block w1 w2 b.
    ledger_in D contents (sys_daemon s) (inv_id i) = Some x \<and> payment_status x = Paid \<and>
    (\<exists>v. account_from_base58 (de_crypto D) (payment_account x) = Inr (inv_address i, v)) \<and>
    inv_id j = inv_id i \<and> inv_address j = inv_address i \<and> inv_recipient i = recipient d \<and>
    invoice_balance L C watcher block j w1 = (Inr b, w2) \<and> inv_amount j \<le> b"
proof -
  from reachable_inv [OF assms(2) system_start_inv [OF assms(1)]]
  have "sys_inv D contents L (recipient d) s" .
  with assms(3) have "justified (de_crypto D) (recipient d) L (sys_world s) (book_of D contents s) i"
    by (force simp: sys_inv_def sys_msgs_def)
  then obtain j and C :: "'w client" where
    i: "of_book (de_crypto D) (recipient d) (book_of D contents s) i" and
    paid: "is_paid (book_of D contents s) (inv_id i)" and
    j: "inv_id j = inv_id i" "of_book (de_crypto D) (recipient d) (book_of D contents s) j" "funded L j C"
    unfolding justified_def seen_paid_def by blast
  from of_bookD [OF i] obtain x v where x: "book_of D contents s (inv_id i) = Some x"
      "inv_recipient i = recipient d"
      "account_from_base58 (de_crypto D) (payment_account x) = Inr (inv_address i, v)"
    by blast
  from of_bookD [OF j(2)] x j(1) have "inv_address j = inv_address i" by simp
  with x paid j(1,3) show ?thesis
    unfolding funded_def is_paid_def book_of_def by (metis option.inject)
qed

lemma reachable_once:
  assumes "daemon_inv D contents d"
    and "reachable D L connect config (system_start D k m d w) s"
  shows "length (filter (\<lambda>(n, endpoint, i). inv_id i = oid) (sys_payouts s)) \<le> 1"
proof -
  from reachable_inv [OF assms(2) system_start_inv [OF assms(1)]]
  have "count_ok (book_of D contents s) s" by (simp add: sys_inv_def)
  then have "reaps oid (sys_in_flight s) + payouts_of oid (sys_payouts s) \<le> 1"
    by (auto simp: count_ok_def intro: order_trans split: if_splits dest: spec [of _ oid])
  then show ?thesis by (simp add: payouts_of_def)
qed

end
