(* ===== verification/Payout.thy ===== *)
theory Payout
  imports Toy_Node
begin

text \<open>
  The payout of \<open>src/chain/payout.rs\<close>: read the balance of a paid order's account at the current
  block and, when it exceeds the order's amount by at most the tolerance, sign and submit one
  transfer to the recipient. The subtraction is the source's on \<open>u128\<close>, which wraps around in a
  release build (a build with overflow checks panics instead).
\<close>

section \<open>The payout\<close>

text \<open>What the constructor library does with a filled transaction: its bytes to sign, and the extrinsic
  once the signature is in.\<close>

record ('r, 'g) payout_lib =
  sign_this :: "transaction_to_fill \<Rightarrow> bytes option"
  send_this_signed :: "transaction_to_fill \<Rightarrow> 'g \<Rightarrow> 'r metadata \<Rightarrow> chain_error + bytes option"

definition loss_tolerance :: u128 where
  "loss_tolerance = 10000"

definition manual_intervention_amount :: u128 where
  "manual_intervention_amount = 1000000000000"

datatype payout_choice = PayOut | Overpaid | OutOfRange

definition payout_choice :: "balance \<Rightarrow> balance \<Rightarrow> payout_choice" where
  "payout_choice b amount = (let a = units b - units amount in
     if 0 \<le> a \<and> a \<le> loss_tolerance then PayOut
     else if loss_tolerance \<le> a \<and> a \<le> manual_intervention_amount then Overpaid
     else OutOfRange)"

definition payout_call ::
    "'r chain_lib \<Rightarrow> 'r chain_watcher \<Rightarrow> invoice \<Rightarrow> currency_properties \<Rightarrow> chain_error + type_to_fill" where
  "payout_call L watcher i currency = (case cp_kind currency of
     Native \<Rightarrow> construct_single_balance_transfer_call L (w_metadata watcher)
       \<lparr>bt_amount = units (inv_amount i), bt_to_account = inv_recipient i, bt_is_clearing = True\<rparr>
   | Asset \<Rightarrow> and_then (ok_or AssetId (cp_asset_id currency)) (\<lambda>aid.
       construct_single_asset_transfer_call L (w_metadata watcher)
         \<lparr>at_asset_id = aid, at_amount = units (inv_amount i), at_to_account = inv_recipient i\<rparr>))"

text \<open>\<open>signer\<close> is the signer's handle: the order id and the bytes to its answer.\<close>

definition payout ::
    "'r chain_lib \<Rightarrow> ('r, 'g) payout_lib \<Rightarrow> (string \<Rightarrow> 'w \<Rightarrow> 'w client option \<times> 'w)
      \<Rightarrow> (string \<Rightarrow> bytes \<Rightarrow> signer_error + 'g) \<Rightarrow> string \<Rightarrow> invoice \<Rightarrow> 'r chain_watcher
      \<Rightarrow> ('w, chain_error, unit) call" where
  "payout L P connect signer rpc i watcher = (\<lambda>w. case connect rpc w of
     (None, w1) \<Rightarrow> (Inr (), w1)
   | (Some C, w1) \<Rightarrow>
      call_then (block_hash_at L C None) (\<lambda>block.
      call_then (current_block_number L C (w_metadata watcher) block) (\<lambda>number.
      call_then (invoice_balance L C watcher block i) (\<lambda>b.
      call_then (call_of (ok_or (InvalidCurrency (inv_currency i))
          (map_of (w_assets watcher) (inv_currency i)))) (\<lambda>currency.
        (case payout_choice b (inv_amount i) of
           Overpaid \<Rightarrow> call_ok ()
         | OutOfRange \<Rightarrow> call_ok ()
         | PayOut \<Rightarrow>
            call_then (call_of (payout_call L watcher i currency)) (\<lambda>transfer.
            call_then (call_of (construct_batch_transaction L (w_metadata watcher)
                (w_genesis_hash watcher) (inv_address i) [transfer] block number 0)) (\<lambda>batch.
            call_then (call_of (ok_or TransactionNotSignable (sign_this P batch))) (\<lambda>to_sign.
            call_then (call_of (map_err ChainSigner (signer (inv_id i) to_sign))) (\<lambda>signature.
            call_then (call_of (and_then (send_this_signed P batch signature (w_metadata watcher))
                (ok_or NothingToSend))) (\<lambda>extrinsic.
            call_then (send_stuff C (''0x'' @ hex_encode L extrinsic)) (\<lambda>_. call_ok ())))))))))))
      w1)"

section \<open>Lemmas\<close>

lemma choice_when_covered:
  assumes "amount \<le> b"
  shows "payout_choice b amount = PayOut \<longleftrightarrow> unat (units b) - unat (units amount) \<le> 10000"
proof -
  have le: "unat (units amount) \<le> unat (units b)"
    using assms by (simp add: less_eq_balance_def word_le_nat_alt)
  then have "unat (units b - units amount) = unat (units b) - unat (units amount)"
    by (simp add: unat_sub_if_size)
  then have "units b - units amount \<le> 10000 \<longleftrightarrow> unat (units b) - unat (units amount) \<le> 10000"
    by (simp add: word_le_nat_alt)
  then show ?thesis
    by (simp add: payout_choice_def loss_tolerance_def Let_def)
qed

lemma choice_when_short:
  assumes "b < amount"
  shows "payout_choice b amount = PayOut \<longleftrightarrow>
    2 ^ 128 - (unat (units amount) - unat (units b)) \<le> 10000"
proof -
  have lt: "unat (units b) < unat (units amount)"
    using assms by (simp add: less_balance_def word_less_nat_alt)
  have top: "unat (units amount) < 2 ^ 128"
    using unsigned_less [of "units amount"] by simp
  have "unat (units b - units amount) = 2 ^ 128 + unat (units b) - unat (units amount)"
    using lt by (simp add: unat_sub_if_size word_size)
  then have wrap: "unat (units b - units amount) = 2 ^ 128 - (unat (units amount) - unat (units b))"
    using lt top by linarith
  have "units b - units amount \<le> 10000 \<longleftrightarrow> unat (units b - units amount) \<le> unat (10000 :: u128)"
    by (rule word_le_nat_alt)
  then have "units b - units amount \<le> 10000 \<longleftrightarrow> unat (units b - units amount) \<le> 10000"
    by simp
  then show ?thesis
    unfolding wrap by (auto simp: payout_choice_def loss_tolerance_def Let_def)
qed

lemma position_named:
  "distinct xs \<Longrightarrow> k < length xs \<Longrightarrow> xs ! k = x \<Longrightarrow> position (\<lambda>y. y = x) xs = Some k"
  by (auto simp: position_Some nth_eq_iff_index_eq)

text \<open>The selection all builders share, when the pallet and the method are on offer.\<close>

lemma fill_method_selected:
  assumes "distinct available" "k < length available" "available ! k = pallet"
    and "variant_new_at L available reg k = Inr (available, k, [(n, FillVariant methods i ms)])"
    and "distinct methods" "t < length methods" "methods ! t = method"
    and "variant_new_at L methods reg t = Inr (methods, t, fs)"
  shows "fill_method L reg pallet method fill (FillVariant available j xs) =
    and_then (fill fs) (\<lambda>fs'. Inr (FillVariant available k [(n, FillVariant methods t fs')]))"
  using assms position_named [OF assms(1-3)] position_named [OF assms(5-7)]
  by (cases "fill fs") (simp_all add: fill_method_def select_at_def)

lemma fill_address_id:
  assumes "distinct names" "d < length names" "names ! d = ''Id''"
    and "variant_new_at L names reg d = Inr (names, d, [(n, FillAccount x)])"
  shows "fill_address L reg a (FillVariant names i fs) =
    Inr (FillVariant names d [(n, FillAccount (Some a))])"
  using assms position_named [OF assms(1-3)]
  by (simp add: fill_address_def select_at_def fill_single_account_def)

section \<open>Properties\<close>

text \<open>C27. The payout is attempted exactly when the balance exceeds the order's amount by at most 10000
  units, or when it falls short of it by so much that the unsigned difference wraps around to at
  most 10000.\<close>

theorem payout_decision:
  "payout_choice b amount = PayOut \<longleftrightarrow>
     (amount \<le> b \<and> unat (units b) - unat (units amount) \<le> 10000) \<or>
     (b < amount \<and> 2 ^ 128 \<le> 10000 + (unat (units amount) - unat (units b)))"
proof (cases "amount \<le> b")
  case True
  then show ?thesis using choice_when_covered [OF True] by (auto simp: not_less)
next
  case False
  then have short: "b < amount" by simp
  have "2 ^ 128 - (unat (units amount) - unat (units b)) \<le> (10000 :: nat) \<longleftrightarrow>
      2 ^ 128 \<le> 10000 + (unat (units amount) - unat (units b))"
    by linarith
  with choice_when_short [OF short] short False show ?thesis by simp
qed

text \<open>C29. Where the metadata offers \<open>Assets.transfer\<close> in its usual layout, the call built for an asset
  order transfers exactly the order's amount of exactly that asset to the recipient, and nothing
  else in the form is filled.\<close>

theorem asset_transfer_filled:
  assumes "prepare_type L (call_ty m) (registry m) = Inr (FillVariant available i0 fs0)"
    and "distinct available" "k < length available" "available ! k = ''Assets''"
    and "variant_new_at L available (registry m) k = Inr (available, k, [(n, FillVariant methods i1 fs1)])"
    and "distinct methods" "t < length methods" "methods ! t = ''transfer''"
    and "variant_new_at L methods (registry m) t = Inr (methods, t,
       [(Some ''id'', FillCompact (FillU32 None) SpecialtyNone),
        (Some ''target'', FillVariant kinds i2 fs2),
        (Some ''amount'', FillCompact (FillU128 None) SpecialtyBalance)])"
    and "distinct kinds" "d < length kinds" "kinds ! d = ''Id''"
    and "variant_new_at L kinds (registry m) d = Inr (kinds, d, [(n', FillAccount None)])"
  shows "construct_single_asset_transfer_call L m c =
    Inr (FillVariant available k [(n, FillVariant methods t
       [(Some ''id'', FillCompact (FillU32 (Some (at_asset_id c))) SpecialtyNone),
        (Some ''target'', FillVariant kinds d [(n', FillAccount (Some (at_to_account c)))]),
        (Some ''amount'', FillCompact (FillU128 (Some (at_amount c))) SpecialtyBalance)])])"
  using fill_method_selected [OF assms(2-9)] fill_address_id [OF assms(10-13)]
  by (simp add: construct_single_asset_transfer_call_def assms(1))

theorem asset_transfer_filled_witness:
  "construct_single_asset_transfer_call toy_lib toy_metadata
      \<lparr>at_asset_id = 1984, at_amount = 500, at_to_account = [3]\<rparr> =
    Inr (FillVariant toy_pallets 2 [(None, FillVariant [''transfer''] 0
       [(Some ''id'', FillCompact (FillU32 (Some 1984)) SpecialtyNone),
        (Some ''target'', FillVariant [''Id''] 0 [(None, FillAccount (Some [3]))]),
        (Some ''amount'', FillCompact (FillU128 (Some 500)) SpecialtyBalance)])])"
  by (subst asset_transfer_filled [where k = 2 and t = 0 and d = 0])
    (simp_all add: toy_pallets_def toy_fields_def toy_methods_def)

text \<open>For a native order the payout's call is \<open>Balances.transfer_all\<close> to the recipient with
  \<open>keep_alive\<close> false: the whole account is emptied, whatever the order's amount.\<close>

theorem native_payout_clears:
  assumes "cp_kind currency = Native" and "w_metadata watcher = m"
    and "prepare_type L (call_ty m) (registry m) = Inr (FillVariant available i0 fs0)"
    and "distinct available" "k < length available" "available ! k = ''Balances''"
    and "variant_new_at L available (registry m) k = Inr (available, k, [(n, FillVariant methods i1 fs1)])"
    and "distinct methods" "t < length methods" "methods ! t = ''transfer_all''"
    and "variant_new_at L methods (registry m) t = Inr (methods, t,
       [(Some ''dest'', FillVariant kinds i2 fs2), (Some ''keep_alive'', FillBool None)])"
    and "distinct kinds" "d < length kinds" "kinds ! d = ''Id''"
    and "variant_new_at L kinds (registry m) d = Inr (kinds, d, [(n', FillAccount None)])"
  shows "payout_call L watcher i currency =
    Inr (FillVariant available k [(n, FillVariant methods t
       [(Some ''dest'', FillVariant kinds d [(n', FillAccount (Some (inv_recipient i)))]),
        (Some ''keep_alive'', FillBool (Some False))])])"
  using fill_method_selected [OF assms(4-11)] fill_address_id [OF assms(12-15)]
  by (simp add: payout_call_def construct_single_balance_transfer_call_def assms(1-3))

theorem native_payout_clears_witness:
  "payout_call toy_lib toy_watcher (toy_invoice ''a'' [1] 7 50) (snd (hd toy_assets)) =
    Inr (FillVariant toy_pallets 1 [(None, FillVariant [''transfer_keep_alive'', ''transfer_all''] 1
       [(Some ''dest'', FillVariant [''Id''] 0 [(None, FillAccount (Some [3]))]),
        (Some ''keep_alive'', FillBool (Some False))])])"
  by (subst native_payout_clears [where k = 1 and t = 1 and d = 0 and m = toy_metadata])
    (simp_all add: toy_pallets_def toy_fields_def toy_methods_def toy_watcher_def toy_assets_def
      toy_invoice_def)

text \<open>The batch transaction carries exactly the given calls, in order, in the \<open>calls\<close> field of
  \<open>Utility.batch_all\<close>.\<close>

theorem batch_carries_calls:
  assumes "prepare_type L (call_ty m) (registry m) = Inr (FillVariant available i0 fs0)"
    and "distinct available" "k < length available" "available ! k = ''Utility''"
    and "variant_new_at L available (registry m) k = Inr (available, k, [(n, FillVariant methods i1 fs1)])"
    and "distinct methods" "t < length methods" "methods ! t = ''batch_all''"
    and "variant_new_at L methods (registry m) t = Inr (methods, t, [(Some ''calls'', FillSequence xs)])"
  shows "construct_batch_call L m call_set =
    Inr (FillVariant available k [(n, FillVariant methods t [(Some ''calls'', FillSequence call_set)])])"
  using fill_method_selected [OF assms(2-9)]
  by (simp add: construct_batch_call_def assms(1))

theorem batch_carries_calls_witness:
  "construct_batch_call toy_lib toy_metadata [FillOther ''one'', FillOther ''two''] =
    Inr (FillVariant toy_pallets 3 [(None, FillVariant [''batch'', ''batch_all''] 1
      [(Some ''calls'', FillSequence [FillOther ''one'', FillOther ''two''])])])"
  by (subst batch_carries_calls [where k = 3 and t = 1])
    (simp_all add: toy_pallets_def toy_fields_def toy_methods_def)

end
