(* ===== verification/Node_Simulation.thy ===== *)
theory Node_Simulation
  imports Toy_Node
begin

text \<open>
  The daemon cannot tell apart two nodes that answer alike. The interface is a pair of clients over two
  kinds of world and a relation between the worlds that every request keeps, the submission of an
  extrinsic excepted; every query of \<open>src/chain/rpc.rs\<close> and every step of the watcher of
  \<open>src/chain/tracker.rs\<close> then gives the same results and keeps the relation. A recorder of submissions around
  a client is the instance that matters: no query and no watcher submits anything.
\<close>

section \<open>Related calls\<close>

definition SUBMIT :: string where
  "SUBMIT = ''author_submitAndWatchExtrinsic''"

definition sim :: "('w \<Rightarrow> 'v \<Rightarrow> bool) \<Rightarrow> ('w \<Rightarrow> 'a \<times> 'w) \<Rightarrow> ('v \<Rightarrow> 'a \<times> 'v) \<Rightarrow> bool" where
  "sim R c c' \<longleftrightarrow> (\<forall>w v r w'. R w v \<longrightarrow> c w = (r, w') \<longrightarrow> (\<exists>v'. c' v = (r, v') \<and> R w' v'))"

named_theorems simulation \<open>related calls\<close>

lemma simE:
  assumes "sim R c c'" and "R w v" and "c w = (r, w')"
  obtains v' where "c' v = (r, v')" and "R w' v'"
  using assms unfolding sim_def by blast

lemma sim_of [simulation]: "sim R (call_of r) (call_of r)" "sim R (call_ok x) (call_ok x)"
    "sim R (call_err e) (call_err e)"
  by (simp_all add: sim_def)

lemma sim_map_err [simulation]: "sim R c c' \<Longrightarrow> sim R (call_map_err g c) (call_map_err g c')"
  by (fastforce simp: sim_def call_map_err_def split: prod.splits)

lemma sim_then [simulation]:
  assumes "sim R c c'" and "\<And>x. sim R (f x) (f' x)"
  shows "sim R (call_then c f) (call_then c' f')"
  unfolding sim_def
proof (intro allI impI)
  fix w v r w2 assume R: "R w v" and run: "call_then c f w = (r, w2)"
  obtain q w1 where c: "c w = (q, w1)" by fastforce
  obtain v1 where v1: "c' v = (q, v1)" "R w1 v1" by (rule simE [OF assms(1) R c])
  show "\<exists>v2. call_then c' f' v = (r, v2) \<and> R w2 v2"
  proof (cases q)
    case (Inr x)
    with run c have "f x w1 = (r, w2)" by (simp add: call_then_apply)
    then obtain v2 where "f' x v1 = (r, v2)" "R w2 v2" by (rule simE [OF assms(2) v1(2)])
    with v1 Inr show ?thesis by (simp add: call_then_apply)
  qed (use run c v1 in \<open>auto simp: call_then_apply\<close>)
qed

lemma sim_bind:
  assumes "sim R c c'" and "\<And>x. sim R (f x) (f' x)"
  shows "sim R (\<lambda>w. case c w of (x, w') \<Rightarrow> f x w') (\<lambda>v. case c' v of (x, v') \<Rightarrow> f' x v')"
  unfolding sim_def
proof (intro allI impI)
  fix w v r w2 assume R: "R w v" and run: "(case c w of (x, w') \<Rightarrow> f x w') = (r, w2)"
  obtain x w1 where c: "c w = (x, w1)" by fastforce
  obtain v1 where v1: "c' v = (x, v1)" "R w1 v1" by (rule simE [OF assms(1) R c])
  from run c have "f x w1 = (r, w2)" by simp
  then obtain v2 where "f' x v1 = (r, v2)" "R w2 v2" by (rule simE [OF assms(2) v1(2)])
  with v1 show "\<exists>v2. (case c' v of (x, v') \<Rightarrow> f' x v') = (r, v2) \<and> R w2 v2" by simp
qed

lemma sim_pair [simulation]: "sim R (Pair x) (Pair x)"
  by (simp add: sim_def)

section \<open>The interface of a node\<close>

locale node_simulation =
  fixes R :: "'w \<Rightarrow> 'v \<Rightarrow> bool" and C :: "'w client" and C' :: "'v client"
  assumes request_sim: "name \<noteq> SUBMIT \<Longrightarrow> sim R (request C name params) (request C' name params)"
    and subscribe_sim: "sim R (subscribe_heads C) (subscribe_heads C')"
    and next_sim: "sim R (next_head C) (next_head C')"
begin

lemma ask_sim: "name \<noteq> SUBMIT \<Longrightarrow> sim R (ask C name params) (ask C' name params)"
  unfolding ask_def by (intro simulation request_sim)

lemma query_sim:
  "sim R (runtime_version_identifier L C block) (runtime_version_identifier L C' block)"
  "sim R (subscribe_blocks C) (subscribe_blocks C')"
  "sim R (get_value_from_storage L C key block) (get_value_from_storage L C' key block)"
  "sim R (genesis_hash L C) (genesis_hash L C')"
  "sim R (block_hash_at L C number) (block_hash_at L C' number)"
  "sim R (metadata_at L C block) (metadata_at L C' block)"
  "sim R (specs_at L C m block) (specs_at L C' m block)"
  unfolding runtime_version_identifier_def subscribe_blocks_def get_value_from_storage_def
    genesis_hash_def block_hash_at_def metadata_at_def specs_at_def
  by (intro simulation ask_sim subscribe_sim;
      auto simp: SUBMIT_def intro: simulation split: json.split)+

lemma next_block_sim: "sim R (next_block L C) (next_block L C')"
proof -
  have "sim R (next_block_number C) (next_block_number C')"
    unfolding sim_def
  proof (intro allI impI)
    fix w v r w' assume R: "R w v" and run: "next_block_number C w = (r, w')"
    obtain x w1 where x: "next_head C w = (x, w1)" by fastforce
    obtain v1 where "next_head C' v = (x, v1)" "R w1 v1" by (rule simE [OF next_sim R x])
    with run x show "\<exists>v'. next_block_number C' v = (r, v') \<and> R w' v'"
      by (auto simp: next_block_number_def split: option.splits sum.splits)
  qed
  then show ?thesis unfolding next_block_def by (intro simulation query_sim)
qed

lemma keys_sim: "sim R (get_keys_from_storage L C prefix name block) (get_keys_from_storage L C' prefix name block)"
proof -
  have "\<exists>v'. key_pages C' n template b start acc v = (r, v') \<and> R w' v'"
    if "R w v" and "key_pages C n template b start acc w = (r, w')" for n template b start acc w v r w'
    using that
  proof (induction n arbitrary: start acc w v)
    case (Suc n)
    define params where "params = template @ (case start of Some k \<Rightarrow> [JString k] | None \<Rightarrow> []) @ [b]"
    obtain keys w1 where req: "request C ''state_getKeysPaged'' params w = (keys, w1)" by fastforce
    have rs: "sim R (request C ''state_getKeysPaged'' params) (request C' ''state_getKeysPaged'' params)"
      by (rule request_sim) (simp add: SUBMIT_def)
    obtain v1 where v1: "request C' ''state_getKeysPaged'' params v = (keys, v1)" "R w1 v1"
      by (rule simE [OF rs Suc.prems(1) req])
    show ?case
    proof (cases "\<exists>ks k. keys = Inr (JArray ks) \<and> ks \<noteq> [] \<and> last ks = JString k")
      case True
      then obtain ks k where ks: "keys = Inr (JArray ks)" "ks \<noteq> []" "last ks = JString k" by blast
      have step: "key_pages X (Suc n) template b start acc u = key_pages X n template b (Some k) (acc @ [JArray ks]) u1"
        if "request X ''state_getKeysPaged'' params u = (keys, u1)" for X :: "'x client" and u u1
        using that ks by (simp add: Let_def params_def)
      from Suc.prems(2) have "key_pages C n template b (Some k) (acc @ [JArray ks]) w1 = (r, w')"
        by (simp only: step [OF req])
      from Suc.IH [OF v1(2) this] show ?thesis by (simp only: step [OF v1(1)])
    next
      case False
      then have step: "key_pages X (Suc n) template b start acc u = (acc, u1)"
        if "request X ''state_getKeysPaged'' params u = (keys, u1)" for X :: "'x client" and u u1
        using that by (auto simp: Let_def params_def split: sum.split json.split)
      from Suc.prems(2) v1(2) show ?thesis unfolding step [OF req] step [OF v1(1)] by simp
    qed
  qed simp
  then show ?thesis unfolding sim_def get_keys_from_storage_def by blast
qed

text \<open>The currencies of a chain.\<close>

lemma assets_set_sim:
  "sim R (assets_set_at_block L C block m rpc_url specs) (assets_set_at_block L C' block m rpc_url specs)"
proof -
  have asset: "sim R (asset_metadata L C block m e aid) (asset_metadata L C' block m e aid)" for e aid
    unfolding asset_metadata_def
    by (auto intro!: simulation query_sim split: storage_entry_type.split type_def.split json.split)
  have key: "sim R (asset_at_key L C block m a e mk key acc) (asset_at_key L C' block m a e mk key acc)"
    for a e mk key acc
    unfolding asset_at_key_def
    by (auto intro!: simulation query_sim asset split: json.split option.split)
  have keys: "sim R (assets_at_keys (asset_at_key L C block m a e mk) ks acc)
      (assets_at_keys (asset_at_key L C' block m a e mk) ks acc)" for a e mk ks acc
  proof (induction ks arbitrary: acc)
    case (Cons k ks)
    then show ?case by (cases k) (auto intro!: simulation key)
  qed (simp add: simulation)
  have pages: "sim R (assets_at_pages (asset_at_key L C block m a e mk) ps acc)
      (assets_at_pages (asset_at_key L C' block m a e mk) ps acc)" for a e mk ps acc
  proof (induction ps arbitrary: acc)
    case (Cons p ps)
    then show ?case by (cases p) (auto intro!: simulation keys)
  qed (simp add: simulation)
  show ?thesis
    unfolding assets_set_at_block_def Let_def
    by (auto intro!: simulation sim_bind [OF keys_sim pages] split: option.split prod.split)
qed

text \<open>Transfer events.\<close>

lemma transfer_events_sim: "sim R (transfer_events L C block m) (transfer_events L C' block m)"
proof -
  have keys: "sim R (events_at_keys L C block flt e reg ks) (events_at_keys L C' block flt e reg ks)" for flt e reg ks
  proof (induction ks)
    case (Cons k ks)
    then show ?case
      by (cases k) (auto intro!: simulation query_sim split: json.split prod.split)
  qed (simp add: simulation)
  have pages: "sim R (events_at_pages L C block flt e reg ps) (events_at_pages L C' block flt e reg ps)" for flt e reg ps
  proof (induction ps)
    case (Cons p ps)
    then show ?case by (cases p) (auto intro!: simulation keys)
  qed (simp add: simulation)
  show ?thesis
    unfolding transfer_events_def events_at_block_def
    by (intro simulation sim_bind [OF keys_sim pages])
qed

text \<open>Balances, and the number of a block.\<close>

lemma balance_sim: "sim R (invoice_balance L C watcher block i) (invoice_balance L C' watcher block i)"
proof -
  have "sim R (asset_balance_at_account L C block m a aid) (asset_balance_at_account L C' block m a aid)" for m a aid
    unfolding asset_balance_at_account_def
    by (auto intro!: simulation query_sim split: json.split)
  moreover have "sim R (system_balance_at_account L C block m a) (system_balance_at_account L C' block m a)" for m a
    unfolding system_balance_at_account_def
    by (auto intro!: simulation query_sim split: json.split)
  ultimately show ?thesis
    unfolding invoice_balance_def by (auto intro!: simulation split: option.split)
qed

lemma check_sim: "sim R (invoice_check L C watcher block i) (invoice_check L C' watcher block i)"
  unfolding invoice_check_def by (intro simulation balance_sim)

lemma block_number_sim: "sim R (current_block_number L C m block) (current_block_number L C' m block)"
  unfolding current_block_number_def
  by (auto intro!: simulation query_sim split: json.split)

lemma check_watched_sim:
  "sim R (check_watched L C watcher block ws) (check_watched L C' watcher block ws)"
proof (induction ws)
  case (Cons a ws)
  obtain oid i where a: "a = (oid, i)" by fastforce
  have step: "check_watched L X watcher block (a # ws) = (\<lambda>w. case invoice_check L X watcher block i w of (r, w1) \<Rightarrow>
      case check_watched L X watcher block ws w1 of (paid, w2) \<Rightarrow>
        Pair (case r of Inr True \<Rightarrow> oid # paid | _ \<Rightarrow> paid) w2)" for X :: "'x client"
    by (auto simp: a fun_eq_iff split: prod.split sum.split bool.split)
  show ?case unfolding step by (intro sim_bind check_sim Cons.IH sim_pair)
qed (simp add: sim_def)

lemma scan_account_sim:
  assumes "R w v" and "scan_account L C watcher block now events oid i w = (paid, gone, w')"
  obtains v' where "scan_account L C' watcher block now events oid i v = (paid, gone, v')" and "R w' v'"
proof -
  obtain r w1 where one: "invoice_check L C watcher block i w = (r, w1)" by fastforce
  obtain v1 where v1: "invoice_check L C' watcher block i v = (r, v1)" "R w1 v1"
    by (rule simE [OF check_sim assms(1) one])
  obtain r2 w2 where two: "invoice_check L C watcher block i w1 = (r2, w2)" by fastforce
  obtain v2 where v2: "invoice_check L C' watcher block i v1 = (r2, v2)" "R w2 v2"
    by (rule simE [OF check_sim v1(2) two])
  show thesis
    using assms one two v1 v2 that unfolding scan_account_def
    by (auto split: if_splits sum.splits bool.splits)
qed

lemma scan_accounts_sim:
  assumes "R w v" and "scan_accounts L C watcher block now events ws w = (paid, gone, w')"
  shows "\<exists>v'. scan_accounts L C' watcher block now events ws v = (paid, gone, v') \<and> R w' v'"
  using assms
proof (induction ws arbitrary: w v paid gone w')
  case (Cons a ws)
  obtain oid i where a: "a = (oid, i)" by fastforce
  obtain p g w1 where one: "scan_account L C watcher block now events oid i w = (p, g, w1)"
    by (rule prod_cases3)
  obtain v1 where v1: "scan_account L C' watcher block now events oid i v = (p, g, v1)" "R w1 v1"
    by (rule scan_account_sim [OF Cons.prems(1) one])
  obtain p' g' w2 where rest: "scan_accounts L C watcher block now events ws w1 = (p', g', w2)"
    by (rule prod_cases3)
  from Cons.IH [OF v1(2) rest] Cons.prems(2) one v1(1) rest show ?case by (auto simp: a)
qed simp

section \<open>The watcher\<close>

lemma prepare_chain_sim:
  "sim R (prepare_chain L C chain ws rpc_url) (prepare_chain L C' chain ws rpc_url)"
  unfolding prepare_chain_def Let_def
  by (intro simulation query_sim next_block_sim assets_set_sim sim_bind [OF check_watched_sim])
    (auto intro!: simulation query_sim assets_set_sim sim_bind [OF check_watched_sim])

lemma on_new_block_sim:
  assumes "R w v" and "on_new_block L C watcher now number ws w = (outcome, out, ws', w')"
  shows "\<exists>v'. on_new_block L C' watcher now number ws v = (outcome, out, ws', v') \<and> R w' v'"
proof -
  obtain r1 w1 where 1: "block_hash_at L C (Some number) w = (r1, w1)" by fastforce
  obtain v1 where v1: "block_hash_at L C' (Some number) v = (r1, v1)" "R w1 v1"
    by (rule simE [OF query_sim(5) assms(1) 1])
  show ?thesis
  proof (cases r1)
    case (Inr block)
    obtain r2 w2 where 2: "runtime_version_identifier L C block w1 = (r2, w2)" by fastforce
    obtain v2 where v2: "runtime_version_identifier L C' block v1 = (r2, v2)" "R w2 v2"
      by (rule simE [OF query_sim(1) v1(2) 2])
    obtain r3 w3 where 3: "transfer_events L C block (w_metadata watcher) w2 = (r3, w3)" by fastforce
    obtain v3 where v3: "transfer_events L C' block (w_metadata watcher) v2 = (r3, v3)" "R w3 v3"
      by (rule simE [OF transfer_events_sim v2(2) 3])
    obtain events paid gone w4 where
      4: "scan_accounts L C watcher block now events ws w3 = (paid, gone, w4)" "r3 = Inr events \<or> (\<exists>e. r3 = Inl e)"
      by (metis prod_cases3 sum.exhaust)
    from scan_accounts_sim [OF v3(2) 4(1)] obtain v4 where
      v4: "scan_accounts L C' watcher block now events ws v3 = (paid, gone, v4)" "R w4 v4" by blast
    show ?thesis
      using assms(2) 1 2 3 4 v1 v2 v3 v4 Inr unfolding on_new_block_def
      by (auto split: sum.splits if_splits events_outcome.splits)
  qed (use assms(2) 1 v1 in \<open>auto simp: on_new_block_def\<close>)
qed

end

section \<open>A step of the watcher\<close>

text \<open>States of a watcher that differ in the client only, and ways to connect that differ likewise.\<close>

fun phase_sim ::
    "('w client \<Rightarrow> 'v client \<Rightarrow> bool) \<Rightarrow> ('r, 'w) tracker_phase \<Rightarrow> ('r, 'v) tracker_phase \<Rightarrow> bool" where
  "phase_sim Q AtEndpoint p = (p = AtEndpoint)"
| "phase_sim Q (Serving C watcher endpoint) p = (\<exists>C'. p = Serving C' watcher endpoint \<and> Q C C')"
| "phase_sim Q (Ended e) p = (p = Ended e)"

definition state_sim ::
    "('w client \<Rightarrow> 'v client \<Rightarrow> bool) \<Rightarrow> ('r, 'w) tracker_state \<Rightarrow> ('r, 'v) tracker_state \<Rightarrow> bool" where
  "state_sim Q t u \<longleftrightarrow> phase_sim Q (phase t) (phase u) \<and> next_endpoint t = next_endpoint u \<and>
     watching t = watching u \<and> shutting_down t = shutting_down u"

locale watcher_simulation =
  fixes R :: "'w \<Rightarrow> 'v \<Rightarrow> bool" and Q :: "'w client \<Rightarrow> 'v client \<Rightarrow> bool"
    and connect :: "string \<Rightarrow> 'w \<Rightarrow> 'w client option \<times> 'w"
    and connect' :: "string \<Rightarrow> 'v \<Rightarrow> 'v client option \<times> 'v"
  assumes clients: "Q C C' \<Longrightarrow> node_simulation R C C'"
    and connects: "R w v \<Longrightarrow> connect rpc w = (c, w1) \<Longrightarrow>
      \<exists>c' v1. connect' rpc v = (c', v1) \<and> R w1 v1 \<and> rel_option Q c c'"
begin

lemma try_endpoint_sim:
  assumes "R w v" and "state_sim Q t u"
    and "tracker_step L connect chain (TryEndpoint cancelled) t w = Some (t', out, w')"
  shows "\<exists>u' v'. tracker_step L connect' chain (TryEndpoint cancelled) u v = Some (u', out, v') \<and>
    state_sim Q t' u' \<and> R w' v'"
proof -
  from assms(2,3) have at: "phase t = AtEndpoint" "phase u = AtEndpoint" and
    same: "next_endpoint t = next_endpoint u" "watching t = watching u" "shutting_down t = shutting_down u"
    by (auto simp: state_sim_def split: tracker_phase.splits)
  show ?thesis
  proof (cases "shutting_down u \<or> cancelled \<or> endpoints chain = []")
    case True
    with assms at same show ?thesis by (auto simp: state_sim_def)
  next
    case False
    define endpoint where "endpoint = endpoints chain ! (next_endpoint u mod length (endpoints chain))"
    obtain c w1 where c: "connect endpoint w = (c, w1)" by fastforce
    from connects [OF assms(1) c] obtain c' v1 where
      c': "connect' endpoint v = (c', v1)" "R w1 v1" "rel_option Q c c'" by blast
    show ?thesis
    proof (cases c)
      case None
      with assms at same False c c' show ?thesis
        by (auto simp: state_sim_def Let_def endpoint_def [symmetric])
    next
      case (Some C)
      with c'(3) obtain C' where C': "c' = Some C'" "Q C C'" by (auto simp: option_rel_Some1)
      obtain r w2 where prep: "prepare_chain L C chain (watching u) endpoint w1 = (r, w2)" by fastforce
      obtain v2 where "prepare_chain L C' chain (watching u) endpoint v1 = (r, v2)" "R w2 v2"
        by (rule simE [OF node_simulation.prepare_chain_sim [OF clients [OF C'(2)]] c'(2) prep])
      with assms at same False c c' C' Some prep show ?thesis
        by (auto simp: state_sim_def Let_def endpoint_def [symmetric] split: sum.splits)
    qed
  qed
qed

lemma tracker_step_sim:
  assumes "R w v" and "state_sim Q t u"
    and "tracker_step L connect chain x t w = Some (t', out, w')"
  shows "\<exists>u' v'. tracker_step L connect' chain x u v = Some (u', out, v') \<and> state_sim Q t' u' \<and> R w' v'"
proof (cases x)
  case (TryEndpoint cancelled)
  with assms try_endpoint_sim show ?thesis by blast
next
  case (Receive now req)
  show ?thesis
  proof (cases req)
    case (TrackNewBlock number)
    with Receive assms(3) obtain C watcher endpoint outcome ws where
      ph: "phase t = Serving C watcher endpoint" and
      block: "on_new_block L C watcher now number (watching t) w = (outcome, out, ws, w')" and
      t': "t' = t\<lparr>watching := ws, phase := (case outcome of GoOn \<Rightarrow> phase t | SwitchServer \<Rightarrow> AtEndpoint
        | TaskError e \<Rightarrow> Ended (EndErr e) | TaskPanic \<Rightarrow> Ended EndPanic)\<rparr>"
      by (auto split: tracker_phase.splits prod.splits)
    from assms(2) ph obtain C' where C': "phase u = Serving C' watcher endpoint" "Q C C'"
      by (auto simp: state_sim_def)
    from node_simulation.on_new_block_sim [OF clients [OF C'(2)] assms(1) block] obtain v' where
      "on_new_block L C' watcher now number (watching t) v = (outcome, out, ws, v')" "R w' v'" by blast
    with Receive TrackNewBlock assms(2) ph C' show ?thesis
      by (auto simp: t' state_sim_def split: block_outcome.split)
  qed (use assms Receive in \<open>auto simp: state_sim_def split: tracker_phase.splits\<close>)
qed (use assms in \<open>auto simp: state_sim_def split: tracker_phase.splits\<close>)

lemma tracker_step_None_sim:
  assumes "state_sim Q t u" and "tracker_step L connect chain x t w = None"
  shows "tracker_step L connect' chain x u v = None"
proof (cases x)
  case (TryEndpoint cancelled)
  with assms show ?thesis
    by (auto simp: state_sim_def Let_def split: tracker_phase.splits if_splits option.splits prod.splits sum.splits)
next
  case (Receive now req)
  with assms show ?thesis
    by (cases req) (auto simp: state_sim_def split: tracker_phase.splits prod.splits)
qed (use assms in \<open>auto simp: state_sim_def split: tracker_phase.splits\<close>)

end

section \<open>The recorder of submissions\<close>

text \<open>The recorded client behaves like the client; the parameters of each submission are noted.\<close>

definition recorded_client :: "'w client \<Rightarrow> ('w \<times> json list list) client" where
  "recorded_client C = \<lparr>
     request = (\<lambda>name params (w, sent). case request C name params w of
       (r, w') \<Rightarrow> (r, (w', if name = SUBMIT then sent @ [params] else sent))),
     subscribe_heads = (\<lambda>(w, sent). case subscribe_heads C w of (r, w') \<Rightarrow> (r, (w', sent))),
     next_head = (\<lambda>(w, sent). case next_head C w of (r, w') \<Rightarrow> (r, (w', sent)))\<rparr>"

definition recorded ::
    "(string \<Rightarrow> 'w \<Rightarrow> 'w client option \<times> 'w)
      \<Rightarrow> string \<Rightarrow> 'w \<times> json list list \<Rightarrow> ('w \<times> json list list) client option \<times> 'w \<times> json list list"
where
  "recorded connect rpc = (\<lambda>(w, sent). case connect rpc w of
     (c, w') \<Rightarrow> (map_option recorded_client c, (w', sent)))"

text \<open>The world with the record, while nothing is added to it.\<close>

definition with_record :: "json list list \<Rightarrow> 'w \<Rightarrow> 'w \<times> json list list \<Rightarrow> bool" where
  "with_record sent w v \<longleftrightarrow> v = (w, sent)"

lemma with_record_simps [simp]: "with_record sent w (w, sent)" "with_record sent w (w', sent') \<longleftrightarrow> w' = w \<and> sent' = sent"
  by (auto simp: with_record_def)

definition recorded_as :: "'w client \<Rightarrow> ('w \<times> json list list) client \<Rightarrow> bool" where
  "recorded_as C C' \<longleftrightarrow> C' = recorded_client C"

interpretation recorded_node: node_simulation "with_record sent" C "recorded_client C"
  for sent and C :: "'w client"
proof unfold_locales
  show "name \<noteq> SUBMIT \<Longrightarrow> sim (with_record sent) (request C name params) (request (recorded_client C) name params)"
    for name params
    by (auto simp: sim_def recorded_client_def with_record_def)
qed (auto simp: sim_def recorded_client_def with_record_def)

interpretation recorded_watcher: watcher_simulation "with_record sent" recorded_as connect "recorded connect"
  for sent and connect :: "string \<Rightarrow> 'w \<Rightarrow> 'w client option \<times> 'w"
proof (rule watcher_simulation.intro)
  fix w v rpc c w1
  assume "with_record sent w v" and "connect rpc w = (c, w1)"
  then show "\<exists>c' v1. recorded connect rpc v = (c', v1) \<and> with_record sent w1 v1 \<and> rel_option recorded_as c c'"
    by (cases c) (auto simp: recorded_def with_record_def recorded_as_def)
qed (auto simp: recorded_as_def intro: recorded_node.node_simulation_axioms)

end
