(* ===== verification/Submission.thy ===== *)
theory Submission
  imports Payout Node_Simulation
begin

text \<open>
  What a payout (\<open>payout\<close> of \<open>src/chain/payout.rs\<close>) sends to the chain. It is run under the recorder of
  \<open>Node_Simulation\<close>, which notes every extrinsic submitted by \<open>send_stuff\<close>; a second group of lemmas follows
  the accounts through the forms that \<open>src/chain/utils.rs\<close> fills in, whatever the metadata looks like.
\<close>

section \<open>Under the recorder\<close>

lemma recordedD: "sim (with_record sent) c c' \<Longrightarrow> c w = (r, w1) \<Longrightarrow> c' (w, sent) = (r, (w1, sent))"
  by (auto simp: sim_def with_record_def)

text \<open>Where something more is recorded at the end, a call in front that submits nothing succeeded.\<close>

lemma recorded_thenE:
  assumes "call_then c' f (w, sent) = (r, (w2, sent2))" and "sent2 \<noteq> sent" and "sim (with_record sent) c c'"
  obtains x w1 where "c w = (Inr x, w1)" and "f x (w1, sent) = (r, (w2, sent2))"
proof -
  obtain q w1 where c: "c w = (q, w1)" by fastforce
  from recordedD [OF assms(3) c] assms(1,2) c that show thesis
    by (auto simp: call_then_def split: sum.splits)
qed

lemma recorded_ofE:
  assumes "call_then (call_of q) f (w, sent) = (r, (w2, sent2))" and "sent2 \<noteq> sent"
  obtains x where "q = Inr x" and "f x (w, sent) = (r, (w2, sent2))"
  using assms by (auto simp: call_then_def split: sum.splits)

section \<open>The accounts in a form\<close>

fun accounts_in :: "type_to_fill \<Rightarrow> account list" where
  "accounts_in (FillAccount (Some a)) = [a]"
| "accounts_in (FillVariant names i fs) = concat (map (\<lambda>(n, t). accounts_in t) fs)"
| "accounts_in (FillComposite fs) = concat (map (\<lambda>(n, t). accounts_in t) fs)"
| "accounts_in (FillTuple ts) = concat (map accounts_in ts)"
| "accounts_in (FillSequence ts) = concat (map accounts_in ts)"
| "accounts_in t = []"

definition only :: "account set \<Rightarrow> type_to_fill \<Rightarrow> bool" where
  "only A t \<longleftrightarrow> set (accounts_in t) \<subseteq> A"

definition fields_only :: "account set \<Rightarrow> fill_fields \<Rightarrow> bool" where
  "fields_only A fs \<longleftrightarrow> (\<forall>(n, t) \<in> set fs. only A t)"

text \<open>The constructor library hands out its forms empty, and the block and the nonce of a transaction go to
  its extensions.\<close>

definition forms_empty :: "'r chain_lib \<Rightarrow> bool" where
  "forms_empty L \<longleftrightarrow>
     (\<forall>ty reg t. prepare_type L ty reg = Inr t \<longrightarrow> accounts_in t = []) \<and>
     (\<forall>names reg k names' j fs. variant_new_at L names reg k = Inr (names', j, fs) \<longrightarrow>
        (\<forall>(n, t) \<in> set fs. accounts_in t = [])) \<and>
     (\<forall>m g t. transaction_init L m g = Inr t \<longrightarrow> accounts_in (author t) = []) \<and>
     (\<forall>b number t. author (populate_block_info L b number t) = author t \<and>
        call (populate_block_info L b number t) = call t) \<and>
     (\<forall>k t. author (populate_nonce L k t) = author t \<and> call (populate_nonce L k t) = call t)"

lemma only_simps [simp]:
  "only A (FillVariant names j fs) \<longleftrightarrow> fields_only A fs"
  "only A (FillComposite fs) \<longleftrightarrow> fields_only A fs"
  "only A (FillSequence ts) \<longleftrightarrow> (\<forall>t \<in> set ts. only A t)"
  "only A (FillAccount (Some a)) \<longleftrightarrow> a \<in> A"
  "only A (FillAccount None)" "only A (FillBool b)" "only A (FillCompact u s)"
  "only A (FillUnsigned u s)"
  by (auto simp: only_def fields_only_def)

lemma fields_only_simps [simp]:
  "fields_only A []" "fields_only A ((n, t) # fs) \<longleftrightarrow> only A t \<and> fields_only A fs"
  by (auto simp: fields_only_def)

lemma select_only:
  assumes "forms_empty L" and "select_at L reg names k continue = Inr t"
    and "\<And>fs fs'. fields_only A fs \<Longrightarrow> continue fs = Inr fs' \<Longrightarrow> fields_only A fs'"
  shows "only A t"
proof -
  from assms(2) obtain names' j fs fs' where v: "variant_new_at L names reg k = Inr (names', j, fs)"
    and fs': "continue fs = Inr fs'" "t = FillVariant names' j fs'"
    by (auto simp: select_at_def and_then_Inr_iff)
  from assms(1) v have "\<forall>(n, t) \<in> set fs. accounts_in t = []" unfolding forms_empty_def by blast
  then have "fields_only A fs" by (auto simp: fields_only_def only_def)
  from assms(3) [OF this fs'(1)] fs'(2) show ?thesis by simp
qed

lemma fill_single_account_only:
  "fields_only A fs \<Longrightarrow> a \<in> A \<Longrightarrow> fields_only A (fill_single_account a fs)"
  by (auto simp: fill_single_account_def split: list.splits prod.splits type_to_fill.splits)

lemma fill_address_only:
  assumes "forms_empty L" and "a \<in> A" and "fill_address L reg a t = Inr t'" and "only A t"
  shows "only A t'"
proof -
  from assms(3) consider "t' = t"
    | names k where "select_at L reg names k (\<lambda>fs. Inr (fill_single_account a fs)) = Inr t'"
    by (auto simp: fill_address_def split: type_to_fill.splits option.splits)
  then show ?thesis
  proof cases
    case 2
    then show ?thesis by (rule select_only [OF assms(1)]) (auto simp: fill_single_account_only assms(2))
  qed (simp add: assms(4))
qed

lemma fill_value_only:
  "only A t \<Longrightarrow> only A (fill_asset_id aid t)" "only A t \<Longrightarrow> only A (fill_balance n t)"
  "only A t \<Longrightarrow> only A (fill_keep_alive t)"
proof -
  show "only A t \<Longrightarrow> only A (fill_asset_id aid t)"
    by (induction aid t rule: fill_asset_id.induct) simp_all
  show "only A t \<Longrightarrow> only A (fill_balance n t)"
    by (induction n t rule: fill_balance.induct) simp_all
  show "only A t \<Longrightarrow> only A (fill_keep_alive t)"
    by (cases t) simp_all
qed

lemma fill_author_only:
  assumes "forms_empty L" and "fill_author L reg a t = Inr t'" and "only {a} t"
  shows "only {a} t'"
proof (cases t)
  case (FillVariant names k fs)
  with assms(2) have "fill_address L reg a t = Inr t'" by (simp add: fill_author_def)
  with fill_address_only [OF assms(1) _ this assms(3)] show ?thesis by simp
qed (use assms(2,3) in \<open>auto simp: fill_author_def fill_single_account_only\<close>)

lemma fill_each_only:
  assumes "fill_each f fs = Inr fs'" and "fields_only A fs"
    and keeps: "\<And>name t t'. f name t = Inr t' \<Longrightarrow> only A t \<Longrightarrow> only A t'"
  shows "fields_only A fs'"
  using assms(1,2)
proof (induction fs arbitrary: fs')
  case (Cons p fs)
  obtain name t where p: "p = (name, t)" by fastforce
  with Cons.prems(1) obtain t' rest where
    t': "(case name of Some n \<Rightarrow> f n t | None \<Rightarrow> Inr t) = Inr t'" and
    rest: "fill_each f fs = Inr rest" and fs': "fs' = (name, t') # rest"
    by (auto simp: and_then_Inr_iff)
  have "only A t'" using t' Cons.prems(2) p by (cases name) (auto dest: keeps)
  with Cons.IH [OF rest] Cons.prems(2) p fs' show ?case by simp
qed simp

lemma fill_method_only:
  assumes "forms_empty L" and "fill_method L reg pallet method fill form = Inr t" and "only A form"
    and fill: "\<And>fs fs'. fields_only A fs \<Longrightarrow> fill fs = Inr fs' \<Longrightarrow> fields_only A fs'"
  shows "only A t"
proof -
  define continue :: "fill_fields \<Rightarrow> chain_error + fill_fields" where "continue = (\<lambda>fs. case fs of
      [(n, FillVariant available_methods i ms)] \<Rightarrow> (case position (\<lambda>m. m = method) available_methods of
          Some index_method \<Rightarrow> and_then (select_at L reg available_methods index_method fill) (\<lambda>t. Inr [(n, t)])
        | None \<Rightarrow> Inr fs)
    | _ \<Rightarrow> Inr fs)"
  have continue: "fields_only A fs'" if "fields_only A fs" and "continue fs = Inr fs'" for fs fs'
  proof -
    from that(2) consider "fs' = fs"
      | names k n t' where "select_at L reg names k fill = Inr t'" "fs' = [(n, t')]"
      by (auto simp: continue_def and_then_Inr_iff split: list.splits prod.splits type_to_fill.splits option.splits)
    then show ?thesis
    proof cases
      case 2
      with select_only [OF assms(1) 2(1) fill] show ?thesis by simp
    qed (simp add: that(1))
  qed
  from assms(2) consider "t = form" | names k where "select_at L reg names k continue = Inr t"
    unfolding fill_method_def continue_def by (auto split: type_to_fill.splits option.splits)
  then show ?thesis
  proof cases
    case 2
    then show ?thesis by (rule select_only [OF assms(1) _ continue])
  qed (simp add: assms(3))
qed

lemma prepared_only: "forms_empty L \<Longrightarrow> prepare_type L ty reg = Inr t \<Longrightarrow> only A t"
  by (simp add: forms_empty_def only_def)

text \<open>The call of a payout names no account but the recipient, the batch around it none but the calls'.\<close>

lemma balance_call_only:
  assumes "forms_empty L" and "construct_single_balance_transfer_call L m c = Inr t"
  shows "only {bt_to_account c} t"
proof -
  let ?A = "{bt_to_account c}"
  have "only ?A t'" if "(if name = ''dest'' then fill_address L (registry m) (bt_to_account c) t
        else if name = ''keep_alive'' then Inr (fill_keep_alive t)
        else if name = ''value'' then Inr (fill_balance (bt_amount c) t) else Inr t) = Inr t'"
      and "only ?A t" for name t t'
    using that fill_address_only [OF assms(1), of "bt_to_account c" ?A "registry m" t t']
    by (auto simp: fill_value_only split: if_splits)
  note each = fill_each_only [OF _ _ this]
  from assms(2) obtain form where form: "prepare_type L (call_ty m) (registry m) = Inr form"
    by (auto simp: construct_single_balance_transfer_call_def and_then_Inr_iff)
  show ?thesis
    using assms(2) unfolding construct_single_balance_transfer_call_def form and_then_simps
    by (rule fill_method_only [OF assms(1)]) (rule prepared_only [OF assms(1) form], rule each)
qed

lemma asset_call_only:
  assumes "forms_empty L" and "construct_single_asset_transfer_call L m c = Inr t"
  shows "only {at_to_account c} t"
proof -
  let ?A = "{at_to_account c}"
  have "only ?A t'" if "(if name = ''target'' then fill_address L (registry m) (at_to_account c) t
        else if name = ''id'' then Inr (fill_asset_id (at_asset_id c) t)
        else if name = ''amount'' then Inr (fill_balance (at_amount c) t) else Inr t) = Inr t'"
      and "only ?A t" for name t t'
    using that fill_address_only [OF assms(1), of "at_to_account c" ?A "registry m" t t']
    by (auto simp: fill_value_only split: if_splits)
  note each = fill_each_only [OF _ _ this]
  from assms(2) obtain form where form: "prepare_type L (call_ty m) (registry m) = Inr form"
    by (auto simp: construct_single_asset_transfer_call_def and_then_Inr_iff)
  show ?thesis
    using assms(2) unfolding construct_single_asset_transfer_call_def form and_then_simps
    by (rule fill_method_only [OF assms(1)]) (rule prepared_only [OF assms(1) form], rule each)
qed

lemma transfer_call_only:
  assumes "forms_empty L" and "payout_call L watcher i currency = Inr t"
  shows "only {inv_recipient i} t"
  using assms(2) balance_call_only [OF assms(1)] asset_call_only [OF assms(1)]
  by (fastforce simp: payout_call_def and_then_Inr_iff split: token_kind.splits)

lemma batch_transaction_only:
  assumes "forms_empty L"
    and "construct_batch_transaction L m genesis a call_set block number nonce = Inr tx"
    and "\<forall>t \<in> set call_set. only A t"
  shows "only A (call tx)" and "only {a} (author tx)"
proof -
  obtain g b where h: "genesis = BlockHash g" "block = BlockHash b" by (cases genesis, cases block)
  from assms(2) obtain t f c where t: "transaction_init L m g = Inr t"
    and f: "fill_author L (registry m) a (author t) = Inr f" and c: "construct_batch_call L m call_set = Inr c"
    and tx: "tx = populate_nonce L nonce (populate_block_info L b number
      (t\<lparr>author := f, call := c, extensions := set_era (extensions t)\<rparr>))"
    by (auto simp: construct_batch_transaction_def h and_then_Inr_iff)
  have kept: "call tx = c" "author tx = f" using assms(1) unfolding tx forms_empty_def by simp_all
  have "only {a} (author t)" using assms(1) t by (simp add: forms_empty_def only_def)
  with fill_author_only [OF assms(1) f] show "only {a} (author tx)" by (simp add: kept)
  from c obtain form where form: "prepare_type L (call_ty m) (registry m) = Inr form"
    by (auto simp: construct_batch_call_def and_then_Inr_iff)
  show "only A (call tx)"
    using c unfolding kept construct_batch_call_def form and_then_simps
    by (rule fill_method_only [OF assms(1)]) (rule prepared_only [OF assms(1) form],
      use assms(3) in \<open>auto split: list.splits prod.splits option.splits type_to_fill.splits if_splits\<close>)
qed

section \<open>What a payout submits\<close>

text \<open>Everything has to succeed before the one submission at the end.\<close>

lemma recorded_send:
  "send_stuff (recorded_client C) data (w, sent) = (r, (w', sent')) \<Longrightarrow> sent' = sent @ [[JString data]]"
  by (auto simp: send_stuff_def ask_def call_map_err_def recorded_client_def SUBMIT_def split: prod.splits)

lemma payout_submission:
  fixes w :: 'w
  assumes run: "payout L P (recorded connect) signer rpc i watcher (w, sent0) = (r, (w', sent))"
    and sent: "sent \<noteq> sent0"
  obtains C :: "'w client" and block number w1 w2 b currency transfer tx to_sign signature extrinsic where
    "invoice_balance L C watcher block i w1 = (Inr b, w2)"
    and "payout_choice b (inv_amount i) = PayOut"
    and "map_of (w_assets watcher) (inv_currency i) = Some currency"
    and "payout_call L watcher i currency = Inr transfer"
    and "construct_batch_transaction L (w_metadata watcher) (w_genesis_hash watcher) (inv_address i)
      [transfer] block number 0 = Inr tx"
    and "sign_this P tx = Some to_sign" and "signer (inv_id i) to_sign = Inr signature"
    and "send_this_signed P tx signature (w_metadata watcher) = Inr (Some extrinsic)"
    and "sent = sent0 @ [[JString (''0x'' @ hex_encode L extrinsic)]]"
proof -
  from run sent obtain C w0 where C: "connect rpc w = (Some C, w0)"
    by (auto simp: payout_def recorded_def split: prod.splits option.splits)
  note run' = run [unfolded payout_def recorded_def C prod.case option.map option.case]
  from run' obtain block w1 number w2 b w3 currency where
    b: "invoice_balance L C watcher block i w2 = (Inr b, w3)" and
    currency: "map_of (w_assets watcher) (inv_currency i) = Some currency" and
    rest: "(case payout_choice b (inv_amount i) of
           Overpaid \<Rightarrow> call_ok ()
         | OutOfRange \<Rightarrow> call_ok ()
         | PayOut \<Rightarrow>
            call_then (call_of (payout_call L watcher i currency)) (\<lambda>transfer.
            call_then (call_of (construct_batch_transaction L (w_metadata watcher)
                (w_genesis_hash watcher) (inv_address i) [transfer] block number 0)) (\<lambda>batch.
            call_then (call_of (ok_or TransactionNotSignable (sign_this P batch))) (\<lambda>to_sign.
            call_then (call_of (map_err ChainSigner (signer (inv_id i) to_sign))) (\<lambda>signature.
            call_then (call_of (and_then (send_this_signed P batch signature (w_metadata watcher))
                (ok_or NothingToSend))) (\<lambda>extrinsic.
            call_then (send_stuff (recorded_client C) (''0x'' @ hex_encode L extrinsic)) (\<lambda>_. call_ok ()))))))) (w3, sent0) =
      (r, (w', sent))"
    by (elim recorded_thenE [OF _ sent recorded_node.query_sim(5)] recorded_thenE [OF _ sent recorded_node.block_number_sim]
      recorded_thenE [OF _ sent recorded_node.balance_sim] recorded_ofE [OF _ sent]) auto
  with sent have choice: "payout_choice b (inv_amount i) = PayOut"
    by (cases "payout_choice b (inv_amount i)") auto
  from rest [unfolded choice payout_choice.case] obtain transfer tx to_sign signature extrinsic where
    facts: "payout_call L watcher i currency = Inr transfer"
      "construct_batch_transaction L (w_metadata watcher) (w_genesis_hash watcher) (inv_address i)
        [transfer] block number 0 = Inr tx"
      "sign_this P tx = Some to_sign" "signer (inv_id i) to_sign = Inr signature"
      "send_this_signed P tx signature (w_metadata watcher) = Inr (Some extrinsic)" and
    last: "call_then (send_stuff (recorded_client C) (''0x'' @ hex_encode L extrinsic)) (\<lambda>_. call_ok ()) (w3, sent0)
      = (r, (w', sent))"
    by (elim recorded_ofE [OF _ sent]) (auto simp: and_then_Inr_iff)
  from last have "sent = sent0 @ [[JString (''0x'' @ hex_encode L extrinsic)]]"
    by (auto simp: call_then_def dest: recorded_send split: prod.splits sum.splits)
  with b choice currency facts show thesis by (rule that)
qed

text \<open>What an extrinsic submitted for an invoice is: the signed encoding of a transaction that names no account
  but the recipient's in its call and none but the order's as author.\<close>

definition pays ::
    "'r chain_lib \<Rightarrow> ('r, 'g) payout_lib \<Rightarrow> (string \<Rightarrow> bytes \<Rightarrow> signer_error + 'g) \<Rightarrow> 'r metadata
      \<Rightarrow> invoice \<Rightarrow> json list \<Rightarrow> bool" where
  "pays L P sign m i params \<longleftrightarrow> (\<exists>tx to_sign signature extrinsic.
     params = [JString (''0x'' @ hex_encode L extrinsic)] \<and>
     send_this_signed P tx signature m = Inr (Some extrinsic) \<and>
     sign_this P tx = Some to_sign \<and> sign (inv_id i) to_sign = Inr signature \<and>
     set (accounts_in (call tx)) \<subseteq> {inv_recipient i} \<and> set (accounts_in (author tx)) \<subseteq> {inv_address i})"

lemma payout_sends:
  fixes w :: 'w
  assumes "forms_empty L"
    and run: "payout L P (recorded connect) signer rpc i watcher (w, sent0) = (r, (w', sent))"
  shows "\<exists>new. sent = sent0 @ new \<and> length new \<le> 1 \<and> (\<forall>params \<in> set new.
    pays L P signer (w_metadata watcher) i params \<and>
    (\<exists>(C :: 'w client) block b w1 w2. invoice_balance L C watcher block i w1 = (Inr b, w2) \<and>
      payout_choice b (inv_amount i) = PayOut))"
proof (cases "sent = sent0")
  case False
  show ?thesis
  proof (rule payout_submission [OF run False])
    fix C :: "'w client" and block number w1 w2 b currency transfer tx to_sign signature extrinsic
    assume balance: "invoice_balance L C watcher block i w1 = (Inr b, w2)" "payout_choice b (inv_amount i) = PayOut"
      and transfer: "payout_call L watcher i currency = Inr transfer"
      and tx: "construct_batch_transaction L (w_metadata watcher) (w_genesis_hash watcher) (inv_address i)
        [transfer] block number 0 = Inr tx"
      and signed: "sign_this P tx = Some to_sign" "signer (inv_id i) to_sign = Inr signature"
        "send_this_signed P tx signature (w_metadata watcher) = Inr (Some extrinsic)"
      and sent: "sent = sent0 @ [[JString (''0x'' @ hex_encode L extrinsic)]]"
    from batch_transaction_only [OF assms(1) tx] transfer_call_only [OF assms(1) transfer]
    have "only {inv_recipient i} (call tx)" "only {inv_address i} (author tx)" by simp_all
    with signed have "pays L P signer (w_metadata watcher) i [JString (''0x'' @ hex_encode L extrinsic)]"
      unfolding pays_def only_def by blast
    moreover have "\<exists>(C :: 'w client) block b w1 w2. invoice_balance L C watcher block i w1 = (Inr b, w2) \<and>
        payout_choice b (inv_amount i) = PayOut"
      using balance by (intro exI conjI)
    ultimately show ?thesis using sent by (intro exI [of _ "[[JString (''0x'' @ hex_encode L extrinsic)]]"]) simp
  qed
qed simp

section \<open>Properties\<close>

text \<open>C28. A payout submits at most one extrinsic, and only after a node answered that the balance of the order's
  account is in the range for a payout. Whatever the metadata offers, the call in it names no account but
  the recipient, the author is no account but the order's, and what is signed is signed under the order's id.\<close>

theorem payout_sends_to_recipient:
  fixes w :: 'w
  assumes "forms_empty L"
    and "payout L P (recorded connect) signer rpc i watcher (w, before) = (r, (w', sent))"
  shows "\<exists>new. sent = before @ new \<and> length new \<le> 1 \<and> (\<forall>params \<in> set new.
    (\<exists>tx to_sign signature extrinsic. params = [JString (''0x'' @ hex_encode L extrinsic)] \<and>
      send_this_signed P tx signature (w_metadata watcher) = Inr (Some extrinsic) \<and>
      sign_this P tx = Some to_sign \<and> signer (inv_id i) to_sign = Inr signature \<and>
      set (accounts_in (call tx)) \<subseteq> {inv_recipient i} \<and>
      set (accounts_in (author tx)) \<subseteq> {inv_address i}) \<and>
    (\<exists>(C :: 'w client) block b w1 w2. invoice_balance L C watcher block i w1 = (Inr b, w2) \<and>
      payout_choice b (inv_amount i) = PayOut))"
  using payout_sends [OF assms] unfolding pays_def .

text \<open>The node in miniature takes the payout of the order in miniature.\<close>

definition toy_payout_lib :: "(unit, 'g) payout_lib" where
  "toy_payout_lib = \<lparr>sign_this = (\<lambda>tx. Some [1]), send_this_signed = (\<lambda>tx signature m. Inr (Some [2]))\<rparr>"

lemma toy_forms_empty: "forms_empty toy_lib"
  by (auto simp: forms_empty_def toy_fields_def)

lemma toy_payout:
  assumes sign: "sign ''a'' [1] = Inr g"
  shows "payout toy_lib toy_payout_lib (recorded toy_connect) sign ''ws://toy''
    (toy_invoice ''a'' [1] 7 50) toy_watcher ((), []) = (Inl (Client ''unknown method''), ((), [[JString ''0xh'']]))"
proof -
  let ?C = "recorded_client toy_client" and ?i = "toy_invoice ''a'' [1] 7 50" and ?m = "w_metadata toy_watcher"
  let ?s = "((), []) :: unit \<times> json list list"
  have block: "block_hash_at toy_lib ?C None ?s = (Inr toy_block, ?s)"
    by (rule recordedD [OF recorded_node.query_sim(5)]) (rule toy_block_hash)
  have number: "current_block_number toy_lib ?C ?m toy_block ?s = (Inr 5, ?s)"
    by (rule recordedD [OF recorded_node.block_number_sim])
      (simp add: current_block_number_def block_number_query_def finalize_query_def toy_block_def toy_defs)
  have balance: "invoice_balance toy_lib ?C toy_watcher toy_block ?i ?s = (Inr (Balance 7), ?s)"
    by (rule recordedD [OF recorded_node.balance_sim])
      (simp add: invoice_balance_def toy_balance toy_invoice_def toy_watcher_def toy_assets_def call_then_def)
  obtain t where transfer: "payout_call toy_lib toy_watcher ?i (snd (hd toy_assets)) = Inr t"
    by (simp add: payout_call_def construct_single_balance_transfer_call_def fill_method_def select_at_def
        fill_address_def position_def toy_pallets_def toy_fields_def toy_methods_def toy_assets_def)
  have tx: "\<exists>tx. construct_batch_transaction toy_lib ?m g [1] [t] toy_block 5 0 = Inr tx" for g t
    by (cases g) (simp add: construct_batch_transaction_def construct_batch_call_def fill_author_def toy_block_def
        fill_method_def select_at_def position_def toy_pallets_def toy_fields_def toy_methods_def)
  from tx [of "w_genesis_hash toy_watcher" t] obtain tx where
    tx: "construct_batch_transaction toy_lib ?m (w_genesis_hash toy_watcher) [1] [t] toy_block 5 0 = Inr tx" by blast
  have send: "send_stuff ?C ''0xh'' ?s = (Inl (Client ''unknown method''), ((), [[JString ''0xh'']]))"
    by (simp add: send_stuff_def ask_def call_map_err_def recorded_client_def toy_request_def SUBMIT_def)
  have i: "inv_amount ?i = Balance 7" "inv_address ?i = [1]" "inv_currency ?i = ''TOY''" "inv_id ?i = ''a''"
    by (simp_all add: toy_invoice_def)
  have "map_of (w_assets toy_watcher) ''TOY'' = Some (snd (hd toy_assets))"
    by (simp add: toy_watcher_def toy_assets_def)
  moreover have "payout_choice (Balance 7) (Balance 7) = PayOut"
    by (simp add: payout_choice_def loss_tolerance_def)
  moreover have "recorded toy_connect ''ws://toy'' ?s = (Some ?C, ?s)"
    by (simp add: recorded_def toy_connect_def)
  ultimately show ?thesis
    by (simp add: payout_def call_then_apply block number balance i transfer tx toy_payout_lib_def sign send)
qed

theorem payout_sends_to_recipient_witness:
  "\<exists>r sent. payout toy_lib toy_payout_lib (recorded toy_connect) (\<lambda>oid b. Inr ()) ''ws://toy''
    (toy_invoice ''a'' [1] 7 50) toy_watcher ((), []) = (r, ((), sent)) \<and> sent \<noteq> [] \<and> length sent \<le> 1"
proof -
  note run = toy_payout [of "\<lambda>oid b. Inr ()", OF refl]
  from payout_sends_to_recipient [OF toy_forms_empty run] run show ?thesis by auto
qed

end
