(* ===== verification/Toy_Daemon.thy ===== *)
theory Toy_Daemon
  imports System Amounts
begin

text \<open>
  A daemon in miniature, connected with the node of \<open>Toy_Node\<close>, on which the witnesses of the properties of
  the whole daemon run: one saved order over 7 units of \<open>TOY\<close> is restored, seen paid and paid out.
\<close>

definition toy_order :: "payment_status \<Rightarrow> order_info" where
  "toy_order p = (sample_order p)\<lparr>order_amount := Finite 7, order_death := Timestamp 50,
     payment_account := [CHR ''A'', CHR 0x01],
     order_currency := sample_currency\<lparr>ci_currency := ''TOY'', ci_decimals := 0\<rparr>\<rparr>"

definition toy_routes :: manager where
  "toy_routes = \<lparr>watch_chain = [(''toy'', 0)], currency_chain = [(''TOY'', ''toy'')]\<rparr>"

lemma toy_parse: "balance_parse (Finite 7) 0 = Balance 7"
proof -
  have seven: "(7 :: rat) = of_int (int 7)" by simp
  have "f64_mul (Finite 7) (decimal_exponent_product 0) = Finite (of_int (int 7))"
    using f64_of_nat_exact [of 7] by (simp add: product_exact f64_of_nat_def)
  moreover have "half_away (of_int (int 7)) = int 7" by (rule half_away_error) simp
  ultimately show ?thesis
    using f64_to_u128_int [of "int 7"] by (simp add: balance_parse_def)
qed

lemma toy_watch_order: "watch_account_new toy_crypto ''a'' (toy_order p) [3] =
    Inr (WatchAccount (toy_invoice ''a'' [1] 7 50))"
  by (simp add: watch_account_new_def toy_crypto_def toy_order_def toy_parse toy_invoice_def bytes_of_def)

lemma toy_order_paid: "serving s \<Longrightarrow> call_mark_paid mem_env life k ''a''
      (s\<lparr>orders := orders (mem_state [(''a'', toy_order Pending)])\<rparr>) =
    (Inr (toy_order Paid), s\<lparr>orders := orders (mem_state [(''a'', toy_order Paid)])\<rparr>)"
  by (simp add: call_mark_paid_eq mark_paid_def call_then_def db_get_def db_insert_def
      call_map_err_def mem_state_def Let_def decode_info_def toy_order_def sample_order_def)

lemma toy_order_list: "serving s \<Longrightarrow> orders s = orders (mem_state [(''a'', toy_order Pending)]) \<Longrightarrow>
    call_order_list mem_env life k s = (Inr [(''a'', toy_order Pending)], s)"
  by (simp add: call_order_list_def db_call_def active_order_list_def mem_state_def decode_entry_def
      toy_order_def mem_dec_enc sample_order_def List.map_filter_def)

text \<open>A daemon \<open>b\<close> that has come up with the recipient \<open>[3]\<close>, and the states it goes through.\<close>

definition toy_base :: "(bytes \<times> (order_info + server_info)) list daemon \<Rightarrow> bool" where
  "toy_base b \<longleftrightarrow> handler b = HandlerRuns \<and> recipient b = [3] \<and> chain_manager b = Some toy_routes \<and>
     currencies b = Map.empty \<and> serving (db b) \<and> orders (db b) = orders (mem_state [(''a'', toy_order Pending)])"

definition toy_system :: "(bytes \<times> (order_info + server_info)) list daemon \<Rightarrow> payment_status \<Rightarrow> sent
    \<Rightarrow> (unit, unit) tracker_state \<Rightarrow> sent \<Rightarrow> state_request list \<Rightarrow> (nat \<times> string \<times> invoice) list
    \<Rightarrow> currency_map option \<Rightarrow> ((bytes \<times> (order_info + server_info)) list, unit, unit) system" where
  "toy_system b p restoring t flight to_state payouts cs =
     \<lparr>sys_daemon = (case cs of None \<Rightarrow> id | Some m \<Rightarrow> update_currencies m)
        (b\<lparr>db := (db b)\<lparr>orders := orders (mem_state [(''a'', toy_order p)])\<rparr>\<rparr>),
      sys_restoring = restoring, sys_watchers = (\<lambda>_. tracker_start)(0 := t),
      sys_in_flight = flight, sys_to_state = to_state, sys_payouts = payouts, sys_world = ()\<rparr>"

definition toy_serving :: "watched \<Rightarrow> (unit, unit) tracker_state" where
  "toy_serving ws = \<lparr>phase = Serving toy_client toy_watcher ''ws://toy'', next_endpoint = 1,
     watching = ws, shutting_down = False\<rparr>"

abbreviation toy_paid_invoice :: invoice where
  "toy_paid_invoice \<equiv> toy_invoice ''a'' [1] 7 50"

lemma toy_serving_simps [simp]: "phase (toy_serving ws) = Serving toy_client toy_watcher ''ws://toy''"
  "watching (toy_serving ws) = ws" "(toy_serving ws)\<lparr>watching := ws'\<rparr> = toy_serving ws'"
  "(toy_serving ws)\<lparr>phase := Serving toy_client toy_watcher ''ws://toy''\<rparr> = toy_serving ws"
  by (simp_all add: toy_serving_def)

lemma toy_routed: "manager_call (\<lambda>_ _. True) (Some toy_routes) (ManageWatch (WatchAccount toy_paid_invoice)) =
    (Inr (), [(0, TrackWatch (WatchAccount toy_paid_invoice))])"
  "manager_call (\<lambda>_ _. True) (Some toy_routes) (ManageReap (WatchAccount toy_paid_invoice)) =
    (Inr (), [(0, TrackReap (WatchAccount toy_paid_invoice))])"
  by (simp_all add: manager_call_def route_def toy_routes_def toy_invoice_def)

lemma toy_ack: "de_ack toy_env = (\<lambda>_ _. True)"
  by (simp add: toy_env_def)

lemma toy_step_block: "sys_step toy_env toy_lib toy_connect [toy_chain] (Watcher 0 (Receive 60 (TrackNewBlock ''0x11'')))
    (toy_system b Pending [] (toy_serving [(''a'', toy_paid_invoice)]) [] [] [] (Some toy_assets)) =
  Some (toy_system b Pending [] (toy_serving []) [] [SOrderPaid ''a''] [] (Some toy_assets))"
  by (simp add: toy_system_def absorb_def toy_new_block_one fun_eq_iff)

lemma toy_step_paid:
  assumes "toy_base b"
  shows "sys_step toy_env toy_lib toy_connect [toy_chain] (Message sample_tick)
      (toy_system b Pending [] (toy_serving []) [] [SOrderPaid ''a''] [] (Some toy_assets)) =
    Some (toy_system b Paid [] (toy_serving []) [(0, TrackReap (WatchAccount toy_paid_invoice))] [] []
      (Some toy_assets))"
proof -
  from assms have b: "handler b = HandlerRuns" "recipient b = [3]" "chain_manager b = Some toy_routes"
    "serving (db b)"
    by (simp_all add: toy_base_def)
  show ?thesis
    by (simp add: toy_system_def handle_event_def update_currencies_def order_paid_def toy_order_paid
        reap_def toy_watch_order toy_ack toy_routed b)
qed

lemma toy_step_reap: "sys_step toy_env toy_lib toy_connect [toy_chain] (Deliver 0 60)
    (toy_system b Paid [] (toy_serving []) [(0, TrackReap (WatchAccount toy_paid_invoice))] [] []
      (Some toy_assets)) =
  Some (toy_system b Paid [] (toy_serving []) [] [] [(0, ''ws://toy'', toy_paid_invoice)] (Some toy_assets))"
  by (simp add: toy_system_def absorb_def fun_eq_iff)

lemma toy_reachable_report:
  assumes "toy_base b"
  shows "reachable toy_env toy_lib toy_connect [toy_chain]
     (toy_system b Pending [(0, TrackWatch (WatchAccount toy_paid_invoice))] tracker_start [] [] [] None)
     (toy_system b Pending [] (toy_serving []) [] [SOrderPaid ''a''] [] (Some toy_assets))"
proof -
  from assms have b: "handler b = HandlerRuns" "recipient b = [3]" "chain_manager b = Some toy_routes"
    "serving (db b)"
    by (simp_all add: toy_base_def)
  let ?watch = "(0, TrackWatch (WatchAccount toy_paid_invoice))"
  let ?step = "sys_step toy_env toy_lib toy_connect [toy_chain]"
  have 1: "?step (Watcher 0 (TryEndpoint False))
      (toy_system b Pending [?watch] tracker_start [] [] [] None) =
      Some (toy_system b Pending [?watch] (toy_serving []) [] [SConnectChain toy_assets] [] None)"
    using toy_prepare_empty
    by (simp add: toy_system_def absorb_def toy_serving_def tracker_start_def toy_chain_def toy_connect_def fun_eq_iff)
  have 2: "?step (Message sample_tick)
      (toy_system b Pending [?watch] (toy_serving []) [] [SConnectChain toy_assets] [] None) =
      Some (toy_system b Pending [?watch] (toy_serving []) [] [] [] (Some toy_assets))"
    by (simp add: toy_system_def handle_event_def b)
  have 3: "?step Restore (toy_system b Pending [?watch] (toy_serving []) [] [] [] (Some toy_assets)) =
      Some (toy_system b Pending [] (toy_serving []) [?watch] [] [] (Some toy_assets))"
    by (simp add: toy_system_def)
  have 4: "?step (Deliver 0 60) (toy_system b Pending [] (toy_serving []) [?watch] [] [] (Some toy_assets)) =
      Some (toy_system b Pending [] (toy_serving [(''a'', toy_paid_invoice)]) [] [] [] (Some toy_assets))"
    by (simp add: toy_system_def absorb_def fun_eq_iff) (simp add: toy_invoice_def)
  show ?thesis
    by (rule reachable.start [THEN reachable.step [OF _ 1], THEN reachable.step [OF _ 2],
        THEN reachable.step [OF _ 3], THEN reachable.step [OF _ 4], THEN reachable.step [OF _ toy_step_block]])
qed

lemma toy_reachable:
  assumes "toy_base b"
  shows "reachable toy_env toy_lib toy_connect [toy_chain]
     (toy_system b Pending [(0, TrackWatch (WatchAccount toy_paid_invoice))] tracker_start [] [] [] None)
     (toy_system b Paid [] (toy_serving []) [] [] [(0, ''ws://toy'', toy_paid_invoice)] (Some toy_assets))"
  by (rule toy_reachable_report [OF assms, THEN reachable.step [OF _ toy_step_paid [OF assms]],
      THEN reachable.step [OF _ toy_step_reap]])

text \<open>The start with the saved order.\<close>

lemma toy_state_start:
  assumes "recipient d = [3]" and "serving (db d)"
    and "orders (db d) = orders (mem_state [(''a'', toy_order Pending)])"
  shows "state_start toy_env k (Some toy_routes) d =
    (d\<lparr>chain_manager := Some toy_routes, currencies := Map.empty, handler := HandlerRuns\<rparr>,
     [(0, TrackWatch (WatchAccount toy_paid_invoice))])"
  using assms by (simp add: state_start_def toy_order_list add_invoice_def toy_watch_order toy_ack toy_routed)

lemma toy_system_from: "toy_base b \<Longrightarrow> system_from b [(0, TrackWatch (WatchAccount toy_paid_invoice))] () =
    toy_system b Pending [(0, TrackWatch (WatchAccount toy_paid_invoice))] tracker_start [] [] [] None"
proof -
  assume "toy_base b"
  then have "(db b)\<lparr>orders := orders (mem_state [(''a'', toy_order Pending)])\<rparr> = db b"
    by (simp add: toy_base_def)
  then show ?thesis by (simp add: system_from_def toy_system_def fun_eq_iff)
qed

definition toy_saved :: "(bytes \<times> (order_info + server_info)) list daemon" where
  "toy_saved = (toy_daemon [(''a'', toy_order Pending)])\<lparr>chain_manager := Some toy_routes,
     currencies := Map.empty, handler := HandlerRuns\<rparr>"

lemma toy_saved_base: "toy_base toy_saved"
  by (simp add: toy_base_def toy_saved_def mem_state_def)

lemma toy_system_start: "system_start toy_env sample_tick (Some toy_routes)
    (toy_daemon [(''a'', toy_order Pending)]) () =
  toy_system toy_saved Pending [(0, TrackWatch (WatchAccount toy_paid_invoice))] tracker_start [] [] [] None"
  using toy_state_start [of "toy_daemon [(''a'', toy_order Pending)]"] toy_system_from [OF toy_saved_base]
  by (simp add: system_start_def toy_saved_def mem_state_def)

lemmas toy_saved_reachable = toy_reachable [OF toy_saved_base, folded toy_system_start]

end
