(* ===== verification/Settlement.thy ===== *)
theory Settlement
  imports System_Invariant Submission Toy_Daemon "HOL-Library.Multiset"
begin

text \<open>
  The whole daemon with its payout tasks running: the watchers of \<open>System\<close> spawn them
  (\<open>src/chain/tracker.rs\<close>), each runs \<open>payout\<close> of \<open>src/chain/payout.rs\<close> once, and the world is under the
  recorder of submissions all the time. The record then holds everything the daemon ever submitted to
  a chain.
\<close>

section \<open>The daemon and its payout tasks\<close>

text \<open>The tasks that wait to run, with the endpoint and the watcher's data they were given, and those that
  have ended, with what each submitted.\<close>

record ('t, 'r, 'w) settlement =
  st_system :: "('t, 'r, 'w \<times> json list list) system"
  st_tasks :: "(string \<times> invoice \<times> 'r chain_watcher) list"
  st_done :: "(invoice \<times> 'r chain_watcher \<times> json list list) list"

text \<open>The payouts begun by a step are tasks with a copy of the watcher's data.\<close>

definition spawned ::
    "('t, 'r, 'w) system \<Rightarrow> ('t, 'r, 'w) system \<Rightarrow> (string \<times> invoice \<times> 'r chain_watcher) list" where
  "spawned s s' = concat (map (\<lambda>(n, endpoint, i). case phase (sys_watchers s n) of
       Serving C watcher e \<Rightarrow> [(endpoint, i, watcher)] | _ \<Rightarrow> [])
     (drop (length (sys_payouts s)) (sys_payouts s')))"

text \<open>
  A step is one of the daemon's, the run of a waiting payout task, or a change of the world that is not
  the daemon's doing. The task asks the signer as it is then.
\<close>

datatype 'w settle_event = Daemon sys_event | RunPayout nat | Elsewhere 'w

definition run_payout ::
    "('t, 'v, 'p, 'g, 'x) daemon_env \<Rightarrow> 'r chain_lib \<Rightarrow> ('r, 'g) payout_lib
      \<Rightarrow> (string \<Rightarrow> 'w \<Rightarrow> 'w client option \<times> 'w) \<Rightarrow> string \<times> invoice \<times> 'r chain_watcher
      \<Rightarrow> ('t, 'r, 'w \<times> json list list) system \<Rightarrow> 'w \<times> json list list" where
  "run_payout D L P connect job s = (case job of (rpc, i, watcher) \<Rightarrow>
     snd (payout L P (recorded connect)
       (signer_sign (de_crypto D) (recipient (sys_daemon s)) (signer (sys_daemon s))) rpc i watcher (sys_world s)))"

fun settle_step ::
    "('t, 'v, 'p, 'g, 'x) daemon_env \<Rightarrow> 'r chain_lib \<Rightarrow> ('r, 'g) payout_lib
      \<Rightarrow> (string \<Rightarrow> 'w \<Rightarrow> 'w client option \<times> 'w) \<Rightarrow> chain_config list \<Rightarrow> 'w settle_event
      \<Rightarrow> ('t, 'r, 'w) settlement \<Rightarrow> ('t, 'r, 'w) settlement option" where
  "settle_step D L P connect config (Daemon ev) S =
     map_option (\<lambda>s'. S\<lparr>st_system := s', st_tasks := st_tasks S @ spawned (st_system S) s'\<rparr>)
       (sys_step D L (recorded connect) config ev (st_system S))"
| "settle_step D L P connect config (RunPayout k) S =
     (if k < length (st_tasks S) then
        (let s = st_system S; (rpc, i, watcher) = st_tasks S ! k;
             w' = run_payout D L P connect (st_tasks S ! k) s
         in Some (S\<lparr>st_system := s\<lparr>sys_world := w'\<rparr>,
              st_tasks := take k (st_tasks S) @ drop (Suc k) (st_tasks S),
              st_done := st_done S @ [(i, watcher, drop (length (snd (sys_world s))) (snd w'))]\<rparr>))
      else None)"
| "settle_step D L P connect config (Elsewhere w) S =
     Some (S\<lparr>st_system := (st_system S)\<lparr>sys_world := (w, snd (sys_world (st_system S)))\<rparr>\<rparr>)"

definition settlement_start :: "'t daemon \<Rightarrow> sent \<Rightarrow> 'w \<Rightarrow> ('t, 'r, 'w) settlement" where
  "settlement_start d restoring w =
     \<lparr>st_system = system_from d restoring (w, []), st_tasks = [], st_done = []\<rparr>"

inductive settles ::
    "('t, 'v, 'p, 'g, 'x) daemon_env \<Rightarrow> 'r chain_lib \<Rightarrow> ('r, 'g) payout_lib
      \<Rightarrow> (string \<Rightarrow> 'w \<Rightarrow> 'w client option \<times> 'w) \<Rightarrow> chain_config list
      \<Rightarrow> ('t, 'r, 'w) settlement \<Rightarrow> ('t, 'r, 'w) settlement \<Rightarrow> bool"
  for D L P connect config S0 where
  start: "settles D L P connect config S0 S0"
| step: "settles D L P connect config S0 S \<Longrightarrow> settle_step D L P connect config ev S = Some S' \<Longrightarrow>
     settles D L P connect config S0 S'"

text \<open>Everything submitted so far.\<close>

definition submitted :: "('t, 'r, 'w) settlement \<Rightarrow> json list list" where
  "submitted S = snd (sys_world (st_system S))"

section \<open>The daemon's own steps submit nothing\<close>

text \<open>A system under the recorder goes with one that is not.\<close>

definition sys_recorded :: "('t, 'r, 'w) system \<Rightarrow> ('t, 'r, 'w \<times> json list list) system \<Rightarrow> bool" where
  "sys_recorded s v \<longleftrightarrow> sys_daemon s = sys_daemon v \<and> sys_restoring s = sys_restoring v \<and>
     (\<forall>n. state_sim recorded_as (sys_watchers s n) (sys_watchers v n)) \<and>
     sys_in_flight s = sys_in_flight v \<and> sys_to_state s = sys_to_state v \<and>
     sys_payouts s = sys_payouts v \<and> sys_world s = fst (sys_world v)"

lemma tracker_start_sim [simp]: "state_sim Q tracker_start tracker_start"
  by (simp add: state_sim_def tracker_start_def)

lemma handle_event_recorded:
  assumes "sys_recorded s v"
  shows "sys_recorded (handle_event D ev s) (handle_event D ev v) \<and> sys_world (handle_event D ev v) = sys_world v"
  using assms by (auto simp: sys_recorded_def handle_event_def split: prod.split)

lemma absorb_recorded:
  assumes "sys_recorded s v"
    and "tracker_step L connect chain x (sys_watchers s n) (sys_world s) = Some res"
  shows "\<exists>res'. tracker_step L (recorded connect) chain x (sys_watchers v n) (sys_world v) = Some res' \<and>
    sys_recorded (absorb n res s) (absorb n res' v) \<and>
    snd (sys_world (absorb n res' v)) = snd (sys_world v)"
proof -
  obtain t out w1 where res: "res = (t, out, w1)" by (rule prod_cases3)
  let ?sent = "snd (sys_world v)"
  have "with_record ?sent (sys_world s) (sys_world v)"
    and "state_sim recorded_as (sys_watchers s n) (sys_watchers v n)"
    using assms(1) by (simp_all add: sys_recorded_def with_record_def)
  from recorded_watcher.tracker_step_sim [OF this assms(2) [unfolded res]] obtain u where
    u: "tracker_step L (recorded connect) chain x (sys_watchers v n) (sys_world v) = Some (u, out, (w1, ?sent))"
      "state_sim recorded_as t u"
    by (auto simp: with_record_def)
  with assms(1) show ?thesis
    by (intro exI [of _ "(u, out, (w1, ?sent))"]) (auto simp: res sys_recorded_def absorb_def)
qed

lemma absorb_None_recorded:
  assumes "sys_recorded s v"
    and "tracker_step L connect chain x (sys_watchers s n) (sys_world s) = None"
  shows "tracker_step L (recorded connect) chain x (sys_watchers v n) (sys_world v) = None"
  by (rule recorded_watcher.tracker_step_None_sim [OF _ assms(2)]) (use assms(1) in \<open>simp add: sys_recorded_def\<close>)

text \<open>Step by step the recorded daemon does what the daemon does, and nothing is submitted.\<close>

lemma sys_step_recorded:
  assumes rec: "sys_recorded s v"
  shows "(case sys_step D L connect config ev s of
      None \<Rightarrow> sys_step D L (recorded connect) config ev v = None
    | Some s' \<Rightarrow> \<exists>v'. sys_step D L (recorded connect) config ev v = Some v' \<and> sys_recorded s' v' \<and>
        snd (sys_world v') = snd (sys_world v))"
proof (cases ev)
  case (Web k alive req)
  with handle_event_recorded [OF rec] show ?thesis by auto
next
  case (Message k)
  show ?thesis
  proof (cases "sys_to_state s")
    case (Cons req reqs)
    with rec have "sys_recorded (s\<lparr>sys_to_state := reqs\<rparr>) (v\<lparr>sys_to_state := reqs\<rparr>)"
      and "sys_to_state v = req # reqs" by (auto simp: sys_recorded_def)
    with handle_event_recorded [OF this(1), of D "Request k True req"] Cons Message show ?thesis by simp
  qed (use rec Message in \<open>simp add: sys_recorded_def\<close>)
next
  case (Cancel k)
  with handle_event_recorded [OF rec, of D "Cancelled k"] rec show ?thesis
    by (auto simp: Let_def sys_recorded_def stop_requests_def)
next
  case Restore
  with rec show ?thesis by (auto simp: sys_recorded_def split: list.split)
next
  case (Watcher n x)
  show ?thesis
  proof (cases "tracker_step L connect (config ! n) x (sys_watchers s n) (sys_world s)")
    case None
    with absorb_None_recorded [OF rec None] Watcher show ?thesis by simp
  next
    case (Some res)
    with absorb_recorded [OF rec Some] Watcher show ?thesis by auto
  qed
next
  case (Deliver n now)
  show ?thesis
  proof (cases "n < length config \<and> (\<exists>req rest. take_for n (sys_in_flight s) = Some (req, rest))")
    case True
    then obtain req rest where t: "take_for n (sys_in_flight s) = Some (req, rest)" and n: "n < length config"
      by blast
    have rec': "sys_recorded (s\<lparr>sys_in_flight := rest\<rparr>) (v\<lparr>sys_in_flight := rest\<rparr>)"
      and tv: "take_for n (sys_in_flight v) = Some (req, rest)"
      using rec t by (auto simp: sys_recorded_def)
    show ?thesis
    proof (cases "tracker_step L connect (config ! n) (Receive now req) (sys_watchers s n) (sys_world s)")
      case None
      with absorb_None_recorded [OF rec' [simplified]] t tv n Deliver show ?thesis by simp
    next
      case (Some res)
      with absorb_recorded [OF rec', of L connect "config ! n" "Receive now req" n res] t tv n Deliver
      show ?thesis by auto
    qed
  next
    case False
    with rec Deliver show ?thesis by (auto simp: sys_recorded_def split: option.split)
  qed
qed

section \<open>The invariant\<close>

lemma handle_event_payouts [simp]: "sys_payouts (handle_event D e t) = sys_payouts t"
  by (simp add: handle_event_def split: prod.split)

lemma sys_step_begins:
  assumes "sys_step D L connect config ev s = Some s'"
  shows "\<exists>new. sys_payouts s' = sys_payouts s @ new"
  using assms
  by (cases ev) (auto simp: Let_def absorb_def split: if_splits list.splits option.splits prod.splits)

lemma spawned_of_begun: "mset (map (\<lambda>(e, i, w). i) (spawned s s')) \<subseteq>#
    mset (map (snd \<circ> snd) (drop (length (sys_payouts s)) (sys_payouts s')))"
proof -
  have "mset (map (\<lambda>(e, i, w). i) (concat (map (\<lambda>(n, endpoint, i). case phase (sys_watchers s n) of
       Serving C watcher e \<Rightarrow> [(endpoint, i, watcher)] | _ \<Rightarrow> []) ps))) \<subseteq># mset (map (snd \<circ> snd) ps)" for ps
  proof (induction ps)
    case (Cons p ps)
    then show ?case
      by (cases p) (auto split: tracker_phase.split simp: subseteq_mset_def le_SucI)
  qed simp
  then show ?thesis by (simp add: spawned_def)
qed

text \<open>The signer keeps its seed or is cleared, and once cleared it signs nothing.\<close>

lemma on_event_signer:
  assumes "on_event D ev d = (r, d', out)"
  shows "kept_or_cleared (signer d) (signer d')"
proof (cases ev)
  case (Request k alive req)
  with assms have "signer d' = signer d"
    by (cases req) (auto simp: deliver_def get_invoice_status_def create_invoice_def order_paid_def
        update_currencies_def Let_def
        split: if_splits prod.splits sum.splits option.splits order_create_response.splits)
  then show ?thesis by (simp add: kept_or_cleared_def)
next
  case (Cancelled k)
  with assms show ?thesis
    by (auto simp: state_shutdown_def signer_shutdown_def kept_or_cleared_def split: if_splits prod.splits)
qed

lemma kept_or_cleared_trans: "kept_or_cleared a b \<Longrightarrow> kept_or_cleared b c \<Longrightarrow> kept_or_cleared a c"
  by (auto simp: kept_or_cleared_def)

lemma signer_sign_kept:
  "kept_or_cleared sg sg' \<Longrightarrow> signer_sign Cr rec sg' oid b = Inr g \<Longrightarrow> signer_sign Cr rec sg oid b = Inr g"
  by (auto simp: kept_or_cleared_def signer_sign_eq split: if_splits)

lemma handle_event_daemon:
  "\<exists>e r out. on_event D e (sys_daemon t) = (r, sys_daemon (handle_event D e0 t), out)"
  by (intro exI [of _ e0]) (auto simp: handle_event_def split: prod.split)

lemma sys_step_daemon:
  assumes "sys_step D L connect config ev s = Some s'"
  shows "sys_daemon s' = sys_daemon s \<or> (\<exists>e r out. on_event D e (sys_daemon s) = (r, sys_daemon s', out))"
proof (cases ev)
  case (Message k)
  with assms obtain req reqs where "s' = handle_event D (Request k True req) (s\<lparr>sys_to_state := reqs\<rparr>)"
    by (auto split: list.splits)
  with handle_event_daemon [of D "s\<lparr>sys_to_state := reqs\<rparr>" "Request k True req"] show ?thesis by simp
next
  case (Cancel k)
  with assms handle_event_daemon [of D s "Cancelled k"] show ?thesis by (auto simp only: sys_step.simps Let_def option.inject) simp
next
  case (Web k alive req)
  with assms handle_event_daemon [of D s "Request k alive req"] show ?thesis by (auto simp del: on_event.simps split: if_splits)
qed (use assms in \<open>auto simp: absorb_def split: if_splits list.splits option.splits prod.splits\<close>)

lemma sys_step_signer:
  assumes "sys_step D L connect config ev s = Some s'"
  shows "kept_or_cleared (signer (sys_daemon s)) (signer (sys_daemon s'))"
  using sys_step_daemon [OF assms] on_event_signer by (fastforce simp: kept_or_cleared_def)

lemma sys_inv_world:
  fixes s :: "('t, 'r, 'w) system"
  shows "sys_inv D contents L rec s \<Longrightarrow> sys_inv D contents L rec (s\<lparr>sys_world := w\<rparr>)"
  unfolding sys_inv_def sys_msgs_def count_ok_def worlds_alike [where w = w and w' = "sys_world s"]
  by (simp add: book_of_def worlds_alike [where w = w and w' = "sys_world s"])

definition invoices_of :: "('t, 'r, 'w) settlement \<Rightarrow> invoice list" where
  "invoices_of S = map (\<lambda>(e, i, w). i) (st_tasks S) @ map fst (st_done S)"

definition recordable :: "('t, 'r, 'w \<times> json list list) system \<Rightarrow> bool" where
  "recordable v \<longleftrightarrow> (\<exists>s. sys_recorded s v)"

lemma recordable_world:
  assumes "recordable v"
  shows "recordable (v\<lparr>sys_world := x\<rparr>)"
proof -
  from assms obtain s where "sys_recorded s v" unfolding recordable_def by blast
  then have "sys_recorded (s\<lparr>sys_world := fst x\<rparr>) (v\<lparr>sys_world := x\<rparr>)" by (simp add: sys_recorded_def)
  then show ?thesis unfolding recordable_def by blast
qed

definition done_ok ::
    "'r chain_lib \<Rightarrow> ('r, 'g) payout_lib \<Rightarrow> (string \<Rightarrow> bytes \<Rightarrow> signer_error + 'g)
      \<Rightarrow> invoice \<times> 'r chain_watcher \<times> json list list \<Rightarrow> bool" where
  "done_ok L P sign ended \<longleftrightarrow> (case ended of (i, watcher, sent) \<Rightarrow> length sent \<le> 1 \<and>
     (\<forall>params \<in> set sent. pays L P sign (w_metadata watcher) i params))"

definition settle_inv ::
    "('t, 'v, 'p, 'g, 'x) daemon_env \<Rightarrow> ('t \<Rightarrow> bytes \<rightharpoonup> 'v) \<Rightarrow> 'r chain_lib \<Rightarrow> ('r, 'g) payout_lib
      \<Rightarrow> account \<Rightarrow> signer_state \<Rightarrow> ('t, 'r, 'w) settlement \<Rightarrow> bool" where
  "settle_inv D contents L P rec sg S \<longleftrightarrow>
     sys_inv D contents L rec (st_system S) \<and> recordable (st_system S) \<and>
     kept_or_cleared sg (signer (sys_daemon (st_system S))) \<and>
     mset (invoices_of S) \<subseteq># mset (map (snd \<circ> snd) (sys_payouts (st_system S))) \<and>
     submitted S = concat (map (snd \<circ> snd) (st_done S)) \<and>
     list_all (done_ok L P (signer_sign (de_crypto D) rec sg)) (st_done S)"

lemma mset_taken:
  assumes "k < length xs"
  shows "mset (map f xs) = add_mset (f (xs ! k)) (mset (map f (take k xs @ drop (Suc k) xs)))"
proof -
  have "mset (map f (take k xs @ xs ! k # drop (Suc k) xs)) =
      add_mset (f (xs ! k)) (mset (map f (take k xs @ drop (Suc k) xs)))" by simp
  then show ?thesis by (simp only: id_take_nth_drop [OF assms, symmetric])
qed

lemma pays_kept:
  assumes "pays L P sign m i params" and "\<And>oid b g. sign oid b = Inr g \<Longrightarrow> sign' oid b = Inr g"
  shows "pays L P sign' m i params"
  using assms unfolding pays_def by blast

lemma daemon_step_inv:
  assumes inv: "settle_inv D contents L P rec sg S"
    and step: "settle_step D L P connect config (Daemon ev) S = Some S'"
  shows "settle_inv D contents L P rec sg S'"
proof -
  let ?v = "st_system S"
  from step obtain v' where v': "sys_step D L (recorded connect) config ev ?v = Some v'" and
    S': "S' = S\<lparr>st_system := v', st_tasks := st_tasks S @ spawned ?v v'\<rparr>"
    by auto
  from inv obtain s where s: "sys_recorded s ?v" by (auto simp: settle_inv_def recordable_def)
  from sys_step_recorded [OF s, of D L connect config ev] v' obtain s' where
    s': "sys_recorded s' v'" "snd (sys_world v') = snd (sys_world ?v)"
    by (auto split: option.splits)
  from sys_step_begins [OF v'] obtain new where new: "sys_payouts v' = sys_payouts ?v @ new" by blast
  have "mset (map (\<lambda>(e, i, w). i) (spawned ?v v')) \<subseteq># mset (map (snd \<circ> snd) new)"
    using spawned_of_begun [of ?v v'] by (simp add: new)
  with inv have "mset (invoices_of S) + mset (map (\<lambda>(e, i, w). i) (spawned ?v v')) \<subseteq>#
      mset (map (snd \<circ> snd) (sys_payouts ?v)) + mset (map (snd \<circ> snd) new)"
    unfolding settle_inv_def by (intro subset_mset.add_mono) simp_all
  moreover have "mset (invoices_of S') = mset (invoices_of S) + mset (map (\<lambda>(e, i, w). i) (spawned ?v v'))"
    by (simp add: invoices_of_def S')
  ultimately have "mset (invoices_of S') \<subseteq># mset (map (snd \<circ> snd) (sys_payouts v'))"
    by (simp add: new)
  moreover have "kept_or_cleared sg (signer (sys_daemon v'))"
    using inv kept_or_cleared_trans [OF _ sys_step_signer [OF v']] by (simp add: settle_inv_def)
  moreover have "recordable v'" unfolding recordable_def using s'(1) by blast
  ultimately show ?thesis
    using inv sys_step_inv [OF _ v'] s'(2) by (simp add: settle_inv_def S' submitted_def)
qed

lemma run_payout_inv:
  assumes empty: "forms_empty L" and inv: "settle_inv D contents L P rec sg S"
    and step: "settle_step D L P connect config (RunPayout k) S = Some S'"
  shows "settle_inv D contents L P rec sg S'"
proof -
  let ?v = "st_system S"
  obtain rpc i watcher where job: "st_tasks S ! k = (rpc, i, watcher)" by (rule prod_cases3)
  obtain w sent where w: "sys_world ?v = (w, sent)" by fastforce
  define sign where "sign = signer_sign (de_crypto D) (recipient (sys_daemon ?v)) (signer (sys_daemon ?v))"
  obtain r w' sent' where run: "payout L P (recorded connect) sign rpc i watcher (w, sent) = (r, (w', sent'))"
    by (metis prod.exhaust)
  from payout_sends [OF empty run] obtain new where
    new: "sent' = sent @ new" "length new \<le> 1" "\<forall>params \<in> set new. pays L P sign (w_metadata watcher) i params"
    by blast
  from step have k: "k < length (st_tasks S)" and S': "S' = S\<lparr>st_system := ?v\<lparr>sys_world := (w', sent')\<rparr>,
      st_tasks := take k (st_tasks S) @ drop (Suc k) (st_tasks S),
      st_done := st_done S @ [(i, watcher, new)]\<rparr>"
    by (auto simp: job Let_def run_payout_def run [unfolded sign_def] w new(1) split: if_splits)
  have "mset (invoices_of S') = mset (invoices_of S)"
    using mset_taken [OF k, of "\<lambda>(e, i, w). i"] by (simp add: invoices_of_def S' job)
  moreover have "pays L P (signer_sign (de_crypto D) rec sg) (w_metadata watcher) i params" if "params \<in> set new" for params
  proof -
    have "recipient (sys_daemon ?v) = rec" and kept: "kept_or_cleared sg (signer (sys_daemon ?v))"
      using inv by (simp_all add: settle_inv_def sys_inv_def)
    with new(3) that show ?thesis
      unfolding sign_def by (blast intro: pays_kept signer_sign_kept [OF kept])
  qed
  then have "done_ok L P (signer_sign (de_crypto D) rec sg) (i, watcher, new)"
    using new(2) by (simp add: done_ok_def)
  ultimately show ?thesis
    using inv sys_inv_world [of D contents L rec ?v "(w', sent')"] recordable_world [of ?v "(w', sent')"]
    by (simp add: settle_inv_def S' submitted_def w new(1))
qed

lemma settle_step_inv:
  assumes "forms_empty L" and inv: "settle_inv D contents L P rec sg S"
    and "settle_step D L P connect config ev S = Some S'"
  shows "settle_inv D contents L P rec sg S'"
proof (cases ev)
  case (Elsewhere w)
  let ?w = "(w, snd (sys_world (st_system S)))"
  show ?thesis
    using assms(2,3) Elsewhere sys_inv_world [of D contents L rec "st_system S" ?w]
      recordable_world [of "st_system S" ?w]
    by (auto simp: settle_inv_def submitted_def invoices_of_def)
next
  case (Daemon ev')
  from daemon_step_inv [OF inv assms(3) [unfolded Daemon]] show ?thesis .
next
  case (RunPayout k)
  from run_payout_inv [OF assms(1) inv assms(3) [unfolded RunPayout]] show ?thesis .
qed

lemma settles_inv:
  assumes "settles D L P connect config S0 S" and "forms_empty L" and "settle_inv D contents L P rec sg S0"
  shows "settle_inv D contents L P rec sg S"
  using assms by (induction rule: settles.induct) (auto intro: settle_step_inv)

lemma settlement_start_inv:
  fixes w :: 'w
  assumes "daemon_inv D contents d" and "state_start D k m d = (d', out)"
  shows "settle_inv D contents L P (recipient d) (signer d')
    (settlement_start d' out w :: ('t, 'r, 'w) settlement)"
proof -
  have "sys_inv D contents L (recipient d) (system_from d' out (w, []) :: ('t, 'r, 'w \<times> json list list) system)"
    using system_start_inv [OF assms(1), of L k m "(w, [])"] assms(2) by (simp add: system_start_def)
  moreover have "sys_recorded (system_from d' out w) (system_from d' out (w, []))"
    by (simp add: sys_recorded_def system_from_def)
  then have "recordable (system_from d' out (w, []))" unfolding recordable_def by blast
  ultimately show ?thesis
    by (simp add: settle_inv_def settlement_start_def invoices_of_def submitted_def kept_or_cleared_def system_from_def)
qed

section \<open>What was submitted\<close>

text \<open>The invoices of the payouts that submitted something, in order.\<close>

definition settled_invoices :: "('t, 'r, 'w) settlement \<Rightarrow> invoice list" where
  "settled_invoices S = map fst (filter (\<lambda>(i, watcher, sent). sent \<noteq> []) (st_done S))"

lemma done_submitted:
  assumes "list_all (done_ok L P sign) ds"
  shows "list_all2 (\<lambda>i params. \<exists>m. pays L P sign m i params)
    (map fst (filter (\<lambda>(i, watcher, sent). sent \<noteq> []) ds)) (concat (map (snd \<circ> snd) ds))"
  using assms
proof (induction ds)
  case (Cons a ds)
  obtain i watcher sent where a: "a = (i, watcher, sent)" by (rule prod_cases3)
  with Cons.prems have ok: "length sent \<le> 1" "\<forall>params \<in> set sent. pays L P sign (w_metadata watcher) i params"
    by (simp_all add: done_ok_def)
  show ?case
  proof (cases sent)
    case (Cons params rest)
    with ok have "rest = []" "\<exists>m. pays L P sign m i params" by auto
    with Cons.IH Cons.prems a Cons show ?thesis by simp
  qed (use Cons a in simp)
qed simp

lemma payouts_of_count: "payouts_of oid ps = count (mset (map inv_id (map (snd \<circ> snd) ps))) oid"
  by (induction ps) (auto simp: payouts_of_def)

lemma settled_in_begun:
  assumes "settle_inv D contents L P rec sg S"
  shows "mset (settled_invoices S) \<subseteq># mset (map (snd \<circ> snd) (sys_payouts (st_system S)))"
proof -
  have "mset (settled_invoices S) \<subseteq># mset (map fst (st_done S))"
    unfolding settled_invoices_def by (simp add: image_mset_subseteq_mono mset_filter)
  also have "\<dots> \<subseteq># mset (invoices_of S)" by (simp add: invoices_of_def)
  also have "\<dots> \<subseteq># mset (map (snd \<circ> snd) (sys_payouts (st_system S)))" using assms by (simp add: settle_inv_def)
  finally show ?thesis .
qed

lemma distinct_count:
  assumes "\<And>a. count (mset xs) a \<le> 1"
  shows "distinct xs"
proof -
  have "count (mset xs) a = 1" if "a \<in> set xs" for a
  proof -
    have "0 < count (mset xs) a" using that by (simp only: count_greater_zero_iff set_mset_mset)
    with assms [of a] show ?thesis by linarith
  qed
  then show ?thesis by (auto simp: distinct_count_atmost_1 count_mset_0_iff)
qed

lemma settled_once:
  assumes "settle_inv D contents L P rec sg S"
  shows "distinct (map inv_id (settled_invoices S))"
proof -
  let ?ps = "sys_payouts (st_system S)"
  have "count (mset (map inv_id (settled_invoices S))) oid \<le> 1" for oid
  proof -
    have "count (mset (map inv_id (settled_invoices S))) oid \<le> count (mset (map inv_id (map (snd \<circ> snd) ?ps))) oid"
      using image_mset_subseteq_mono [OF settled_in_begun [OF assms], of inv_id]
      by (auto simp: subseteq_mset_def simp flip: mset_map)
    also have "\<dots> = payouts_of oid ?ps" by (simp add: payouts_of_count)
    also have "\<dots> \<le> 1"
    proof -
      have "count_ok (book_of D contents (st_system S)) (st_system S)"
        using assms by (simp add: settle_inv_def sys_inv_def)
      then have "reaps oid (sys_in_flight (st_system S)) + payouts_of oid ?ps \<le> 1"
        unfolding count_ok_def by (rule allE [of _ oid]) (simp split: if_splits)
      then show ?thesis by simp
    qed
    finally show ?thesis .
  qed
  then show ?thesis by (rule distinct_count)
qed

lemma settled_justified:
  assumes "settle_inv D contents L P rec sg S" and "i \<in> set (settled_invoices S)"
  shows "inv_recipient i = rec \<and> (\<exists>x u. ledger_in D contents (sys_daemon (st_system S)) (inv_id i) = Some x \<and>
    payment_status x = Paid \<and> account_from_base58 (de_crypto D) (payment_account x) = Inr (inv_address i, u))"
proof -
  have "i \<in># mset (map (snd \<circ> snd) (sys_payouts (st_system S)))"
    using mset_subset_eqD [OF settled_in_begun [OF assms(1)]] assms(2) by simp
  with assms(1) have "justified (de_crypto D) rec L (sys_world (st_system S)) (book_of D contents (st_system S)) i"
    by (force simp: settle_inv_def sys_inv_def sys_msgs_def)
  then have "of_book (de_crypto D) rec (book_of D contents (st_system S)) i"
    and "is_paid (book_of D contents (st_system S)) (inv_id i)"
    by (simp_all add: justified_def)
  from of_bookD [OF this(1)] this(2) show ?thesis by (auto simp: is_paid_def book_of_def)
qed

text \<open>Together: the record is one extrinsic each for orders that are paid.\<close>

lemma submitted_rightful:
  assumes "settle_inv D contents L P rec sg S"
  shows "distinct (map inv_id (settled_invoices S)) \<and>
    list_all2 (\<lambda>i params. (\<exists>m. pays L P (signer_sign (de_crypto D) rec sg) m i params) \<and> inv_recipient i = rec \<and>
      (\<exists>x u. ledger_in D contents (sys_daemon (st_system S)) (inv_id i) = Some x \<and> payment_status x = Paid \<and>
        account_from_base58 (de_crypto D) (payment_account x) = Inr (inv_address i, u)))
      (settled_invoices S) (submitted S)"
proof -
  from assms have ended: "list_all (done_ok L P (signer_sign (de_crypto D) rec sg)) (st_done S)"
    and log: "submitted S = concat (map (snd \<circ> snd) (st_done S))"
    by (simp_all add: settle_inv_def)
  have "list_all2 (\<lambda>i params. \<exists>m. pays L P (signer_sign (de_crypto D) rec sg) m i params)
      (settled_invoices S) (submitted S)"
    using done_submitted [OF ended] by (simp only: settled_invoices_def log)
  then show ?thesis
    by (intro conjI settled_once [OF assms], elim list.rel_mono_strong)
      (use settled_justified [OF assms] in blast)
qed

section \<open>Only payouts submit\<close>

lemma settle_step_recordable:
  assumes "recordable (st_system S)" and "settle_step D L P connect config ev S = Some S'"
  shows "recordable (st_system S') \<and> ((\<forall>k. ev \<noteq> RunPayout k) \<longrightarrow> submitted S' = submitted S)"
proof (cases ev)
  case (Daemon e)
  from assms(1) obtain s where s: "sys_recorded s (st_system S)" unfolding recordable_def by blast
  from assms(2) Daemon obtain v' where v': "sys_step D L (recorded connect) config e (st_system S) = Some v'" and
    S': "S' = S\<lparr>st_system := v', st_tasks := st_tasks S @ spawned (st_system S) v'\<rparr>" by auto
  from sys_step_recorded [OF s, of D L connect config e] v' show ?thesis
    by (auto simp: S' submitted_def recordable_def split: option.splits)
next
  case (RunPayout k)
  obtain job where job: "st_tasks S ! k = job" by blast
  obtain rpc i watcher where parts: "job = (rpc, i, watcher)" by (rule prod_cases3)
  from assms(2) RunPayout show ?thesis
    using recordable_world [OF assms(1), of "run_payout D L P connect job (st_system S)"]
    by (auto simp: job parts Let_def split: if_splits simp del: split_paired_All split_paired_Ex)
next
  case (Elsewhere w)
  with assms(2) recordable_world [OF assms(1)] show ?thesis by (auto simp: submitted_def)
qed

lemma start_recordable: "recordable (st_system (settlement_start d out w))"
proof -
  have "sys_recorded (system_from d out w) (system_from d out (w, []))"
    by (simp add: sys_recorded_def system_from_def)
  then show ?thesis unfolding recordable_def settlement_start_def by auto
qed

lemma settles_recordable:
  "settles D L P connect config S0 S \<Longrightarrow> recordable (st_system S0) \<Longrightarrow> recordable (st_system S)"
  by (induction rule: settles.induct) (auto dest: settle_step_recordable)

text \<open>C26. Nothing but a payout task submits anything to a chain: in every state the daemon gets into, a step
  that adds to the record of submissions is the run of one payout task, and it adds one extrinsic.\<close>

theorem only_payouts_submit:
  assumes "settles D L P connect config (settlement_start d out w) S"
    and "settle_step D L P connect config ev S = Some S'" and "submitted S' \<noteq> submitted S"
  shows "\<exists>k params. ev = RunPayout k \<and> k < length (st_tasks S) \<and> submitted S' = submitted S @ [params]"
proof -
  from settles_recordable [OF assms(1) start_recordable] settle_step_recordable [OF _ assms(2)] assms(3)
  obtain k where ev: "ev = RunPayout k" by blast
  obtain rpc i watcher where job: "st_tasks S ! k = (rpc, i, watcher)" by (rule prod_cases3)
  obtain w sent where world: "sys_world (st_system S) = (w, sent)" by fastforce
  define sign where "sign = signer_sign (de_crypto D) (recipient (sys_daemon (st_system S))) (signer (sys_daemon (st_system S)))"
  obtain r w' sent' where run: "payout L P (recorded connect) sign rpc i watcher (w, sent) = (r, (w', sent'))"
    by (metis prod.exhaust)
  from assms(2) have k: "k < length (st_tasks S)" and after: "submitted S' = sent'"
    by (auto simp: ev job Let_def run_payout_def submitted_def world run [unfolded sign_def] split: if_splits)
  with assms(3) have "sent' \<noteq> sent" by (simp add: submitted_def world)
  from payout_submission [OF run this] have "\<exists>params. sent' = sent @ [params]" by metis
  with ev k after show ?thesis by (simp add: submitted_def world)
qed

section \<open>The miniature\<close>

lemma settles_daemon:
  assumes "reachable D L connect config (system_from d out w) s"
  shows "\<exists>S. settles D L P connect config (settlement_start d out w) S \<and> sys_recorded s (st_system S) \<and>
    submitted S = [] \<and> st_done S = [] \<and> (sys_payouts s = [] \<longrightarrow> st_tasks S = [])"
  using assms
proof (induction rule: reachable.induct)
  case start
  have "sys_recorded (system_from d out w) (st_system (settlement_start d out w))"
    by (simp add: sys_recorded_def system_from_def settlement_start_def)
  then show ?case
    by (intro exI [of _ "settlement_start d out w"])
      (simp add: settles.start settlement_start_def submitted_def system_from_def)
next
  case (step s ev s')
  then obtain S where S: "settles D L P connect config (settlement_start d out w) S"
    "sys_recorded s (st_system S)" "submitted S = []" "st_done S = []" "sys_payouts s = [] \<longrightarrow> st_tasks S = []"
    by blast
  from sys_step_recorded [OF S(2), of D L connect config ev] step.hyps(2) obtain v' where
    v': "sys_step D L (recorded connect) config ev (st_system S) = Some v'" "sys_recorded s' v'"
      "snd (sys_world v') = snd (sys_world (st_system S))" by auto
  let ?S = "S\<lparr>st_system := v', st_tasks := st_tasks S @ spawned (st_system S) v'\<rparr>"
  have "settle_step D L P connect config (Daemon ev) S = Some ?S" by (simp add: v'(1))
  from settles.step [OF S(1) this] have "settles D L P connect config (settlement_start d out w) ?S" .
  moreover have "st_tasks ?S = []" if "sys_payouts s' = []"
  proof -
    from sys_step_begins [OF step.hyps(2)] that have "sys_payouts s = []" by auto
    with S(5) that v'(2) show ?thesis by (simp add: spawned_def sys_recorded_def)
  qed
  ultimately show ?case
    using S(3,4) v'(2,3) by (intro exI [of _ ?S]) (simp add: submitted_def)
qed

lemma toy_settles:
  assumes base: "toy_base b" and running: "signer_running (signer b)"
  shows "\<exists>S k S'. settles toy_env toy_lib toy_payout_lib toy_connect [toy_chain]
      (settlement_start b [(0, TrackWatch (WatchAccount toy_paid_invoice))] ()) S \<and>
    settle_step toy_env toy_lib toy_payout_lib toy_connect [toy_chain] (RunPayout k) S = Some S' \<and>
    st_tasks S = [(''ws://toy'', toy_paid_invoice, toy_watcher)] \<and>
    submitted S = [] \<and> submitted S' = [[JString ''0xh'']]"
proof -
  let ?watch = "[(0, TrackWatch (WatchAccount toy_paid_invoice))]"
  let ?settles = "settles toy_env toy_lib toy_payout_lib toy_connect [toy_chain] (settlement_start b ?watch ())"
  let ?reap = "toy_system b Paid [] (toy_serving []) [(0, TrackReap (WatchAccount toy_paid_invoice))] [] [] (Some toy_assets)"
  let ?begun = "toy_system b Paid [] (toy_serving []) [] [] [(0, ''ws://toy'', toy_paid_invoice)] (Some toy_assets)"
  have "reachable toy_env toy_lib toy_connect [toy_chain] (system_from b ?watch ()) ?reap"
    unfolding toy_system_from [OF base]
    by (rule toy_reachable_report [OF base, THEN reachable.step [OF _ toy_step_paid [OF base]]])
  from settles_daemon [OF this, of toy_payout_lib] obtain S where S: "?settles S" "sys_recorded ?reap (st_system S)"
    "submitted S = []" "st_done S = []" "st_tasks S = []"
    by (auto simp: toy_system_def)
  from sys_step_recorded [OF S(2), of toy_env toy_lib toy_connect "[toy_chain]" "Deliver 0 60",
      unfolded toy_step_reap option.case] obtain v where
    v: "sys_step toy_env toy_lib (recorded toy_connect) [toy_chain] (Deliver 0 60) (st_system S) = Some v"
      "sys_recorded ?begun v" "snd (sys_world v) = snd (sys_world (st_system S))"
    by blast
  have payouts: "sys_payouts (st_system S) = []" "sys_payouts v = [(0, ''ws://toy'', toy_paid_invoice)]"
    using S(2) v(2) by (simp_all add: sys_recorded_def toy_system_def)
  have "state_sim recorded_as (sys_watchers ?reap 0) (sys_watchers (st_system S) 0)"
    using S(2) unfolding sys_recorded_def by blast
  then obtain C where "phase (sys_watchers (st_system S) 0) = Serving C toy_watcher ''ws://toy''"
    by (auto simp: toy_system_def state_sim_def phase_sim.simps split: tracker_phase.splits)
  then have tasks: "spawned (st_system S) v = [(''ws://toy'', toy_paid_invoice, toy_watcher)]"
    by (simp add: spawned_def payouts)
  let ?S = "S\<lparr>st_system := v, st_tasks := st_tasks S @ spawned (st_system S) v\<rparr>"
  have "settle_step toy_env toy_lib toy_payout_lib toy_connect [toy_chain] (Daemon (Deliver 0 60)) S = Some ?S"
    by (simp only: settle_step.simps v(1) option.map)
  from settles.step [OF S(1) this] have reach: "?settles ?S" .
  have world: "sys_world v = ((), [])" using v(3) S(3) by (simp add: submitted_def prod_eq_iff)
  have d: "sys_daemon v = sys_daemon ?begun" using v(2) by (simp add: sys_recorded_def)
  have "\<exists>g. signer_sign (de_crypto toy_env) (recipient (sys_daemon v)) (signer (sys_daemon v)) ''a'' [1] = Inr g"
    using running by (simp add: d toy_system_def signer_sign_eq toy_env_def toy_crypto_def order_pair_def derivations_def update_currencies_def)
  then obtain g where g: "signer_sign (de_crypto toy_env) (recipient (sys_daemon v)) (signer (sys_daemon v)) ''a'' [1] = Inr g" ..
  have "run_payout toy_env toy_lib toy_payout_lib toy_connect (''ws://toy'', toy_paid_invoice, toy_watcher) v =
      ((), [[JString ''0xh'']])"
    using toy_payout [of "signer_sign (de_crypto toy_env) (recipient (sys_daemon v)) (signer (sys_daemon v))", OF g]
    by (simp add: run_payout_def world)
  then have "\<exists>S'. settle_step toy_env toy_lib toy_payout_lib toy_connect [toy_chain] (RunPayout 0) ?S = Some S' \<and>
      submitted S' = [[JString ''0xh'']]"
    by (simp add: tasks S(5) Let_def submitted_def)
  moreover have "submitted ?S = []" by (simp add: submitted_def world)
  moreover have "st_tasks ?S = [(''ws://toy'', toy_paid_invoice, toy_watcher)]" by (simp add: tasks S(5))
  ultimately show ?thesis using reach by blast
qed

theorem only_payouts_submit_witness:
  "\<exists>S S' k. settles toy_env toy_lib toy_payout_lib toy_connect [toy_chain]
      (settlement_start toy_saved [(0, TrackWatch (WatchAccount toy_paid_invoice))] ()) S \<and>
    settle_step toy_env toy_lib toy_payout_lib toy_connect [toy_chain] (RunPayout k) S = Some S' \<and>
    k < length (st_tasks S) \<and> submitted S' = [[JString ''0xh'']]"
proof -
  have "signer_running (signer toy_saved)" by (simp add: toy_saved_def toy_daemon_def)
  from toy_settles [OF toy_saved_base this] obtain S k S' where
    S: "settles toy_env toy_lib toy_payout_lib toy_connect [toy_chain]
      (settlement_start toy_saved [(0, TrackWatch (WatchAccount toy_paid_invoice))] ()) S"
    "settle_step toy_env toy_lib toy_payout_lib toy_connect [toy_chain] (RunPayout k) S = Some S'"
    "submitted S = []" "submitted S' = [[JString ''0xh'']]" by blast
  then have "submitted S' \<noteq> submitted S" by simp
  from only_payouts_submit [OF S(1,2) this] S show ?thesis by blast
qed

end
