(* ===== verification/Currency_Typing.thy ===== *)
theory Currency_Typing
  imports Settlement Tracker_Properties
begin

text \<open>
  The typing of currencies. \<open>CurrencyProperties\<close> of \<open>src/definitions.rs\<close> has both a \<open>kind\<close> and an optional
  \<open>asset_id\<close>; the balance query (\<open>Invoice::balance\<close>) goes by the one and the payout by the other. They agree in
  every currency that a node's answers are turned into, and from there wherever the daemon has it.
\<close>

section \<open>Where currencies come from\<close>

text \<open>A native currency has no asset id and an asset has one.\<close>

definition kind_agrees :: "currency_properties \<Rightarrow> bool" where
  "kind_agrees p \<longleftrightarrow> (cp_kind p = Native \<longleftrightarrow> cp_asset_id p = None)"

text \<open>The configuration asks for the name of the native token or, without one, for the name and the id of an asset.\<close>

definition asked_for :: "chain_config \<Rightarrow> string \<times> currency_properties \<Rightarrow> bool" where
  "asked_for chain np \<longleftrightarrow> (case native_token chain of
     Some t \<Rightarrow> native_name t = fst np
   | None \<Rightarrow> (\<exists>a \<in> set (assets chain). asset_name a = fst np \<and> cp_asset_id (snd np) = Some (asset_id a)))"

lemma wanted_asked: "wanted chain specs np \<Longrightarrow> asked_for chain np"
  by (auto simp: wanted_def asked_for_def split: option.splits)

definition currency_of :: "chain_config \<Rightarrow> string \<Rightarrow> string \<times> currency_properties \<Rightarrow> bool" where
  "currency_of chain e np \<longleftrightarrow> kind_agrees (snd np) \<and> cp_chain_name (snd np) = chain_name chain \<and>
     cp_rpc_url (snd np) = e \<and> asked_for chain np"

lemma assets_set_typed:
  assumes "assets_set_at_block L C block m url specs w = (Inr cs, w')" and "spec_name L m = Inr name"
  shows "\<forall>np \<in> set cs. kind_agrees (snd np) \<and> cp_chain_name (snd np) = name \<and> cp_rpc_url (snd np) = url"
  by (rule assets_set_keeps [OF assms]) (auto simp: kind_agrees_def asset_currency_def dest!: update_in_set)

lemma prepare_chain_typed:
  assumes "prepare_chain L C chain ws url w = (Inr (watcher, out, ws'), w')"
  shows "(\<forall>np \<in> set (w_assets watcher). currency_of chain url np) \<and>
    (\<forall>cs. ConnectChain cs \<in> set out \<longrightarrow> cs = w_assets watcher)"
proof -
  from prepare_chain_ok [OF assms] obtain all_assets specs block v v' paid where
    name: "spec_name L (w_metadata watcher) = Inr (chain_name chain)" and
    set: "assets_set_at_block L C block (w_metadata watcher) url specs v = (Inr all_assets, v')" and
    kept: "w_assets watcher = filter (wanted chain specs) all_assets" and
    out: "out = ConnectChain (w_assets watcher) # map OrderPaid paid"
    by blast
  from assets_set_typed [OF set name] kept out show ?thesis
    by (auto simp: currency_of_def dest: wanted_asked)
qed

section \<open>Where the daemon has them\<close>

text \<open>What the daemon may hold: currencies that a configured chain was asked for, read from one of its endpoints.\<close>

definition configured_currency :: "chain_config list \<Rightarrow> string \<times> currency_properties \<Rightarrow> bool" where
  "configured_currency config np \<longleftrightarrow> (\<exists>chain \<in> set config. \<exists>e \<in> set (endpoints chain). currency_of chain e np)"

definition configured_map :: "chain_config list \<Rightarrow> currency_map \<Rightarrow> bool" where
  "configured_map config cs \<longleftrightarrow> (\<forall>np \<in> set cs. configured_currency config np)"

definition tracker_typed :: "chain_config \<Rightarrow> ('r, 'w) tracker_state \<Rightarrow> bool" where
  "tracker_typed chain t \<longleftrightarrow> (\<forall>C watcher e. phase t = Serving C watcher e \<longrightarrow>
     e \<in> set (endpoints chain) \<and> (\<forall>np \<in> set (w_assets watcher). currency_of chain e np))"

lemma currencies_of_configured:
  "chain \<in> set config \<Longrightarrow> e \<in> set (endpoints chain) \<Longrightarrow> \<forall>np \<in> set cs. currency_of chain e np \<Longrightarrow>
    configured_map config cs"
  by (auto simp: configured_map_def configured_currency_def)

lemma tracker_step_typed:
  assumes "tracker_step L connect chain x t w = Some (t', out, w')" and "tracker_typed chain t"
  shows "tracker_typed chain t' \<and>
    (\<forall>cs. ConnectChain cs \<in> set out \<longrightarrow> (\<exists>e \<in> set (endpoints chain). \<forall>np \<in> set cs. currency_of chain e np))"
proof (cases x)
  case (TryEndpoint cancelled)
  have e: "endpoints chain \<noteq> [] \<Longrightarrow>
      endpoints chain ! (next_endpoint t mod length (endpoints chain)) \<in> set (endpoints chain)" by simp
  from assms TryEndpoint show ?thesis
    by (auto simp: tracker_typed_def Let_def split: tracker_phase.splits if_splits prod.splits option.splits sum.splits
        dest!: prepare_chain_typed intro!: bexI [OF _ e])
next
  case (Receive now req)
  with assms show ?thesis
    by (cases req) (auto simp: tracker_typed_def on_new_block_def
        split: tracker_phase.splits prod.splits sum.splits if_splits events_outcome.splits)
qed (use assms in \<open>auto simp: tracker_typed_def split: tracker_phase.splits\<close>)

text \<open>The state handler's currencies are those of the messages of the watchers.\<close>

lemma on_event_currencies:
  assumes "on_event D ev d = (r, d', out)" and "currencies d' c = Some p"
  shows "currencies d c = Some p \<or> (\<exists>k alive cs. ev = Request k alive (SConnectChain cs) \<and> (c, p) \<in> set cs)"
proof (cases ev)
  case (Request k alive req)
  with assms show ?thesis
    by (cases req) (auto simp: deliver_def get_invoice_status_def create_invoice_def order_paid_def
        update_currencies_def Let_def map_add_Some_iff dest: map_of_SomeD
        split: if_splits prod.splits sum.splits option.splits order_create_response.splits)
next
  case (Cancelled k)
  with assms show ?thesis by (auto simp: state_shutdown_def split: if_splits prod.splits)
qed

section \<open>The whole daemon\<close>

definition sys_typed :: "chain_config list \<Rightarrow> ('t, 'r, 'w) system \<Rightarrow> bool" where
  "sys_typed config s \<longleftrightarrow>
     (\<forall>n. if n < length config then tracker_typed (config ! n) (sys_watchers s n) else phase (sys_watchers s n) = AtEndpoint) \<and>
     (\<forall>cs. SConnectChain cs \<in> set (sys_to_state s) \<longrightarrow> configured_map config cs) \<and>
     (\<forall>c p. currencies (sys_daemon s) c = Some p \<longrightarrow> configured_currency config (c, p))"

lemma absorb_typed:
  assumes "sys_typed config s" and "n < length config"
    and "tracker_step L connect (config ! n) x (sys_watchers s n) (sys_world s) = Some res"
  shows "sys_typed config (absorb n res s)"
proof -
  obtain t out w where res: "res = (t, out, w)" by (rule prod_cases3)
  from tracker_step_typed [OF assms(3) [unfolded res]] assms(1,2)
  have t: "tracker_typed (config ! n) t"
    and out: "\<And>cs. ConnectChain cs \<in> set out \<Longrightarrow> configured_map config cs"
    by (auto simp: sys_typed_def intro: currencies_of_configured [OF nth_mem])
  have "configured_map config cs" if "SConnectChain cs \<in> set (report y)" and "y \<in> set out" for y cs
    using that out by (cases y) auto
  with assms(1,2) t show ?thesis by (auto simp: sys_typed_def absorb_def res)
qed

lemma handle_event_typed:
  assumes "sys_typed config s" and "\<And>k alive cs. ev = Request k alive (SConnectChain cs) \<Longrightarrow> configured_map config cs"
  shows "sys_typed config (handle_event D ev s)"
proof -
  obtain r d' out where ev: "on_event D ev (sys_daemon s) = (r, d', out)" by (rule prod_cases3)
  have "configured_currency config (c, p)" if "currencies d' c = Some p" for c p
    using on_event_currencies [OF ev that] assms by (fastforce simp: sys_typed_def configured_map_def)
  with assms(1) show ?thesis by (simp add: sys_typed_def handle_event_def ev)
qed

lemma sys_step_typed:
  assumes "sys_step D L connect config ev s = Some s'" and "sys_typed config s"
  shows "sys_typed config s'"
proof (cases ev)
  case (Web k alive req)
  with assms show ?thesis by (auto simp: split: if_splits intro!: handle_event_typed)
next
  case (Message k)
  with assms(1) obtain req reqs where q: "sys_to_state s = req # reqs"
    and s': "s' = handle_event D (Request k True req) (s\<lparr>sys_to_state := reqs\<rparr>)"
    by (auto split: list.splits)
  from assms(2) q have "sys_typed config (s\<lparr>sys_to_state := reqs\<rparr>)"
    and "\<And>cs. req = SConnectChain cs \<Longrightarrow> configured_map config cs" by (auto simp: sys_typed_def)
  then show ?thesis unfolding s' by (intro handle_event_typed) auto
next
  case (Cancel k)
  with assms handle_event_typed [OF assms(2), of "Cancelled k" D] show ?thesis
    by (auto simp: Let_def sys_typed_def)
next
  case Restore
  with assms show ?thesis by (auto simp: sys_typed_def split: list.splits)
next
  case (Watcher n x)
  with assms show ?thesis by (auto simp del: tracker_step.simps split: if_splits intro: absorb_typed)
next
  case (Deliver n now)
  then obtain req rest res where n: "n < length config"
    and step: "tracker_step L connect (config ! n) (Receive now req) (sys_watchers s n) (sys_world s) = Some res"
    and s': "s' = absorb n res (s\<lparr>sys_in_flight := rest\<rparr>)"
    using assms(1) by (auto simp del: tracker_step.simps split: if_splits option.splits prod.splits)
  from assms(2) have "sys_typed config (s\<lparr>sys_in_flight := rest\<rparr>)" by (simp add: sys_typed_def)
  from absorb_typed [OF this n] step show ?thesis by (simp add: s')
qed

text \<open>The copies that the payout tasks were given are those of a watcher that serves.\<close>

lemma spawned_typed:
  assumes "sys_typed config s" and "(rpc, i, watcher) \<in> set (spawned s s')"
  shows "configured_map config (w_assets watcher)"
proof -
  from assms(2) obtain n C e where serving: "phase (sys_watchers s n) = Serving C watcher e"
    by (auto simp: spawned_def split: tracker_phase.splits dest: sym)
  with assms(1) have n: "n < length config" and "tracker_typed (config ! n) (sys_watchers s n)"
    by (auto simp: sys_typed_def split: if_splits dest!: spec [of _ n])
  with serving show ?thesis
    by (auto simp: tracker_typed_def intro: currencies_of_configured [OF nth_mem])
qed

definition settle_typed :: "chain_config list \<Rightarrow> ('t, 'r, 'w) settlement \<Rightarrow> bool" where
  "settle_typed config S \<longleftrightarrow> sys_typed config (st_system S) \<and>
     (\<forall>(rpc, i, watcher) \<in> set (st_tasks S). configured_map config (w_assets watcher))"

lemma settle_step_typed:
  assumes "settle_step D L P connect config ev S = Some S'" and "settle_typed config S"
  shows "settle_typed config S'"
proof (cases ev)
  case (Daemon e)
  with assms(1) obtain v where v: "sys_step D L (recorded connect) config e (st_system S) = Some v"
    and S': "S' = S\<lparr>st_system := v, st_tasks := st_tasks S @ spawned (st_system S) v\<rparr>" by auto
  from assms(2) have "sys_typed config (st_system S)" by (simp add: settle_typed_def)
  with sys_step_typed [OF v] spawned_typed assms(2) show ?thesis by (fastforce simp: settle_typed_def S')
next
  case (RunPayout k)
  obtain rpc i watcher where job: "st_tasks S ! k = (rpc, i, watcher)" by (rule prod_cases3)
  from assms(1) RunPayout have "\<exists>w' ds. S' = S\<lparr>st_system := (st_system S)\<lparr>sys_world := w'\<rparr>,
      st_tasks := take k (st_tasks S) @ drop (Suc k) (st_tasks S), st_done := ds\<rparr>"
    by (auto simp: job Let_def split: if_splits simp del: split_paired_Ex)
  then obtain w' ds where S': "S' = S\<lparr>st_system := (st_system S)\<lparr>sys_world := w'\<rparr>,
      st_tasks := take k (st_tasks S) @ drop (Suc k) (st_tasks S), st_done := ds\<rparr>" by blast
  from assms(2) show ?thesis
    by (auto simp: settle_typed_def sys_typed_def S' dest: in_set_takeD in_set_dropD)
next
  case (Elsewhere w)
  with assms show ?thesis by (auto simp: settle_typed_def sys_typed_def)
qed

lemma settles_typed:
  assumes "settles D L P connect config (settlement_start d out w) S" and "currencies d = Map.empty"
  shows "settle_typed config S"
  using assms(1)
proof (induction rule: settles.induct)
  case start
  from assms(2) show ?case
    by (simp add: settle_typed_def settlement_start_def sys_typed_def system_from_def tracker_typed_def tracker_start_def)
qed (rule settle_step_typed)

lemma invoice_balance_found:
  assumes "map_of (w_assets watcher) (inv_currency i) = Some p"
  shows "invoice_balance L C watcher block i = (case cp_asset_id p of
     Some aid \<Rightarrow> asset_balance_at_account L C block (w_metadata watcher) (inv_address i) aid
   | None \<Rightarrow> system_balance_at_account L C block (w_metadata watcher) (inv_address i))"
  by (rule ext) (simp add: invoice_balance_def assms call_then_apply)

text \<open>C5. Kinds and asset ids agree wherever the daemon has a currency: every currency on offer is one of a
  configured chain, native exactly if it has no asset id. So a payout pays in what its balance was checked
  in: for a native currency both are the native ones, for an asset both are of the one asset id, and the error
  \<open>AssetId\<close> of a payout without one is never met.\<close>

theorem payout_in_checked_currency:
  assumes "settles D L P connect config (settlement_start d out w) S" and "currencies d = Map.empty"
  shows "(\<forall>c p. currencies (sys_daemon (st_system S)) c = Some p \<longrightarrow>
      (\<exists>chain \<in> set config. cp_chain_name p = chain_name chain \<and> cp_rpc_url p \<in> set (endpoints chain) \<and>
        (case native_token chain of
           Some t \<Rightarrow> c = native_name t
         | None \<Rightarrow> \<exists>a \<in> set (assets chain). asset_name a = c \<and> cp_asset_id p = Some (asset_id a)) \<and>
        (cp_kind p = Native \<longleftrightarrow> cp_asset_id p = None))) \<and>
    (\<forall>(rpc, i, watcher) \<in> set (st_tasks S). \<forall>p. map_of (w_assets watcher) (inv_currency i) = Some p \<longrightarrow>
      (case cp_kind p of
         Native \<Rightarrow> (\<forall>C block. invoice_balance L C watcher block i =
           system_balance_at_account L C block (w_metadata watcher) (inv_address i)) \<and>
           payout_call L watcher i p = construct_single_balance_transfer_call L (w_metadata watcher)
             \<lparr>bt_amount = units (inv_amount i), bt_to_account = inv_recipient i, bt_is_clearing = True\<rparr>
       | Asset \<Rightarrow> \<exists>aid. (\<forall>C block. invoice_balance L C watcher block i =
           asset_balance_at_account L C block (w_metadata watcher) (inv_address i) aid) \<and>
           payout_call L watcher i p = construct_single_asset_transfer_call L (w_metadata watcher)
             \<lparr>at_asset_id = aid, at_amount = units (inv_amount i), at_to_account = inv_recipient i\<rparr>))"
proof -
  have typed: "settle_typed config S" by (rule settles_typed [OF assms])
  show ?thesis
  proof (intro conjI ballI allI impI, goal_cases)
    case (1 c p)
    with typed obtain chain e where "chain \<in> set config" "e \<in> set (endpoints chain)" "currency_of chain e (c, p)"
      unfolding settle_typed_def sys_typed_def configured_currency_def by blast
    then show ?case
      by (intro bexI [of _ chain]) (auto simp: currency_of_def kind_agrees_def asked_for_def split: option.splits)
  next
    case (2 job)
    obtain rpc i watcher where job: "job = (rpc, i, watcher)" by (rule prod_cases3)
    with typed 2 have "configured_map config (w_assets watcher)" by (auto simp: settle_typed_def)
    then have "cp_kind p = Native \<longleftrightarrow> cp_asset_id p = None"
      if "map_of (w_assets watcher) (inv_currency i) = Some p" for p
      using map_of_SomeD [OF that]
      by (force simp: configured_map_def configured_currency_def currency_of_def kind_agrees_def)
    then show ?case
      by (auto simp: job invoice_balance_found payout_call_def split: token_kind.split option.split)
        (intro exI conjI allI, (rule refl)+)
  qed
qed

theorem payout_in_checked_currency_witness:
  "\<exists>S. settles toy_env toy_lib toy_payout_lib toy_connect [toy_chain]
      (settlement_start toy_saved [(0, TrackWatch (WatchAccount toy_paid_invoice))] ()) S \<and>
    st_tasks S = [(''ws://toy'', toy_paid_invoice, toy_watcher)] \<and>
    payout_call toy_lib toy_watcher toy_paid_invoice (snd (hd toy_assets)) =
      construct_single_balance_transfer_call toy_lib toy_metadata
        \<lparr>bt_amount = 7, bt_to_account = [3], bt_is_clearing = True\<rparr>"
proof -
  have "signer_running (signer toy_saved)" by (simp add: toy_saved_def toy_daemon_def)
  from toy_settles [OF toy_saved_base this] obtain S where
    S: "settles toy_env toy_lib toy_payout_lib toy_connect [toy_chain]
      (settlement_start toy_saved [(0, TrackWatch (WatchAccount toy_paid_invoice))] ()) S"
    "st_tasks S = [(''ws://toy'', toy_paid_invoice, toy_watcher)]" by blast
  have "currencies toy_saved = Map.empty" by (simp add: toy_saved_def)
  from payout_in_checked_currency [OF S(1) this] S show ?thesis
    by (auto simp: toy_watcher_def toy_invoice_def toy_assets_def)
qed

section \<open>An asset in the place of the native token\<close>

text \<open>
  The property asks nothing of the kind of the currency that a native token's name stands for, and it cannot: a
  sufficient asset enters the set under its symbol, over the native currency if that has the same, and the
  check of \<open>ChainWatcher::prepare_chain\<close> compares the name, the number of currencies, and the decimals of the
  chain's properties. So this node is accepted for the native token \<open>TOY\<close> of 10 decimals with an asset of 2.
\<close>

definition impostor_metadata :: "unit metadata" where
  "impostor_metadata = \<lparr>pallets = [\<lparr>pallet_name = ''Assets'', pallet_index_of = 1,
     storage = Some \<lparr>storage_prefix = ''Assets'',
       entries = [\<lparr>entry_name = ''Asset'', entry_ty = Plain 0\<rparr>,
         \<lparr>entry_name = ''Metadata'', entry_ty = Map [Identity] 0 0\<rparr>]\<rparr>,
     constants = []\<rparr>], call_ty = 0, registry = ()\<rparr>"

definition impostor_lib :: "unit chain_lib" where
  "impostor_lib = toy_lib\<lparr>decode_metadata := (\<lambda>_. Inr (V15 impostor_metadata)),
     decode_as_storage_entry := (\<lambda>k v e r. Inr (SingleHash (KeyParsed (PrimitiveU32 1984)),
       Composite [(Some ''is_sufficient'', PrimitiveBool True)])),
     decode_all_as_type := (\<lambda>ty b r. Inr (Composite
       [(Some ''symbol'', ParsedText ''TOY''), (Some ''decimals'', PrimitiveU8 2)]))\<rparr>"

definition impostor :: currency_properties where
  "impostor = asset_currency ''toy'' ''ws://toy'' 0 1984 2"

lemma impostor_simps [simp]:
  "hex_encode impostor_lib b = map (\<lambda>_. CHR ''h'') b" "hex_decode impostor_lib s = Inr (map (\<lambda>_. 0) s)"
  "decode_option_bytes impostor_lib b = Inr (Some (bytes_of ''meta''))"
  "decode_metadata impostor_lib b = Inr (V15 impostor_metadata)" "spec_name impostor_lib m = Inr ''toy''"
  "resolve_ty impostor_lib r ty = Inr TypeU32" "encode_u32 impostor_lib n = [ucast n]"
  "decode_as_storage_entry impostor_lib k v e r = Inr (SingleHash (KeyParsed (PrimitiveU32 1984)),
     Composite [(Some ''is_sufficient'', PrimitiveBool True)])"
  "decode_all_as_type impostor_lib ty b r = Inr (Composite
     [(Some ''symbol'', ParsedText ''TOY''), (Some ''decimals'', PrimitiveU8 2)])"
  by (simp_all add: impostor_lib_def toy_lib_def)

lemma impostor_pages: "get_keys_from_storage impostor_lib toy_client prefix name block () =
    ([JArray [JString ''0xkey'']], ())"
proof -
  have "key_pages toy_client (Suc (Suc n)) [x, y] b None [] () = ([JArray [JString ''0xkey'']], ())"
    for n x y b
    by (simp add: toy_request_def Let_def)
  from this [of 254] show ?thesis by (simp add: get_keys_from_storage_def MAX_KEY_PAGES_def)
qed

lemma impostor_set:
  "assets_set_at_block impostor_lib toy_client (BlockHash b) impostor_metadata ''ws://toy'' (w_specs toy_watcher) () =
     (Inr [(''TOY'', impostor)], ())"
  by (simp add: assets_set_at_block_def impostor_metadata_def impostor_pages toy_defs Let_def asset_at_key_def
      verified_sufficient_def asset_metadata_def text_of_def plain_text_def impostor_def)

lemma asset_poses_as_native:
  "\<exists>watcher out. prepare_chain impostor_lib toy_client toy_chain [] ''ws://toy'' () = (Inr (watcher, out, []), ()) \<and>
    w_assets watcher = [(''TOY'', impostor)] \<and> cp_kind impostor = Asset \<and> cp_decimals impostor = 2"
proof -
  have hash: "block_hash_at impostor_lib toy_client number () = (Inr toy_block, ())"
    and genesis: "genesis_hash impostor_lib toy_client () = (Inr toy_block, ())" for number
    by (simp_all add: block_hash_at_def genesis_hash_def block_hash_from_str_def toy_defs toy_block_def split: option.split)
  have sub: "subscribe_blocks toy_client () = (Inr (), ())"
    by (simp add: subscribe_blocks_def call_map_err_def)
  have block: "next_block impostor_lib toy_client () = (Inr toy_block, ())"
    by (simp add: next_block_def next_block_number_def hash call_then_def)
  have version: "runtime_version_identifier impostor_lib toy_client toy_block () = (Inr JNull, ())"
    and metadata: "metadata_at impostor_lib toy_client toy_block () = (Inr impostor_metadata, ())"
    by (simp_all add: runtime_version_identifier_def metadata_at_def toy_defs toy_block_def bytes_of_def)
  have specs: "specs_at impostor_lib toy_client impostor_metadata toy_block () = (Inr (w_specs toy_watcher), ())"
    by (simp add: specs_at_def system_properties_to_short_specs_def decimals_def unit_of_def base58prefix_def
        optional_prefix_from_meta_def find_constant_def u64_to_u8_def u64_to_u16_def toy_defs toy_block_def
        impostor_metadata_def)
  have set: "assets_set_at_block impostor_lib toy_client toy_block impostor_metadata ''ws://toy'' (w_specs toy_watcher) () =
      (Inr [(''TOY'', impostor)], ())"
    by (simp add: toy_block_def impostor_set)
  have "wanted toy_chain (w_specs toy_watcher) (''TOY'', impostor)"
    by (simp add: wanted_def toy_chain_def toy_watcher_def)
  moreover have "assets toy_chain = []" "native_token toy_chain \<noteq> None" "chain_name toy_chain = ''toy''"
    by (simp_all add: toy_chain_def)
  ultimately show ?thesis
    by (simp add: prepare_chain_def call_then_def genesis sub block version metadata specs set remove_ids_def Let_def)
      (simp add: impostor_def asset_currency_def)
qed

end
