(* ===== verification/Channels.thy ===== *)
theory Channels
  imports System
begin

text \<open>
  The bounded channels between the tasks and who waits for whom. \<open>System\<close> lets a message pass at once; here a
  channel holds at most 1024 messages, a full one keeps its sender waiting, and whoever calls the chain manager
  waits for the reply to its request. What a request or a block leads to is left open (any order request may be
  new, any block may have any orders paid), so what holds of every run here holds of the daemon's.
\<close>

section \<open>The tasks and their channels\<close>

definition CHANNEL :: nat where
  "CHANNEL = 1024"

text \<open>The two tasks that call the chain manager, and how far a call is: not made, waiting for room in the
  manager's channel, or waiting for the reply on its \<open>oneshot\<close> channel.\<close>

datatype caller = StateHandler | RestoreTask

datatype call_phase = NoCall | PutCall chain_request | AwaitReply chain_request | CallerEnded

text \<open>The manager's task; a request carries the caller that waits for its reply.\<close>

datatype manager_phase =
    ManagerReceives
  | ManagerForwards nat "caller \<times> tracker_request"
  | ManagerStops caller "nat list"
  | ManagerAwaitsStop caller "nat list"
  | ManagerEnded

text \<open>A watcher between connections, at its requests, sending its reports to the state, or ended.\<close>

datatype watcher_phase = WatcherConnects | WatcherServes | WatcherSends "state_request list" | WatcherEnded

record channels =
  ch_state :: "state_request list"
  ch_cancelled :: bool
  ch_handler :: call_phase
  ch_restore :: call_phase
  ch_saved :: "chain_request list"
  ch_manager :: "(caller \<times> chain_request) list"
  ch_routing :: manager_phase
  ch_watcher :: "nat \<Rightarrow> (caller option \<times> tracker_request) list"
  ch_watching :: "nat \<Rightarrow> watcher_phase"

definition channels_start :: "chain_request list \<Rightarrow> channels" where
  "channels_start saved = \<lparr>ch_state = [], ch_cancelled = False, ch_handler = NoCall, ch_restore = NoCall,
     ch_saved = saved, ch_manager = [], ch_routing = ManagerReceives, ch_watcher = (\<lambda>_. []),
     ch_watching = (\<lambda>_. WatcherConnects)\<rparr>"

section \<open>Replies\<close>

text \<open>A reply, or a \<open>res\<close> that is dropped unsent, ends the wait. The handler calls \<open>shutdown\<close> last of all: it
  ends after it, and with it the receiver of its channel.\<close>

definition answer_handler :: "channels \<Rightarrow> channels" where
  "answer_handler s = (case ch_handler s of
     AwaitReply ManageShutdown \<Rightarrow> s\<lparr>ch_handler := CallerEnded, ch_state := []\<rparr>
   | AwaitReply _ \<Rightarrow> s\<lparr>ch_handler := NoCall\<rparr>
   | _ \<Rightarrow> s)"

fun answer :: "caller \<Rightarrow> channels \<Rightarrow> channels" where
  "answer StateHandler s = answer_handler s"
| "answer RestoreTask s = (case ch_restore s of AwaitReply _ \<Rightarrow> s\<lparr>ch_restore := NoCall\<rparr> | _ \<Rightarrow> s)"

text \<open>The messages left in a channel are dropped with its receiver.\<close>

fun answer_all :: "caller list \<Rightarrow> channels \<Rightarrow> channels" where
  "answer_all [] s = s"
| "answer_all (c # cs) s = answer_all cs (answer c s)"

fun callers :: "(caller option \<times> tracker_request) list \<Rightarrow> caller list" where
  "callers [] = []"
| "callers ((Some c, req) # q) = c # callers q"
| "callers ((None, req) # q) = callers q"

definition end_watcher :: "nat \<Rightarrow> channels \<Rightarrow> channels" where
  "end_watcher n s = answer_all (callers (ch_watcher s n))
     (s\<lparr>ch_watching := (ch_watching s)(n := WatcherEnded), ch_watcher := (ch_watcher s)(n := [])\<rparr>)"

definition end_manager :: "caller \<Rightarrow> channels \<Rightarrow> channels" where
  "end_manager c s = answer_all (c # map fst (ch_manager s)) (s\<lparr>ch_routing := ManagerEnded, ch_manager := []\<rparr>)"

section \<open>The state handler\<close>

text \<open>\<open>self.tx.send(..).await\<close> of a \<open>State\<close>: it waits for room, and fails once the handler has ended.\<close>

definition put_state :: "state_request \<Rightarrow> channels \<Rightarrow> channels option" where
  "put_state r s = (if ch_handler s = CallerEnded then Some s
     else if length (ch_state s) < CHANNEL then Some (s\<lparr>ch_state := ch_state s @ [r]\<rparr>) else None)"

text \<open>What a request may have the handler ask of the chain manager.\<close>

fun may_call :: "state_request \<Rightarrow> chain_request option \<Rightarrow> bool" where
  "may_call r None = True"
| "may_call (SCreateInvoice q) (Some (ManageWatch a)) = (inv_id (watch_invoice a) = query_order q)"
| "may_call (SOrderPaid oid) (Some (ManageReap a)) = (inv_id (watch_invoice a) = oid)"
| "may_call r (Some req) = False"

definition handler_takes :: "chain_request option \<Rightarrow> channels \<Rightarrow> channels option" where
  "handler_takes c s = (case (ch_handler s, ch_state s) of
     (NoCall, r # rs) \<Rightarrow> if may_call r c
       then Some (s\<lparr>ch_state := rs, ch_handler := (case c of None \<Rightarrow> NoCall | Some req \<Rightarrow> PutCall req)\<rparr>)
       else None
   | _ \<Rightarrow> None)"

text \<open>A reply that cannot be delivered to a caller of the web server ends the task.\<close>

definition handler_fails :: "channels \<Rightarrow> channels option" where
  "handler_fails s = (if ch_handler s = NoCall then Some (s\<lparr>ch_handler := CallerEnded, ch_state := []\<rparr>) else None)"

text \<open>The \<open>select!\<close> is biased: the cancellation is seen when no request is waiting.\<close>

definition handler_cancelled :: "channels \<Rightarrow> channels option" where
  "handler_cancelled s = (if ch_handler s = NoCall \<and> ch_state s = [] \<and> ch_cancelled s
     then Some (s\<lparr>ch_handler := PutCall ManageShutdown\<rparr>) else None)"

section \<open>Calls of the chain manager\<close>

fun phase_of :: "caller \<Rightarrow> channels \<Rightarrow> call_phase" where
  "phase_of StateHandler s = ch_handler s"
| "phase_of RestoreTask s = ch_restore s"

fun set_phase :: "caller \<Rightarrow> call_phase \<Rightarrow> channels \<Rightarrow> channels" where
  "set_phase StateHandler p s = s\<lparr>ch_handler := p\<rparr>"
| "set_phase RestoreTask p s = s\<lparr>ch_restore := p\<rparr>"

definition call_sends :: "caller \<Rightarrow> channels \<Rightarrow> channels option" where
  "call_sends c s = (case phase_of c s of
     PutCall req \<Rightarrow>
       if ch_routing s = ManagerEnded then Some (answer c (set_phase c (AwaitReply req) s))
       else if length (ch_manager s) < CHANNEL
       then Some (set_phase c (AwaitReply req) (s\<lparr>ch_manager := ch_manager s @ [(c, req)]\<rparr>))
       else None
   | _ \<Rightarrow> None)"

definition restore_takes :: "channels \<Rightarrow> channels option" where
  "restore_takes s = (case (ch_restore s, ch_saved s) of
     (NoCall, req # reqs) \<Rightarrow> Some (s\<lparr>ch_saved := reqs, ch_restore := PutCall req\<rparr>)
   | _ \<Rightarrow> None)"

section \<open>The chain manager\<close>

definition manager_takes :: "manager \<Rightarrow> channels \<Rightarrow> channels option" where
  "manager_takes m s = (case (ch_routing s, ch_manager s) of
     (ManagerReceives, (c, req) # ms) \<Rightarrow>
       (let s1 = s\<lparr>ch_manager := ms\<rparr> in
        case fst (manage m req) of
          Forward n fwd \<Rightarrow> Some (s1\<lparr>ch_routing := ManagerForwards n (c, fwd)\<rparr>)
        | Refuse e \<Rightarrow> Some (answer c s1)
        | StopAll ns \<Rightarrow> Some (s1\<lparr>ch_routing := ManagerStops c ns\<rparr>))
   | _ \<Rightarrow> None)"

definition room_at :: "nat \<Rightarrow> channels \<Rightarrow> bool" where
  "room_at n s \<longleftrightarrow> length (ch_watcher s n) < CHANNEL"

definition put_watcher :: "nat \<Rightarrow> caller option \<times> tracker_request \<Rightarrow> channels \<Rightarrow> channels" where
  "put_watcher n x s = s\<lparr>ch_watcher := (ch_watcher s)(n := ch_watcher s n @ [x])\<rparr>"

text \<open>\<open>receiver.send(..).await\<close> to a watcher: once that has ended the request is dropped.\<close>

definition manager_sends :: "channels \<Rightarrow> channels option" where
  "manager_sends s = (case ch_routing s of
     ManagerForwards n (c, fwd) \<Rightarrow>
       if ch_watching s n = WatcherEnded then Some (answer c (s\<lparr>ch_routing := ManagerReceives\<rparr>))
       else if room_at n s then Some (put_watcher n (Some c, fwd) (s\<lparr>ch_routing := ManagerReceives\<rparr>))
       else None
   | ManagerStops c [] \<Rightarrow> Some (end_manager c s)
   | ManagerStops c (n # ns) \<Rightarrow>
       if ch_watching s n = WatcherEnded then Some (s\<lparr>ch_routing := ManagerStops c ns\<rparr>)
       else if room_at n s then Some (put_watcher n (None, TrackShutdown) (s\<lparr>ch_routing := ManagerAwaitsStop c ns\<rparr>))
       else None
   | _ \<Rightarrow> None)"

text \<open>The wait for a watcher's end ends with its reply or after \<open>SHUTDOWN_TIMEOUT\<close>.\<close>

definition manager_stop_ends :: "channels \<Rightarrow> channels option" where
  "manager_stop_ends s = (case ch_routing s of
     ManagerAwaitsStop c ns \<Rightarrow> Some (s\<lparr>ch_routing := ManagerStops c ns\<rparr>) | _ \<Rightarrow> None)"

section \<open>The watchers\<close>

definition block_arrives :: "nat \<Rightarrow> string \<Rightarrow> channels \<Rightarrow> channels option" where
  "block_arrives n number s = (if ch_watching s n \<noteq> WatcherEnded \<and> room_at n s
     then Some (put_watcher n (None, TrackNewBlock number) s) else None)"

definition set_watching :: "nat \<Rightarrow> watcher_phase \<Rightarrow> channels \<Rightarrow> channels" where
  "set_watching n p s = s\<lparr>ch_watching := (ch_watching s)(n := p)\<rparr>"

text \<open>A watcher that is not connected reports the currencies first and then the orders it finds funded.\<close>

definition watcher_connects :: "nat \<Rightarrow> currency_map \<Rightarrow> string list \<Rightarrow> channels \<Rightarrow> channels option" where
  "watcher_connects n cs oids s = (if ch_watching s n = WatcherConnects
     then Some (set_watching n (WatcherSends (SConnectChain cs # map SOrderPaid oids)) s) else None)"

definition watcher_sends :: "nat \<Rightarrow> channels \<Rightarrow> channels option" where
  "watcher_sends n s = (case ch_watching s n of
     WatcherSends [] \<Rightarrow> Some (set_watching n WatcherServes s)
   | WatcherSends (r # rs) \<Rightarrow> map_option (set_watching n (WatcherSends rs)) (put_state r s)
   | _ \<Rightarrow> None)"

text \<open>How a block ends: its reports are to be sent, the connection is given up, or the task fails.\<close>

datatype block_end = BlockReports "string list" | BlockSwitches | BlockFails

text \<open>A request to watch or to reap is acknowledged when it is taken up (\<open>Invoice::from_request\<close>, for the reaping in
  the payout task it spawns); blocks and stops have no caller that waits here.\<close>

definition watcher_takes :: "nat \<Rightarrow> block_end \<Rightarrow> channels \<Rightarrow> channels option" where
  "watcher_takes n e s = (case (ch_watching s n, ch_watcher s n) of
     (WatcherServes, (c, req) # q) \<Rightarrow>
       (let s1 = answer_all (callers [(c, req)]) (s\<lparr>ch_watcher := (ch_watcher s)(n := q)\<rparr>) in
        case req of
          TrackNewBlock number \<Rightarrow> (case e of
            BlockReports oids \<Rightarrow> Some (set_watching n (WatcherSends (map SOrderPaid oids)) s1)
          | BlockSwitches \<Rightarrow> Some (set_watching n WatcherConnects s1)
          | BlockFails \<Rightarrow> Some (end_watcher n s1))
        | TrackShutdown \<Rightarrow> Some (end_watcher n s1)
        | _ \<Rightarrow> Some s1)
   | _ \<Rightarrow> None)"

definition watcher_times_out :: "nat \<Rightarrow> channels \<Rightarrow> channels option" where
  "watcher_times_out n s = (if ch_watching s n = WatcherServes \<and> ch_watcher s n = []
     then Some (set_watching n WatcherConnects s) else None)"

definition watcher_quits :: "nat \<Rightarrow> channels \<Rightarrow> channels option" where
  "watcher_quits n s = (if ch_watching s n = WatcherConnects \<and> ch_cancelled s then Some (end_watcher n s) else None)"

section \<open>The moves\<close>

datatype move =
    ClientSends state_request
  | Cancels
  | HandlerTakes "chain_request option"
  | HandlerFails
  | HandlerCancelled
  | CallSends caller
  | RestoreTakes
  | ManagerTakes
  | ManagerSends
  | ManagerStopEnds
  | BlockArrives nat string
  | Connects nat currency_map "string list"
  | Sends nat
  | Takes nat block_end
  | TimesOut nat
  | Quits nat

fun channel_step :: "manager \<Rightarrow> move \<Rightarrow> channels \<Rightarrow> channels option" where
  "channel_step m (ClientSends r) s = (if from_web r then put_state r s else None)"
| "channel_step m Cancels s = Some (s\<lparr>ch_cancelled := True\<rparr>)"
| "channel_step m (HandlerTakes c) s = handler_takes c s"
| "channel_step m HandlerFails s = handler_fails s"
| "channel_step m HandlerCancelled s = handler_cancelled s"
| "channel_step m (CallSends c) s = call_sends c s"
| "channel_step m RestoreTakes s = restore_takes s"
| "channel_step m ManagerTakes s = manager_takes m s"
| "channel_step m ManagerSends s = manager_sends s"
| "channel_step m ManagerStopEnds s = manager_stop_ends s"
| "channel_step m (BlockArrives n number) s = block_arrives n number s"
| "channel_step m (Connects n cs oids) s = watcher_connects n cs oids s"
| "channel_step m (Sends n) s = watcher_sends n s"
| "channel_step m (Takes n e) s = watcher_takes n e s"
| "channel_step m (TimesOut n) s = watcher_times_out n s"
| "channel_step m (Quits n) s = watcher_quits n s"

fun channel_run :: "manager \<Rightarrow> move list \<Rightarrow> channels \<Rightarrow> channels option" where
  "channel_run m [] s = Some s"
| "channel_run m (mv # mvs) s = (case channel_step m mv s of None \<Rightarrow> None | Some s' \<Rightarrow> channel_run m mvs s')"

lemma channel_run_append:
  "channel_run m (xs @ ys) s = (case channel_run m xs s of None \<Rightarrow> None | Some s' \<Rightarrow> channel_run m ys s')"
  by (induction xs arbitrary: s) (auto split: option.split)

end
