(* ===== verification/Channel_Properties.thy ===== *)
theory Channel_Properties
  imports Channels
begin

text \<open>
  Where the request of a waiting task is, that it is in one place only, and what follows from it: what a waiting
  state handler waits for, that it serves nobody meanwhile, and how it comes to wait for good.
\<close>

section \<open>Replies\<close>

lemma answer_fields [simp]:
  "ch_manager (answer c s) = ch_manager s" "ch_routing (answer c s) = ch_routing s"
  "ch_watcher (answer c s) = ch_watcher s" "ch_watching (answer c s) = ch_watching s"
  "ch_cancelled (answer c s) = ch_cancelled s"
  by (cases c; auto simp: answer_handler_def split: call_phase.split chain_request.split)+

lemma answer_all_fields [simp]:
  "ch_manager (answer_all cs s) = ch_manager s" "ch_routing (answer_all cs s) = ch_routing s"
  "ch_watcher (answer_all cs s) = ch_watcher s" "ch_watching (answer_all cs s) = ch_watching s"
  "ch_cancelled (answer_all cs s) = ch_cancelled s"
  by (induction cs arbitrary: s) auto

fun awaiting :: "call_phase \<Rightarrow> bool" where
  "awaiting (AwaitReply req) = True"
| "awaiting p = False"

definition awaits :: "caller \<Rightarrow> channels \<Rightarrow> bool" where
  "awaits c s \<longleftrightarrow> awaiting (phase_of c s)"

lemma phase_other [simp]: "c \<noteq> c' \<Longrightarrow> phase_of c (answer c' s) = phase_of c s"
  by (cases c; cases c') (auto simp: answer_handler_def split: call_phase.split chain_request.split)

lemma awaits_answer [simp]: "awaits c (answer c' s) \<longleftrightarrow> awaits c s \<and> c \<noteq> c'"
proof (cases "c = c'")
  case True
  then show ?thesis
    by (cases c) (auto simp: awaits_def answer_handler_def split: call_phase.split chain_request.split)
qed (simp add: awaits_def)

lemma awaits_answer_all [simp]: "awaits c (answer_all cs s) \<longleftrightarrow> awaits c s \<and> c \<notin> set cs"
  by (induction cs arbitrary: s) auto

lemma phase_answer_all: "c \<notin> set cs \<Longrightarrow> phase_of c (answer_all cs s) = phase_of c s"
  by (induction cs arbitrary: s) auto

lemma state_answer: "c \<noteq> StateHandler \<Longrightarrow> ch_state (answer c s) = ch_state s"
  by (cases c) (auto split: call_phase.split)

lemma state_answer_all: "StateHandler \<notin> set cs \<Longrightarrow> ch_state (answer_all cs s) = ch_state s"
  by (induction cs arbitrary: s) (auto simp: state_answer)

lemma callers_append [simp]: "callers (xs @ ys) = callers xs @ callers ys"
  by (induction xs rule: callers.induct) auto

section \<open>Where a request is\<close>

text \<open>How often a caller's request is with the manager (\<open>None\<close>) or in the channel of a watcher.\<close>

fun in_hand :: "caller \<Rightarrow> manager_phase \<Rightarrow> nat" where
  "in_hand c (ManagerForwards n x) = of_bool (fst x = c)"
| "in_hand c (ManagerStops c' ns) = of_bool (c' = c)"
| "in_hand c (ManagerAwaitsStop c' ns) = of_bool (c' = c)"
| "in_hand c ManagerReceives = 0"
| "in_hand c ManagerEnded = 0"

fun held :: "channels \<Rightarrow> caller \<Rightarrow> nat option \<Rightarrow> nat" where
  "held s c None = count_list (map fst (ch_manager s)) c + in_hand c (ch_routing s)"
| "held s c (Some n) = count_list (callers (ch_watcher s n)) c"

definition at_place :: "nat option \<Rightarrow> nat option \<Rightarrow> nat" where
  "at_place p p' = of_bool (p' = p)"

definition one_request :: "caller \<Rightarrow> channels \<Rightarrow> bool" where
  "one_request c s \<longleftrightarrow> (if awaits c s then \<exists>p. held s c = at_place p else held s c = (\<lambda>_. 0))"

definition channels_inv :: "channels \<Rightarrow> bool" where
  "channels_inv s \<longleftrightarrow> (\<forall>c. one_request c s) \<and>
     (\<forall>n. ch_watching s n = WatcherEnded \<longrightarrow> ch_watcher s n = []) \<and>
     (ch_routing s = ManagerEnded \<longrightarrow> ch_manager s = [])"

lemma channels_inv_start: "channels_inv (channels_start saved)"
proof -
  have "held (channels_start saved) c p = 0" for c p by (cases p) (simp_all add: channels_start_def)
  moreover have "\<not> awaits c (channels_start saved)" for c by (cases c) (simp_all add: awaits_def channels_start_def)
  ultimately show ?thesis by (auto simp: channels_inv_def one_request_def channels_start_def)
qed

text \<open>A request is somewhere exactly when its caller waits.\<close>

lemma one_request_held: "one_request c s \<Longrightarrow> held s c p \<noteq> 0 \<Longrightarrow> held s c = at_place p \<and> awaits c s"
  by (auto simp: one_request_def at_place_def split: if_splits)

text \<open>What a step may do to one request: nothing, send it, move it, or answer it.\<close>

lemma one_request_same: "one_request c s \<Longrightarrow> awaits c s' = awaits c s \<Longrightarrow> held s' c = held s c \<Longrightarrow> one_request c s'"
  by (simp add: one_request_def)

lemma held_answer [simp]: "held (answer c' s) c = held s c"
  by (rule ext, rename_tac p, case_tac p) simp_all

lemma held_answer_all [simp]: "held (answer_all cs s) c = held s c"
  by (induction cs arbitrary: s) auto

lemma one_request_put:
  assumes "one_request c s" "\<not> awaits c s" "awaits c s'"
    and "\<And>p'. held s' c p' = held s c p' + at_place p p'"
  shows "one_request c s'"
proof -
  from assms have "held s' c = at_place p" by (auto simp: one_request_def)
  with assms(3) show ?thesis by (auto simp: one_request_def)
qed

lemma one_request_move:
  assumes one: "one_request c s" and "awaits c s' = awaits c s"
    and held: "\<And>p'. held s' c p' + of_bool (p' = p) * k = held s c p' + of_bool (p' = q) * k"
  shows "one_request c s'"
proof (cases "k = 0 \<or> p = q")
  case True
  with held have "held s' c = held s c" by (intro ext) (metis add_right_cancel mult_0_right)
  with one assms(2) show ?thesis by (rule one_request_same)
next
  case False
  with held [of p] have "held s c p \<noteq> 0" by auto
  from one_request_held [OF one this] have at: "held s c = at_place p" "awaits c s" by auto
  with held [of p] False have "k = 1" by (auto simp: at_place_def)
  have "held s' c p' = at_place q p'" for p'
    using held [of p'] at \<open>k = 1\<close> False by (cases "p' = p") (auto simp: at_place_def)
  then have "held s' c = at_place q" by (rule ext)
  with at assms(2) show ?thesis by (auto simp: one_request_def)
qed

lemma one_request_drop:
  assumes one: "one_request c s" and "awaits c s' = awaits c s"
    and held: "\<And>p'. held s' c p' + of_bool (p' = p) * count_list cs c = held s c p'"
  shows "one_request c (answer_all cs s')"
proof (cases "c \<in> set cs")
  case False
  then have "count_list cs c = 0" by (simp add: count_list_0_iff)
  with held have "held s' c = held s c" by (intro ext) (metis add_0_right mult_0_right)
  with one assms(2) False show ?thesis by (simp add: one_request_def)
next
  case True
  then have "count_list cs c \<noteq> 0" by (simp add: count_list_0_iff)
  with held [of p] have "held s c p \<noteq> 0" by simp
  from one_request_held [OF one this] have at: "held s c = at_place p" by simp
  have "held s' c p' = 0" for p'
    using held [of p'] at \<open>count_list cs c \<noteq> 0\<close> by (cases "p' = p") (auto simp: at_place_def)
  with True show ?thesis by (simp add: one_request_def fun_eq_iff)
qed

section \<open>Every step keeps the invariant\<close>

lemma channels_inv_same:
  assumes "channels_inv s" and "\<And>c. awaits c s' = awaits c s" and "\<And>c p. held s' c p = held s c p"
    and "\<And>n. ch_watching s' n = WatcherEnded \<Longrightarrow> ch_watcher s' n = []"
    and "ch_routing s' = ManagerEnded \<Longrightarrow> ch_manager s' = []"
  shows "channels_inv s'"
proof -
  have "one_request c s'" for c
    by (rule one_request_same [of c s]) (use assms in \<open>auto simp: channels_inv_def\<close>)
  with assms(4,5) show ?thesis by (simp add: channels_inv_def)
qed

lemma awaits_caller: "awaits c s = (case c of StateHandler \<Rightarrow> awaiting (ch_handler s) | RestoreTask \<Rightarrow> awaiting (ch_restore s))"
  by (cases c) (simp_all add: awaits_def)

lemma held_place: "held s c p = (case p of
    None \<Rightarrow> count_list (map fst (ch_manager s)) c + in_hand c (ch_routing s)
  | Some n \<Rightarrow> count_list (callers (ch_watcher s n)) c)"
  by (cases p) simp_all

lemmas step_defs = put_state_def handler_takes_def handler_fails_def handler_cancelled_def restore_takes_def
  manager_stop_ends_def block_arrives_def put_watcher_def watcher_connects_def watcher_sends_def
  set_watching_def watcher_times_out_def

text \<open>The steps that leave every request where it is.\<close>

lemma quiet_step_inv:
  assumes inv: "channels_inv s" and step: "channel_step m mv s = Some s'"
    and quiet: "case mv of CallSends c \<Rightarrow> False | ManagerTakes \<Rightarrow> False | ManagerSends \<Rightarrow> False | Takes n e \<Rightarrow> False
      | Quits n \<Rightarrow> False | _ \<Rightarrow> True"
  shows "channels_inv s'"
proof (rule channels_inv_same [OF inv])
  show "awaits c s' = awaits c s" for c
    using step quiet by (cases mv; cases c)
      (auto simp: awaits_caller step_defs split: if_splits call_phase.splits list.splits option.splits
        manager_phase.splits watcher_phase.splits)
  show "held s' c p = held s c p" for c p
    using step quiet by (cases mv)
      (auto simp: held_place step_defs split: if_splits call_phase.splits list.splits option.splits
        manager_phase.splits watcher_phase.splits)
  show "ch_watcher s' n = []" if "ch_watching s' n = WatcherEnded" for n
    using inv step quiet that by (cases mv)
      (auto simp: channels_inv_def step_defs split: if_splits call_phase.splits list.splits option.splits
        manager_phase.splits watcher_phase.splits)
  show "ch_manager s' = []" if "ch_routing s' = ManagerEnded"
    using inv step quiet that by (cases mv)
      (auto simp: channels_inv_def step_defs split: if_splits call_phase.splits list.splits option.splits
        manager_phase.splits watcher_phase.splits)
qed

text \<open>The steps that send a request on or answer it.\<close>

lemma channels_invI:
  "(\<And>c. one_request c s) \<Longrightarrow> (\<And>n. ch_watching s n = WatcherEnded \<Longrightarrow> ch_watcher s n = []) \<Longrightarrow>
     (ch_routing s = ManagerEnded \<Longrightarrow> ch_manager s = []) \<Longrightarrow> channels_inv s"
  by (simp add: channels_inv_def)

lemma channels_invD:
  assumes "channels_inv s"
  shows "one_request c s" "ch_watching s n = WatcherEnded \<Longrightarrow> ch_watcher s n = []"
    "ch_routing s = ManagerEnded \<Longrightarrow> ch_manager s = []"
  using assms by (auto simp: channels_inv_def)

lemma fields_set_phase [simp]:
  "ch_manager (set_phase c p s) = ch_manager s" "ch_routing (set_phase c p s) = ch_routing s"
  "ch_watcher (set_phase c p s) = ch_watcher s" "ch_watching (set_phase c p s) = ch_watching s"
  "ch_cancelled (set_phase c p s) = ch_cancelled s"
  by (cases c; simp)+

lemma awaits_update [simp]:
  "awaits c (s\<lparr>ch_manager := x\<rparr>) = awaits c s" "awaits c (s\<lparr>ch_routing := r\<rparr>) = awaits c s"
  "awaits c (s\<lparr>ch_watcher := w\<rparr>) = awaits c s" "awaits c (s\<lparr>ch_watching := p\<rparr>) = awaits c s"
  by (cases c; simp add: awaits_def)+

lemma awaits_set_phase [simp]: "awaits c' (set_phase c p s) \<longleftrightarrow> (if c' = c then awaiting p else awaits c' s)"
  by (cases c; cases c') (simp_all add: awaits_def)

lemma call_sends_inv:
  assumes inv: "channels_inv s" and step: "call_sends c s = Some s'"
  shows "channels_inv s'"
proof -
  from step obtain req where put: "phase_of c s = PutCall req" by (auto simp: call_sends_def split: call_phase.splits)
  then have quiet: "\<not> awaits c s" by (simp add: awaits_def)
  show ?thesis
  proof (cases "ch_routing s = ManagerEnded")
    case True
    with step put have s': "s' = answer c (set_phase c (AwaitReply req) s)" by (simp add: call_sends_def)
    show ?thesis
      by (rule channels_inv_same [OF inv]) (use quiet channels_invD [OF inv] in \<open>auto simp: s' held_place split: option.split\<close>)
  next
    case False
    with step put have s': "s' = set_phase c (AwaitReply req) (s\<lparr>ch_manager := ch_manager s @ [(c, req)]\<rparr>)"
      by (simp add: call_sends_def split: if_splits)
    have "one_request c' s'" for c'
    proof (cases "c' = c")
      case True
      show ?thesis
        by (rule one_request_put [of c' s _ None])
          (use channels_invD(1) [OF inv] quiet True in \<open>auto simp: s' held_place at_place_def split: option.split\<close>)
    next
      case other: False
      show ?thesis
        by (rule one_request_same [of c' s])
          (use channels_invD(1) [OF inv] other in \<open>auto simp: s' held_place fun_eq_iff split: option.split\<close>)
    qed
    then show ?thesis by (rule channels_invI) (use channels_invD [OF inv] False in \<open>auto simp: s'\<close>)
  qed
qed

lemma manager_takes_inv:
  assumes inv: "channels_inv s" and step: "manager_takes m s = Some s'"
  shows "channels_inv s'"
proof -
  from step obtain c req ms where q: "ch_routing s = ManagerReceives" "ch_manager s = (c, req) # ms"
    by (auto simp: manager_takes_def split: manager_phase.splits list.splits)
  let ?s1 = "s\<lparr>ch_manager := ms\<rparr>"
  from step q consider
      n fwd where "s' = ?s1\<lparr>ch_routing := ManagerForwards n (c, fwd)\<rparr>"
    | "s' = answer_all [c] ?s1"
    | ns where "s' = ?s1\<lparr>ch_routing := ManagerStops c ns\<rparr>"
    by (auto simp: manager_takes_def Let_def split: manager_action.splits)
  then show ?thesis
  proof cases
    case 1
    show ?thesis
      by (rule channels_inv_same [OF inv])
        (use q channels_invD [OF inv] in \<open>auto simp: 1 held_place split: option.split\<close>)
  next
    case 2
    have "one_request c' s'" for c'
      unfolding 2 by (rule one_request_drop [OF channels_invD(1) [OF inv], where p = None])
        (auto simp: held_place q split: option.split)
    then show ?thesis by (rule channels_invI) (use channels_invD [OF inv] q in \<open>auto simp: 2\<close>)
  next
    case 3
    show ?thesis
      by (rule channels_inv_same [OF inv])
        (use q channels_invD [OF inv] in \<open>auto simp: 3 held_place split: option.split\<close>)
  qed
qed

lemma end_watcher_inv:
  assumes inv: "channels_inv s"
  shows "channels_inv (end_watcher n s)"
proof (rule channels_invI)
  show "one_request c (end_watcher n s)" for c
    unfolding end_watcher_def
    by (rule one_request_drop [OF channels_invD(1) [OF inv], where p = "Some n"])
      (auto simp: held_place split: option.split)
qed (use channels_invD [OF inv] in \<open>auto simp: end_watcher_def split: if_splits\<close>)

lemma channels_inv_set_watching:
  "channels_inv s \<Longrightarrow> p \<noteq> WatcherEnded \<Longrightarrow> channels_inv (set_watching n p s)"
  by (rule channels_inv_same [of s])
    (auto simp: set_watching_def held_place channels_inv_def split: option.split if_splits)

lemma manager_sends_inv:
  assumes inv: "channels_inv s" and step: "manager_sends s = Some s'"
  shows "channels_inv s'"
proof -
  from step consider
      n c fwd where "ch_routing s = ManagerForwards n (c, fwd)" "s' = answer_all [c] (s\<lparr>ch_routing := ManagerReceives\<rparr>)"
    | n c fwd where "ch_routing s = ManagerForwards n (c, fwd)" "ch_watching s n \<noteq> WatcherEnded"
        "s' = put_watcher n (Some c, fwd) (s\<lparr>ch_routing := ManagerReceives\<rparr>)"
    | c where "ch_routing s = ManagerStops c []" "s' = end_manager c s"
    | n c ns where "ch_routing s = ManagerStops c (n # ns)" "s' = s\<lparr>ch_routing := ManagerStops c ns\<rparr>"
    | n c ns where "ch_routing s = ManagerStops c (n # ns)" "ch_watching s n \<noteq> WatcherEnded"
        "s' = put_watcher n (None, TrackShutdown) (s\<lparr>ch_routing := ManagerAwaitsStop c ns\<rparr>)"
    by (auto simp: manager_sends_def split: manager_phase.splits list.splits if_splits)
  then show ?thesis
  proof cases
    case (1 n c fwd)
    have "one_request c' s'" for c'
      unfolding 1(2) by (rule one_request_drop [OF channels_invD(1) [OF inv], where p = None])
        (auto simp: held_place 1(1) split: option.split)
    then show ?thesis by (rule channels_invI) (use channels_invD [OF inv] in \<open>auto simp: 1\<close>)
  next
    case (2 n c fwd)
    have "one_request c' s'" for c'
      by (rule one_request_move [OF channels_invD(1) [OF inv], where p = None and q = "Some n" and k = "of_bool (c' = c)"])
        (auto simp: held_place 2(1,3) put_watcher_def split: option.split)
    then show ?thesis
      by (rule channels_invI) (use channels_invD [OF inv] 2(2) in \<open>auto simp: 2(3) put_watcher_def split: if_splits\<close>)
  next
    case (3 c)
    have "one_request c' s'" for c'
      unfolding 3(2) end_manager_def
      by (rule one_request_drop [OF channels_invD(1) [OF inv], where p = None])
        (auto simp: held_place 3(1) split: option.split)
    then show ?thesis by (rule channels_invI) (use channels_invD [OF inv] in \<open>auto simp: 3 end_manager_def\<close>)
  next
    case (4 n c ns)
    show ?thesis
      by (rule channels_inv_same [OF inv])
        (use channels_invD [OF inv] in \<open>auto simp: 4 held_place split: option.split\<close>)
  next
    case (5 n c ns)
    show ?thesis
      by (rule channels_inv_same [OF inv])
        (use channels_invD [OF inv] 5(2) in
          \<open>auto simp: 5(1,3) put_watcher_def held_place split: option.split if_splits\<close>)
  qed
qed

lemma drop_request_inv:
  assumes inv: "channels_inv s" and q: "ch_watcher s n = (c, req) # q" "ch_watching s n = WatcherServes"
  shows "channels_inv (answer_all (callers [(c, req)]) (s\<lparr>ch_watcher := (ch_watcher s)(n := q)\<rparr>))"
proof (rule channels_invI)
  show "one_request c' (answer_all (callers [(c, req)]) (s\<lparr>ch_watcher := (ch_watcher s)(n := q)\<rparr>))" for c'
    by (rule one_request_drop [OF channels_invD(1) [OF inv], where p = "Some n"])
      (cases c; auto simp: held_place q split: option.split)+
qed (use channels_invD [OF inv] q in \<open>auto split: if_splits\<close>)

lemma watcher_takes_cases:
  assumes "watcher_takes n e s = Some s'"
  obtains c req q p where
    "ch_watching s n = WatcherServes" "ch_watcher s n = (c, req) # q"
    "s' = set_watching n p (answer_all (callers [(c, req)]) (s\<lparr>ch_watcher := (ch_watcher s)(n := q)\<rparr>))"
    "p \<noteq> WatcherEnded"
  | c req q where
    "ch_watching s n = WatcherServes" "ch_watcher s n = (c, req) # q"
    "s' = end_watcher n (answer_all (callers [(c, req)]) (s\<lparr>ch_watcher := (ch_watcher s)(n := q)\<rparr>))"
proof -
  from assms obtain c req q where q: "ch_watching s n = WatcherServes" "ch_watcher s n = (c, req) # q"
    by (auto simp: watcher_takes_def split: watcher_phase.splits list.splits)
  let ?s1 = "answer_all (callers [(c, req)]) (s\<lparr>ch_watcher := (ch_watcher s)(n := q)\<rparr>)"
  have serves: "set_watching n WatcherServes ?s1 = ?s1"
    using q by (simp add: set_watching_def fun_upd_idem)
  have "(\<exists>p. p \<noteq> WatcherEnded \<and> s' = set_watching n p ?s1) \<or> s' = end_watcher n ?s1"
    using assms q serves [symmetric]
    by (cases req; cases e) (auto simp: watcher_takes_def simp del: callers.simps answer_all.simps)
  with that q show ?thesis by blast
qed

lemma watcher_takes_inv:
  assumes inv: "channels_inv s" and step: "watcher_takes n e s = Some s'"
  shows "channels_inv s'"
  using step by (cases rule: watcher_takes_cases)
    (auto intro!: channels_inv_set_watching end_watcher_inv drop_request_inv [OF inv])

theorem channel_step_inv: "channels_inv s \<Longrightarrow> channel_step m mv s = Some s' \<Longrightarrow> channels_inv s'"
proof -
  assume inv: "channels_inv s" and step: "channel_step m mv s = Some s'"
  show ?thesis
  proof (cases "case mv of CallSends c \<Rightarrow> False | ManagerTakes \<Rightarrow> False | ManagerSends \<Rightarrow> False | Takes n e \<Rightarrow> False
      | Quits n \<Rightarrow> False | _ \<Rightarrow> True")
    case True
    with inv step show ?thesis by (rule quiet_step_inv)
  next
    case False
    with step call_sends_inv [OF inv] manager_takes_inv [OF inv] manager_sends_inv [OF inv]
      watcher_takes_inv [OF inv] end_watcher_inv [OF inv] show ?thesis
      by (auto simp: watcher_quits_def split: move.splits if_splits)
  qed
qed

lemma channel_run_inv: "channels_inv s \<Longrightarrow> channel_run m mvs s = Some s' \<Longrightarrow> channels_inv s'"
  by (induction mvs arbitrary: s) (auto split: option.splits intro: channel_step_inv)

section \<open>While the handler waits\<close>

definition waits_at :: "nat \<Rightarrow> channels \<Rightarrow> bool" where
  "waits_at n s \<longleftrightarrow> channels_inv s \<and> held s StateHandler (Some n) \<noteq> 0"

lemma waits_atD:
  assumes "waits_at n s"
  obtains req where "channels_inv s" "ch_handler s = AwaitReply req"
    "StateHandler \<notin> fst ` set (ch_manager s)" "in_hand StateHandler (ch_routing s) = 0"
    "\<And>k. k \<noteq> n \<Longrightarrow> StateHandler \<notin> set (callers (ch_watcher s k))"
proof -
  from assms have inv: "channels_inv s" and "held s StateHandler (Some n) \<noteq> 0" by (simp_all add: waits_at_def)
  from one_request_held [OF channels_invD(1) [OF inv] this(2)]
  have at: "held s StateHandler = at_place (Some n)" and "awaits StateHandler s" by auto
  then obtain req where "ch_handler s = AwaitReply req" by (cases "ch_handler s") (auto simp: awaits_def)
  moreover from at have "held s StateHandler None = 0" by (simp add: at_place_def)
  moreover from at have "held s StateHandler (Some k) = 0" if "k \<noteq> n" for k using that by (simp add: at_place_def)
  ultimately show ?thesis using inv by (intro that [of req]) (auto simp: count_list_0_iff)
qed

lemma handler_answer_all [simp]: "StateHandler \<notin> set cs \<Longrightarrow> ch_handler (answer_all cs s) = ch_handler s"
  using phase_answer_all [of StateHandler cs s] by simp

text \<open>The handler stays as it is, and what is sent to it and to the watcher is added to what is there.\<close>

definition only_grows :: "nat \<Rightarrow> channels \<Rightarrow> channels \<Rightarrow> bool" where
  "only_grows n s s' \<longleftrightarrow> ch_handler s' = ch_handler s \<and> (\<exists>new. ch_state s' = ch_state s @ new) \<and>
     (CHANNEL \<le> length (ch_state s) \<longrightarrow> ch_state s' = ch_state s) \<and> (\<exists>new. ch_watcher s' n = ch_watcher s n @ new)"

lemma only_grows_refl [simp]: "only_grows n s s"
  by (simp add: only_grows_def)

lemma only_grows_trans: "only_grows n s s1 \<Longrightarrow> only_grows n s1 s2 \<Longrightarrow> only_grows n s s2"
  by (auto simp: only_grows_def)

lemma only_grows_answers:
  "StateHandler \<notin> set cs \<Longrightarrow> only_grows n s s' \<Longrightarrow> only_grows n s (answer_all cs s')"
  by (simp add: only_grows_def state_answer_all)

fun takes_from :: "nat \<Rightarrow> move \<Rightarrow> bool" where
  "takes_from n (Takes k e) = (k = n)"
| "takes_from n (Quits k) = (k = n)"
| "takes_from n mv = False"

lemma put_state_grows: "put_state r s = Some s' \<Longrightarrow> only_grows n s s'"
  by (auto simp: put_state_def only_grows_def split: if_splits)

lemma answer_answer_all: "answer c s = answer_all [c] s"
  by simp

lemma waiting_step_grows:
  assumes waits: "waits_at n s" and step: "channel_step m mv s = Some s'" and "\<not> takes_from n mv"
  shows "only_grows n s s'"
  using waits
proof (rule waits_atD)
  fix req
  assume inv: "channels_inv s" and h: "ch_handler s = AwaitReply req"
    and manager: "StateHandler \<notin> fst ` set (ch_manager s)" "in_hand StateHandler (ch_routing s) = 0"
    and others: "\<And>k. k \<noteq> n \<Longrightarrow> StateHandler \<notin> set (callers (ch_watcher s k))"
  have ended: "only_grows n s (end_watcher k s1)"
    if "StateHandler \<notin> set (callers (ch_watcher s1 k))" "only_grows n s s1" "k \<noteq> n" for k s1
    using that unfolding end_watcher_def by (intro only_grows_answers) (auto simp: only_grows_def)
  show ?thesis
  proof (cases mv)
    case (CallSends c)
    with step h show ?thesis
      by (cases c) (auto simp: call_sends_def only_grows_def split: call_phase.splits if_splits)
  next
    case ManagerTakes
    then obtain c req ms where q: "ch_manager s = (c, req) # ms" "c \<noteq> StateHandler"
      using step manager by (auto simp: manager_takes_def split: manager_phase.splits list.splits)
    have "only_grows n s (answer c (s\<lparr>ch_manager := ms\<rparr>))"
      using q unfolding answer_answer_all by (intro only_grows_answers) (auto simp: only_grows_def)
    with step q ManagerTakes show ?thesis
      by (auto simp: manager_takes_def only_grows_def Let_def split: manager_phase.splits manager_action.splits)
  next
    case ManagerSends
    have "only_grows n s (answer c (s\<lparr>ch_routing := ManagerReceives\<rparr>))"
      if "ch_routing s = ManagerForwards k (c, fwd)" for k c fwd
      using that manager unfolding answer_answer_all by (intro only_grows_answers) (auto simp: only_grows_def)
    moreover have "only_grows n s (end_manager c s)" if "ch_routing s = ManagerStops c []" for c
      using that manager unfolding end_manager_def by (intro only_grows_answers) (auto simp: only_grows_def)
    ultimately show ?thesis using step ManagerSends
      by (auto simp: manager_sends_def only_grows_def put_watcher_def split: manager_phase.splits list.splits if_splits)
  next
    case (Takes k e)
    with assms(3) have "k \<noteq> n" by simp
    from step Takes have "watcher_takes k e s = Some s'" by simp
    then show ?thesis
    proof (cases rule: watcher_takes_cases)
      case (1 c req q p)
      with others [OF \<open>k \<noteq> n\<close>] have "StateHandler \<notin> set (callers [(c, req)])" by (cases c) auto
      then have "only_grows n s (answer_all (callers [(c, req)]) (s\<lparr>ch_watcher := (ch_watcher s)(k := q)\<rparr>))"
        using \<open>k \<noteq> n\<close> by (intro only_grows_answers) (auto simp: only_grows_def)
      then show ?thesis by (simp add: 1(3) set_watching_def only_grows_def)
    next
      case (2 c req q)
      with others [OF \<open>k \<noteq> n\<close>] have no: "StateHandler \<notin> set (callers [(c, req)])" "StateHandler \<notin> set (callers q)"
        by (cases c; auto)+
      then have "only_grows n s (answer_all (callers [(c, req)]) (s\<lparr>ch_watcher := (ch_watcher s)(k := q)\<rparr>))"
        using \<open>k \<noteq> n\<close> by (intro only_grows_answers) (auto simp: only_grows_def)
      then show ?thesis unfolding 2(3) by (rule ended [rotated]) (use no \<open>k \<noteq> n\<close> in simp_all)
    qed
  next
    case (Quits k)
    with step assms(3) ended [OF others, of k] show ?thesis
      by (auto simp: watcher_quits_def split: if_splits)
  qed (use step h in \<open>auto simp: step_defs only_grows_def split: if_splits call_phase.splits list.splits option.splits
      manager_phase.splits watcher_phase.splits\<close>)
qed

lemma waiting_step:
  assumes "waits_at n s" and "channel_step m mv s = Some s'" and "\<not> takes_from n mv"
  shows "waits_at n s' \<and> only_grows n s s'"
  using waiting_step_grows [OF assms] assms(1) channel_step_inv [OF _ assms(2)]
  by (auto simp: waits_at_def only_grows_def)

lemma waiting_run:
  assumes "waits_at n s" and "channel_run m mvs s = Some s'" and "\<not> list_ex (takes_from n) mvs"
  shows "waits_at n s' \<and> only_grows n s s'"
  using assms
proof (induction mvs arbitrary: s)
  case (Cons mv mvs)
  then obtain s1 where step: "channel_step m mv s = Some s1" and run: "channel_run m mvs s1 = Some s'"
    by (auto split: option.splits)
  with waiting_step [OF Cons.prems(1) step] Cons show ?case by (auto intro: only_grows_trans)
qed simp

section \<open>What a waiting handler waits for\<close>

text \<open>The watcher a step is held up by: the one whose channel holds the handler's request, or the one in whose full
  channel the manager waits for room while it has the request or it lies in its own channel.\<close>

definition held_up_by :: "channels \<Rightarrow> nat \<Rightarrow> bool" where
  "held_up_by s n \<longleftrightarrow> ch_watching s n \<noteq> WatcherEnded \<and>
     (StateHandler \<in> set (callers (ch_watcher s n)) \<or> \<not> room_at n s \<and> (case ch_routing s of
        ManagerForwards k x \<Rightarrow> k = n | ManagerStops c (k # ks) \<Rightarrow> k = n | _ \<Rightarrow> False))"

lemma manager_stuck:
  assumes "manager_takes m s = None" "manager_sends s = None" "manager_stop_ends s = None"
    and "ch_routing s = ManagerReceives \<longrightarrow> ch_manager s \<noteq> []" "ch_routing s \<noteq> ManagerEnded"
  shows "\<exists>n. ch_watching s n \<noteq> WatcherEnded \<and> \<not> room_at n s \<and> (case ch_routing s of
        ManagerForwards k x \<Rightarrow> k = n | ManagerStops c (k # ks) \<Rightarrow> k = n | _ \<Rightarrow> False)"
  using assms
  by (auto simp: manager_takes_def manager_sends_def manager_stop_ends_def Let_def
      split: manager_phase.splits list.splits manager_action.splits if_splits prod.splits)

lemma handler_held_up:
  assumes inv: "channels_inv s" and "ch_handler s = AwaitReply req"
    and "manager_takes m s = None" "manager_sends s = None" "manager_stop_ends s = None"
  shows "\<exists>n. held_up_by s n"
proof -
  have "awaits StateHandler s" using assms(2) by (simp add: awaits_def)
  with channels_invD(1) [OF inv, of StateHandler] obtain p where at: "held s StateHandler = at_place p"
    by (auto simp: one_request_def)
  show ?thesis
  proof (cases p)
    case (Some n)
    with at have "held s StateHandler (Some n) = 1" by (simp add: at_place_def)
    then have in_q: "StateHandler \<in> set (callers (ch_watcher s n))" by (auto simp: count_list_0_iff intro: ccontr)
    then have "ch_watcher s n \<noteq> []" by auto
    with channels_invD(2) [OF inv] have "ch_watching s n \<noteq> WatcherEnded" by blast
    with in_q show ?thesis by (auto simp: held_up_by_def)
  next
    case None
    with at have "held s StateHandler None = 1" by (simp add: at_place_def)
    then have "ch_routing s \<noteq> ManagerEnded" "ch_routing s = ManagerReceives \<longrightarrow> ch_manager s \<noteq> []"
      using channels_invD(3) [OF inv] by auto
    with manager_stuck [OF assms(3-5)] show ?thesis by (auto simp: held_up_by_def)
  qed
qed

text \<open>A watcher that holds the others up can go on unless it is connecting or a full state channel stops it.\<close>

lemma held_up_queue: "held_up_by s n \<Longrightarrow> ch_watcher s n \<noteq> []"
  by (auto simp: held_up_by_def room_at_def CHANNEL_def)

lemma watcher_can_go_on:
  assumes "held_up_by s n" "ch_handler s \<noteq> CallerEnded"
  shows "ch_watching s n = WatcherConnects \<or> watcher_takes n (BlockReports []) s \<noteq> None \<or> watcher_sends n s \<noteq> None \<or>
    (\<exists>r rs. ch_watching s n = WatcherSends (r # rs)) \<and> CHANNEL \<le> length (ch_state s)"
proof (cases "ch_watching s n")
  case WatcherServes
  moreover obtain c req q where "ch_watcher s n = (c, req) # q"
    using held_up_queue [OF assms(1)] by (cases "ch_watcher s n") auto
  ultimately show ?thesis by (cases req) (auto simp: watcher_takes_def)
next
  case (WatcherSends rs)
  with assms(2) show ?thesis by (cases rs) (auto simp: watcher_sends_def put_state_def)
qed (use assms in \<open>auto simp: held_up_by_def\<close>)

section \<open>Waiting for each other\<close>

text \<open>The handler's request is in the channel of a watcher that in turn waits for room in the handler's channel.\<close>

definition wedged :: "nat \<Rightarrow> channels \<Rightarrow> bool" where
  "wedged n s \<longleftrightarrow> StateHandler \<in> set (callers (ch_watcher s n)) \<and> CHANNEL \<le> length (ch_state s) \<and>
     (case ch_watching s n of WatcherSends (r # rs) \<Rightarrow> True | _ \<Rightarrow> False)"

lemma waits_atI: "channels_inv s \<Longrightarrow> StateHandler \<in> set (callers (ch_watcher s n)) \<Longrightarrow> waits_at n s"
  by (simp add: waits_at_def count_list_0_iff)

lemma wedged_step:
  assumes inv: "channels_inv s" and "wedged n s" and step: "channel_step m mv s = Some s'"
  shows "wedged n s' \<and> ch_state s' = ch_state s \<and> ch_handler s' = ch_handler s"
proof -
  from assms(2) obtain r rs where w: "ch_watching s n = WatcherSends (r # rs)" "CHANNEL \<le> length (ch_state s)"
    by (auto simp: wedged_def split: watcher_phase.splits list.splits)
  from inv assms(2) have waits: "waits_at n s" by (simp add: waits_atI wedged_def)
  then obtain req where h: "ch_handler s = AwaitReply req" by (rule waits_atD)
  from step w have no: "\<not> takes_from n mv"
    by (cases mv) (auto simp: watcher_takes_def watcher_quits_def)
  from waiting_step_grows [OF waits step this] have grows: "only_grows n s s'" .
  have full: "put_state r' s = None" for r' using w h by (simp add: put_state_def)
  have "ch_watching s' n = ch_watching s n"
    using step no w full by (cases mv)
      (auto simp: step_defs full call_sends_def manager_takes_def manager_sends_def end_manager_def Let_def
        put_watcher_def watcher_quits_def end_watcher_def simp del: answer_all.simps
        elim!: watcher_takes_cases split: if_splits call_phase.splits list.splits option.splits
        manager_phase.splits manager_action.splits watcher_phase.splits)
  with grows w(2) assms(2) show ?thesis by (auto simp: wedged_def only_grows_def)
qed

lemma wedged_run:
  "channels_inv s \<Longrightarrow> wedged n s \<Longrightarrow> channel_run m mvs s = Some s' \<Longrightarrow>
     wedged n s' \<and> ch_state s' = ch_state s \<and> ch_handler s' = ch_handler s"
proof (induction mvs arbitrary: s)
  case (Cons mv mvs)
  then obtain s1 where step: "channel_step m mv s = Some s1" and run: "channel_run m mvs s1 = Some s'"
    by (auto split: option.splits)
  from wedged_step [OF Cons.prems(1,2) step] Cons.IH [OF channel_step_inv [OF Cons.prems(1) step] _ run]
  show ?case by auto
qed simp

text \<open>A watcher's reports fill the channel, as long as there is room.\<close>

lemma sends_fill:
  "ch_watching s n = WatcherSends (rs @ rest) \<Longrightarrow> ch_handler s \<noteq> CallerEnded \<Longrightarrow>
     length (ch_state s) + length rs \<le> CHANNEL \<Longrightarrow>
     channel_run m (replicate (length rs) (Sends n)) s =
       Some (s\<lparr>ch_state := ch_state s @ rs, ch_watching := (ch_watching s)(n := WatcherSends rest)\<rparr>)"
proof (induction rs arbitrary: s)
  case (Cons r rs)
  let ?s1 = "s\<lparr>ch_state := ch_state s @ [r], ch_watching := (ch_watching s)(n := WatcherSends (rs @ rest))\<rparr>"
  from Cons.prems have "channel_step m (Sends n) s = Some ?s1"
    by (simp add: watcher_sends_def put_state_def set_watching_def)
  moreover have "channel_run m (replicate (length rs) (Sends n)) ?s1 =
      Some (?s1\<lparr>ch_state := ch_state ?s1 @ rs, ch_watching := (ch_watching ?s1)(n := WatcherSends rest)\<rparr>)"
    by (rule Cons.IH) (use Cons.prems in simp_all)
  ultimately show ?case by (simp add: fun_upd_def cong: if_cong)
qed (simp add: fun_upd_idem)

text \<open>The first report is in service, and the watcher has the others still to send.\<close>

definition wedging_moves :: "nat \<Rightarrow> watch_account \<Rightarrow> string list \<Rightarrow> move list" where
  "wedging_moves n a oids =
     [Connects n [] [], Sends n, Sends n, HandlerTakes None, BlockArrives n [], Takes n (BlockReports oids),
      Sends n, HandlerTakes (Some (ManageReap a)), CallSends StateHandler, ManagerTakes, ManagerSends] @
     replicate CHANNEL (Sends n)"

lemma payments_wedge:
  assumes "route m (inv_currency (watch_invoice a)) = Inr n"
    and "oids = inv_id (watch_invoice a) # oids'" and "CHANNEL + 2 \<le> length oids"
  shows "\<exists>s. channel_run m (wedging_moves n a oids) (channels_start []) = Some s \<and> wedged n s"
proof -
  let ?pre = "[Connects n [] [], Sends n, Sends n, HandlerTakes None, BlockArrives n [], Takes n (BlockReports oids),
    Sends n, HandlerTakes (Some (ManageReap a)), CallSends StateHandler, ManagerTakes, ManagerSends]"
  let ?s1 = "(channels_start [])\<lparr>ch_handler := AwaitReply (ManageReap a),
    ch_watcher := (\<lambda>_. [])(n := [(Some StateHandler, TrackReap a)]),
    ch_watching := (\<lambda>_. WatcherConnects)(n := WatcherSends (map SOrderPaid oids'))\<rparr>"
  have pre: "channel_run m ?pre (channels_start []) = Some ?s1"
    using assms(1,2) by (simp add: channels_start_def step_defs CHANNEL_def room_at_def watcher_takes_def
        call_sends_def manager_takes_def manager_sends_def)
  let ?rs = "take CHANNEL (map SOrderPaid oids')"
  let ?rest = "drop CHANNEL (map SOrderPaid oids')"
  have len: "length ?rs = CHANNEL" "?rest \<noteq> []" using assms(2,3) by auto
  let ?s2 = "?s1\<lparr>ch_state := ?rs, ch_watching := (ch_watching ?s1)(n := WatcherSends ?rest)\<rparr>"
  have "channel_run m (replicate CHANNEL (Sends n)) ?s1 = Some ?s2"
    using sends_fill [of ?s1 n ?rs ?rest m] len(1) by (simp add: channels_start_def)
  then have "channel_run m (wedging_moves n a oids) (channels_start []) = Some ?s2"
    unfolding wedging_moves_def channel_run_append pre by simp
  moreover have "wedged n ?s2" using len by (auto simp: wedged_def split: list.split)
  ultimately show ?thesis by blast
qed

text \<open>A watcher that does not get connected, in a daemon that is not cancelled.\<close>

fun comes_back :: "nat \<Rightarrow> move \<Rightarrow> bool" where
  "comes_back n (Connects k cs oids) = (k = n)"
| "comes_back n Cancels = True"
| "comes_back n mv = False"

lemma unconnected_step:
  assumes "ch_watching s n = WatcherConnects" "\<not> ch_cancelled s" "channel_step m mv s = Some s'" "\<not> comes_back n mv"
  shows "ch_watching s' n = WatcherConnects \<and> \<not> ch_cancelled s' \<and> \<not> takes_from n mv"
proof -
  have "\<not> takes_from n mv" using assms(1-3) by (cases mv) (auto simp: watcher_takes_def watcher_quits_def)
  moreover have "ch_watching s' n = WatcherConnects \<and> \<not> ch_cancelled s'"
    using assms calculation by (cases mv)
      (auto simp: step_defs call_sends_def manager_takes_def manager_sends_def end_manager_def Let_def
        watcher_quits_def end_watcher_def simp del: answer_all.simps
        elim!: watcher_takes_cases split: if_splits call_phase.splits list.splits option.splits
        manager_phase.splits manager_action.splits watcher_phase.splits)
  ultimately show ?thesis by blast
qed

lemma unconnected_run:
  "ch_watching s n = WatcherConnects \<Longrightarrow> \<not> ch_cancelled s \<Longrightarrow> channel_run m mvs s = Some s' \<Longrightarrow>
     \<not> list_ex (comes_back n) mvs \<Longrightarrow>
     ch_watching s' n = WatcherConnects \<and> \<not> list_ex (takes_from n) mvs"
proof (induction mvs arbitrary: s)
  case (Cons mv mvs)
  then obtain s1 where "channel_step m mv s = Some s1" and run: "channel_run m mvs s1 = Some s'"
    by (auto split: option.splits)
  with unconnected_step [OF Cons.prems(1,2) this(1)] Cons.prems(4) have
    "ch_watching s1 n = WatcherConnects" "\<not> ch_cancelled s1" "\<not> takes_from n mv" by auto
  with Cons.IH [OF this(1,2) run] Cons.prems(4) show ?case by simp
qed simp

section \<open>Properties\<close>

text \<open>C18. A daemon that waits for itself: with the state handler's request in the channel of a watcher that waits for
  room in the handler's full channel, nothing that any task, client or chain does, a cancellation included, ever
  ends the wait of either; the handler answers no request any more and never comes to its shutdown.\<close>

theorem wedged_for_good:
  assumes "channel_run m mvs (channels_start saved) = Some s" and "wedged n s"
    and "channel_run m mvs' s = Some s'"
  shows "wedged n s' \<and> ch_state s' = ch_state s \<and> ch_handler s' = ch_handler s \<and>
    ch_handler s' \<notin> {NoCall, CallerEnded}"
proof -
  from assms(1) have inv: "channels_inv s" by (rule channel_run_inv [OF channels_inv_start])
  from assms(2) have "waits_at n s" by (simp add: waits_atI inv wedged_def)
  then show ?thesis using wedged_run [OF inv assms(2,3)] by (elim waits_atD) simp
qed

definition toy_call :: watch_account where
  "toy_call = WatchAccount (toy_invoice ''a'' [1] 7 50)"

definition toy_route :: manager where
  "toy_route = \<lparr>watch_chain = [(''c'', 0)], currency_chain = [(inv_currency (watch_invoice toy_call), ''c'')]\<rparr>"

lemma toy_route_ok: "route toy_route (inv_currency (watch_invoice toy_call)) = Inr 0"
  by (simp add: toy_route_def route_def)

lemma toy_call_ids: "inv_id (watch_invoice toy_call) = ''a''"
  by (simp add: toy_call_def toy_invoice_def)

theorem wedged_for_good_witness:
  "\<exists>s. channel_run toy_route (wedging_moves 0 toy_call (''a'' # replicate 1025 ''b'') @ [Cancels]) (channels_start [])
      = Some s \<and> wedged 0 s \<and> ch_handler s \<noteq> CallerEnded"
proof -
  from payments_wedge [OF toy_route_ok, of "''a'' # replicate 1025 ''b''" "replicate 1025 ''b''"] obtain s where
    run: "channel_run toy_route (wedging_moves 0 toy_call (''a'' # replicate 1025 ''b'')) (channels_start []) = Some s"
      "wedged 0 s" by (auto simp: toy_call_ids CHANNEL_def)
  have cancel: "channel_run toy_route [Cancels] s = Some (s\<lparr>ch_cancelled := True\<rparr>)" by simp
  with run(1) have "channel_run toy_route (wedging_moves 0 toy_call (''a'' # replicate 1025 ''b'') @ [Cancels])
      (channels_start []) = Some (s\<lparr>ch_cancelled := True\<rparr>)" by (simp only: channel_run_append option.case)
  with wedged_for_good [OF run cancel] show ?thesis by blast
qed



text \<open>C20. One chain that cannot be reached stops the service of all: once the handler's request to watch an order lies
  with a watcher that is not connected, the handler answers nobody, whatever is sent to it, until that watcher gets
  a connection. A cancellation frees it: the watcher quits and drops the request.\<close>

theorem unreachable_chain_stops_service:
  assumes "channel_run m mvs (channels_start saved) = Some s"
    and "StateHandler \<in> set (callers (ch_watcher s n))" and "ch_watching s n = WatcherConnects" "\<not> ch_cancelled s"
    and "channel_run m mvs' s = Some s'" and "\<not> list_ex (comes_back n) mvs'"
  shows "ch_handler s' = ch_handler s \<and> awaits StateHandler s' \<and> (\<exists>new. ch_state s' = ch_state s @ new) \<and>
    (\<exists>s''. channel_run m [Cancels, Quits n] s' = Some s'' \<and> \<not> awaits StateHandler s'')"
proof -
  from assms(1) have inv: "channels_inv s" by (rule channel_run_inv [OF channels_inv_start])
  from unconnected_run [OF assms(3-6)] have w: "ch_watching s' n = WatcherConnects" "\<not> list_ex (takes_from n) mvs'"
    by auto
  from waiting_run [OF waits_atI [OF inv assms(2)] assms(5) w(2)] have
    waits: "waits_at n s'" and grows: "only_grows n s s'" by auto
  from waits have "awaits StateHandler s'" by (rule waits_atD) (simp add: awaits_def)
  moreover from grows assms(2) have "StateHandler \<in> set (callers (ch_watcher s' n))"
    by (auto simp: only_grows_def)
  ultimately show ?thesis using grows w(1) by (auto simp: only_grows_def watcher_quits_def end_watcher_def)
qed

theorem unreachable_chain_stops_service_witness:
  "\<exists>s. channel_run toy_route [Connects 0 [] [], Sends 0, Sends 0, TimesOut 0, HandlerTakes None,
      ClientSends (SCreateInvoice (sample_query ''a'')), HandlerTakes (Some (ManageWatch toy_call)),
      CallSends StateHandler, ManagerTakes, ManagerSends] (channels_start []) = Some s \<and>
    (\<exists>s'. channel_run toy_route [ClientSends SServerStatus] s = Some s' \<and> awaits StateHandler s')"
proof -
  let ?s = "(channels_start [])\<lparr>ch_handler := AwaitReply (ManageWatch toy_call),
    ch_watcher := (\<lambda>_. [])(0 := [(Some StateHandler, TrackWatch toy_call)])\<rparr>"
  have run: "channel_run toy_route [Connects 0 [] [], Sends 0, Sends 0, TimesOut 0, HandlerTakes None,
      ClientSends (SCreateInvoice (sample_query ''a'')), HandlerTakes (Some (ManageWatch toy_call)),
      CallSends StateHandler, ManagerTakes, ManagerSends] (channels_start []) = Some ?s"
    using toy_route_ok by (simp add: channels_start_def step_defs CHANNEL_def room_at_def toy_call_ids sample_query_def
        call_sends_def manager_takes_def manager_sends_def fun_upd_idem)
  have step: "channel_run toy_route [ClientSends SServerStatus] ?s = Some (?s\<lparr>ch_state := [SServerStatus]\<rparr>)"
    by (simp add: put_state_def channels_start_def CHANNEL_def)
  have "StateHandler \<in> set (callers (ch_watcher ?s 0))" "ch_watching ?s 0 = WatcherConnects" "\<not> ch_cancelled ?s"
    "\<not> list_ex (comes_back 0) [ClientSends SServerStatus]" by (simp_all add: channels_start_def)
  with unreachable_chain_stops_service [OF run this(1-3) step] run step show ?thesis by blast
qed

text \<open>C21. What a waiting handler waits for: whenever it waits for a reply, the chain manager can go on, or a watcher
  is to blame that holds its request or keeps the manager waiting for room, and that watcher can go on, is
  connecting, or waits for room in the handler's full channel.\<close>

theorem handler_waits_for:
  assumes "channel_run m mvs (channels_start saved) = Some s" and "ch_handler s = AwaitReply req"
  shows "list_ex (\<lambda>mv. channel_step m mv s \<noteq> None) [ManagerTakes, ManagerSends, ManagerStopEnds] \<or>
    (\<exists>n. held_up_by s n \<and>
      (list_ex (\<lambda>mv. channel_step m mv s \<noteq> None) [Takes n (BlockReports []), Sends n] \<or>
       ch_watching s n = WatcherConnects \<or>
       (\<exists>r rs. ch_watching s n = WatcherSends (r # rs)) \<and> CHANNEL \<le> length (ch_state s)))"
proof (cases "manager_takes m s = None \<and> manager_sends s = None \<and> manager_stop_ends s = None")
  case True
  from assms(1) have inv: "channels_inv s" by (rule channel_run_inv [OF channels_inv_start])
  from handler_held_up [OF inv assms(2)] True obtain n where n: "held_up_by s n" by blast
  from watcher_can_go_on [OF this] assms(2) n show ?thesis by auto
qed auto

theorem handler_waits_for_witness:
  "\<exists>s. channel_run toy_route [Connects 0 [] [''a''], Sends 0, HandlerTakes None, Sends 0,
      HandlerTakes (Some (ManageReap toy_call)), CallSends StateHandler] (channels_start []) = Some s \<and>
    list_ex (\<lambda>mv. channel_step toy_route mv s \<noteq> None) [ManagerTakes, ManagerSends, ManagerStopEnds]"
proof -
  let ?s = "(channels_start [])\<lparr>ch_handler := AwaitReply (ManageReap toy_call),
    ch_manager := [(StateHandler, ManageReap toy_call)], ch_watching := (\<lambda>_. WatcherConnects)(0 := WatcherSends [])\<rparr>"
  have run: "channel_run toy_route [Connects 0 [] [''a''], Sends 0, HandlerTakes None, Sends 0,
      HandlerTakes (Some (ManageReap toy_call)), CallSends StateHandler] (channels_start []) = Some ?s"
    by (simp add: channels_start_def step_defs CHANNEL_def toy_call_ids call_sends_def)
  have "\<not> held_up_by ?s n" for n by (simp add: held_up_by_def room_at_def channels_start_def CHANNEL_def)
  with handler_waits_for [OF run] run show ?thesis by auto
qed

end
