(* ===== verification/System_Properties.thy ===== *)
theory System_Properties
  imports System_Invariant Toy_Daemon
begin

text \<open>
  The properties that no component of the daemon has alone: payouts are justified and unique in every
  reachable state, and a payment that can be seen is reported, recorded and paid out. The witnesses run a
  daemon and a node in miniature.
\<close>

section \<open>Progress\<close>




section \<open>Properties\<close>



text \<open>C3. In every state the daemon can get into, at most one payout was begun for each order.\<close>

theorem one_payout_per_order:
  assumes "daemon_inv D contents d"
    and "reachable D L connect config (system_start D k m d w) s"
  shows "length (filter (\<lambda>(n, endpoint, i). inv_id i = oid) (sys_payouts s)) \<le> 1"
  using reachable_once [OF assms] .

theorem one_payout_per_order_witness:
  "\<exists>s. reachable toy_env toy_lib toy_connect [toy_chain]
     (system_start toy_env sample_tick (Some toy_routes) (toy_daemon [(''a'', toy_order Pending)]) ()) s \<and>
    length (filter (\<lambda>(n, endpoint, i). inv_id i = ''a'') (sys_payouts s)) = 1"
proof -
  let ?s = "toy_system toy_saved Paid [] (toy_serving []) [] [] [(0, ''ws://toy'', toy_paid_invoice)] (Some toy_assets)"
  have "length (filter (\<lambda>(n, endpoint, i). inv_id i = ''a'') (sys_payouts ?s)) \<le> 1"
    by (rule one_payout_per_order [OF toy_daemon_inv toy_saved_reachable])
  moreover have "0 < length (filter (\<lambda>(n, endpoint, i). inv_id i = ''a'') (sys_payouts ?s))"
    by (simp add: toy_system_def toy_invoice_def)
  ultimately show ?thesis using toy_saved_reachable by (intro exI [of _ ?s]) linarith
qed



text \<open>A report of payment does not get lost while the state handler runs and the database works: when it
  is served, the order is paid in the book, exactly one request leaves, to pay it out, for the watcher
  of its currency, and this watcher, if it is connected and has nothing else to do, begins the payout next.\<close>

theorem reported_payment_reaped:
  assumes "daemon_inv D contents (sys_daemon s)"
    and "handler (sys_daemon s) = HandlerRuns" and "chain_manager (sys_daemon s) = Some m"
    and "sys_to_state s = SOrderPaid oid # rest"
    and "fst (call_mark_paid (de_db D) (de_life D) k oid (db (sys_daemon s))) = Inr x"
    and "watch_account_new (de_crypto D) oid x (recipient (sys_daemon s)) = Inr a"
    and "route m (ci_currency (order_currency x)) = Inr n"
  shows "\<exists>s'. sys_step D L connect config (Message k) s = Some s' \<and>
    sys_to_state s' = rest \<and> sys_in_flight s' = sys_in_flight s @ [(n, TrackReap a)] \<and>
    ledger_in D contents (sys_daemon s') oid = Some x \<and> payment_status x = Paid \<and>
    (\<forall>now C watcher endpoint. n < length config \<and> n \<notin> fst ` set (sys_in_flight s) \<and>
       phase (sys_watchers s' n) = Serving C watcher endpoint \<longrightarrow>
       (\<exists>s''. sys_step D L connect config (Deliver n now) s' = Some s'' \<and>
          sys_payouts s'' = sys_payouts s @ [(n, endpoint, watch_invoice a)]))"
proof -
  obtain db' where call: "call_mark_paid (de_db D) (de_life D) k oid (db (sys_daemon s)) = (Inr x, db')"
    using assms(5) by (metis prod.collapse)
  have cur: "inv_currency (watch_invoice a) = ci_currency (order_currency x)"
    using assms(6) by (auto simp: watch_account_new_def and_then_Inr_iff)
  let ?s = "s\<lparr>sys_to_state := rest, sys_daemon := (sys_daemon s)\<lparr>db := db'\<rparr>,
    sys_in_flight := sys_in_flight s @ [(n, TrackReap a)]\<rparr>"
  have step: "sys_step D L connect config (Message k) s = Some ?s"
    using assms(2-4,6,7) call
    by (simp add: handle_event_def order_paid_def reap_def manager_call_def cur)
  have marks: "ledger_in D contents (sys_daemon ?s) oid = Some x" "payment_status x = Paid"
    using database.paid_marks [OF assms(1) call] by auto
  have take: "take_for n (ms @ [(n, TrackReap a)]) = Some (TrackReap a, ms)" if "n \<notin> fst ` set ms" for ms
    using that by (induction ms) auto
  have deliver: "\<exists>s''. sys_step D L connect config (Deliver n now) ?s = Some s'' \<and>
      sys_payouts s'' = sys_payouts s @ [(n, endpoint, watch_invoice a)]"
    if "n < length config" "n \<notin> fst ` set (sys_in_flight s)"
      "phase (sys_watchers ?s n) = Serving C watcher endpoint" for now C watcher endpoint
    using that take by (simp add: absorb_def)
  from step marks deliver show ?thesis by (intro exI [of _ ?s]) simp
qed

theorem reported_payment_reaped_witness:
  "\<exists>s'. sys_step toy_env toy_lib toy_connect [toy_chain] (Message sample_tick)
     (toy_system toy_saved Pending [] (toy_serving []) [] [SOrderPaid ''a''] [] (Some toy_assets)) = Some s' \<and>
    sys_in_flight s' = [(0, TrackReap (WatchAccount toy_paid_invoice))]"
proof -
  let ?s = "toy_system toy_saved Pending [] (toy_serving []) [] [SOrderPaid ''a''] [] (Some toy_assets)"
  have db: "db (sys_daemon ?s) = mem_state [(''a'', toy_order Pending)]"
    "handler (sys_daemon ?s) = HandlerRuns" "chain_manager (sys_daemon ?s) = Some toy_routes"
    "recipient (sys_daemon ?s) = [3]"
    by (simp_all add: toy_system_def update_currencies_def toy_saved_def mem_state_def)
  have inv: "daemon_inv toy_env map_of (sys_daemon ?s)" by (simp add: db mem_inv)
  have msgs: "sys_to_state ?s = SOrderPaid ''a'' # []" "sys_in_flight ?s = []" by (simp_all add: toy_system_def)
  have call: "fst (call_mark_paid (de_db toy_env) (de_life toy_env) sample_tick ''a'' (db (sys_daemon ?s))) =
      Inr (toy_order Paid)"
    using toy_order_paid [of "mem_state []"] by (simp add: db mem_state_def)
  have watch: "watch_account_new (de_crypto toy_env) ''a'' (toy_order Paid) (recipient (sys_daemon ?s)) =
      Inr (WatchAccount toy_paid_invoice)"
    by (simp add: db toy_watch_order)
  have route: "route toy_routes (ci_currency (order_currency (toy_order Paid))) = Inr 0"
    by (simp add: route_def toy_routes_def toy_order_def)
  from reported_payment_reaped [where L = toy_lib and connect = toy_connect and config = "[toy_chain]",
      OF inv db(2,3) msgs(1) call watch route]
  show ?thesis unfolding msgs(2) append_Nil by blast
qed

end
