(* ===== verification/Order_Life.thy ===== *)
theory Order_Life
  imports System_Invariant Toy_Daemon
begin

text \<open>
  The life of one order in the whole daemon, as a machine of five phases that the steps of \<open>System\<close> refine:
  unknown, awaiting its payment, paid with the payout on its way to a watcher, paid with the payout begun, and
  paid with no payout on its way.
\<close>

section \<open>The phases\<close>

datatype order_phase = Unknown | AwaitingPayment | PayoutOrdered | PayoutBegun | PaidOnly

definition order_phase ::
    "('t, 'v, 'p, 'g, 'x) daemon_env \<Rightarrow> ('t \<Rightarrow> bytes \<rightharpoonup> 'v) \<Rightarrow> string
      \<Rightarrow> ('t, 'r, 'w) system \<Rightarrow> order_phase" where
  "order_phase D contents oid s = (case book_of D contents s oid of
     None \<Rightarrow> Unknown
   | Some x \<Rightarrow>
       if payment_status x = Pending then AwaitingPayment
       else if 0 < payouts_of oid (sys_payouts s) then PayoutBegun
       else if 0 < reaps oid (sys_in_flight s) then PayoutOrdered
       else PaidOnly)"

inductive order_step :: "order_phase \<Rightarrow> order_phase \<Rightarrow> bool" where
  created: "order_step Unknown AwaitingPayment"
| paid: "order_step AwaitingPayment PayoutOrdered"
| paid_unrouted: "order_step AwaitingPayment PaidOnly"
| begun: "order_step PayoutOrdered PayoutBegun"

inductive_cases order_step_PayoutBegunE: "order_step PayoutBegun p"

section \<open>New orders are pending\<close>

definition fresh_pending :: "ledger \<Rightarrow> ledger \<Rightarrow> bool" where
  "fresh_pending L M \<longleftrightarrow> (\<forall>oid x. L oid = None \<longrightarrow> M oid = Some x \<longrightarrow> payment_status x = Pending)"

lemma fresh_pending_refl [simp]: "fresh_pending L L"
  by (simp add: fresh_pending_def)

lemma spec_create_fresh: "fresh_pending L (snd (spec_create death oid q c a L))"
  by (auto simp: fresh_pending_def spec_create_def Let_def order_info_new_def split: option.splits if_splits)

lemma spec_mark_paid_fresh: "fresh_pending L (snd (spec_mark_paid oid L))"
  by (auto simp: fresh_pending_def spec_mark_paid_def split: option.splits if_splits)

context order_ledger begin

lemma create_fresh:
  "inv s \<Longrightarrow> create k oid q c a s = (r, s') \<Longrightarrow> fresh_pending (view s) (view s')"
  using create_view spec_create_fresh by (metis fresh_pending_refl)

lemma paid_fresh:
  "inv s \<Longrightarrow> paid k oid s = (r, s') \<Longrightarrow> fresh_pending (view s) (view s')"
  using paid_view spec_mark_paid_fresh by (metis fresh_pending_refl)

end

text \<open>Which operation of the book an event of the state handler comes down to.\<close>

lemma on_event_book:
  assumes "on_event D ev d = (r, d', out)"
  obtains (same) "orders (db d') = orders (db d)"
  | (create) k alive q c a x where "ev = Request k alive (SCreateInvoice q)"
      "call_create_order (de_db D) (de_life D) k (query_order q) q c a (db d) = (x, db d')"
  | (paid) k alive oid x where "ev = Request k alive (SOrderPaid oid)" "call_mark_paid (de_db D) (de_life D) k oid (db d) = (x, db d')"
  | (lookup) k oid x where "call_read_order (de_db D) (de_life D) k oid (db d) = (x, db d')"
proof (cases ev)
  case (Cancelled k)
  with assms same show thesis by (auto simp: state_shutdown_def split: if_splits prod.splits)
next
  case (Request k alive req)
  show thesis
  proof (cases req)
    case (SCreateInvoice q)
    with assms Request consider r1 d1 where "create_invoice D k q d = (r1, d1, out)" "db d' = db d1" |
        "d' = d"
      by (auto split: if_splits prod.splits dest!: deliver_db)
    then show thesis
    proof cases
      case 1
      then have "db d' = db d \<or> (\<exists>p acc x. call_create_order (de_db D) (de_life D) k (query_order q) q p acc (db d)
          = (x, db d'))"
        by (auto simp: create_invoice_def Let_def
            split: option.splits sum.splits prod.splits order_create_response.splits)
      with same create [OF Request [unfolded SCreateInvoice]] show thesis by auto
    qed (use same in simp)
  next
    case (SGetInvoiceStatus oid)
    with assms Request consider r1 d1 where "get_invoice_status D k oid d = (r1, d1)" "db d' = db d1" |
        "d' = d"
      by (auto split: if_splits prod.splits dest!: deliver_db)
    then show thesis
    proof cases
      case 1
      then have "\<exists>x. call_read_order (de_db D) (de_life D) k oid (db d) = (x, db d')"
        by (auto simp: get_invoice_status_def split: option.splits sum.splits prod.splits)
      with lookup show thesis by auto
    qed (use same in simp)
  next
    case (SOrderPaid oid)
    with assms Request have "d' = d \<or> (\<exists>x. call_mark_paid (de_db D) (de_life D) k oid (db d) = (x, db d'))"
      by (auto simp: order_paid_def split: if_splits prod.splits sum.splits)
    with same paid [of k alive oid] Request SOrderPaid show thesis by auto
  qed (use assms Request same in \<open>auto simp: update_currencies_def split: if_splits prod.splits dest!: deliver_db\<close>)
qed

lemma on_event_fresh:
  assumes "daemon_inv D contents d" and "on_event D ev d = (r, d', out)"
  shows "fresh_pending (ledger_in D contents d) (ledger_in D contents d')"
  using assms(2)
proof (cases rule: on_event_book)
  case same
  then show ?thesis by (simp add: db_view_def)
next
  case (create k alive q c a x)
  from database.create_fresh [OF assms(1) create(2)] show ?thesis .
next
  case (paid k alive oid x)
  from database.paid_fresh [OF assms(1) this(2)] show ?thesis .
next
  case (lookup k oid x)
  from database.lookup_inv [OF assms(1) this] show ?thesis by simp
qed

section \<open>What a step does to one order\<close>

text \<open>The order's record with the requests and the payouts counted for it: the record evolves, and a request is
  added only when the order becomes paid, and taken away only when its payout begins.\<close>

definition order_effect :: "string \<Rightarrow> ledger \<times> nat \<times> nat \<Rightarrow> ledger \<times> nat \<times> nat \<Rightarrow> bool" where
  "order_effect oid a b \<longleftrightarrow> (case (a, b) of ((L, r, p), (L', r', p')) \<Rightarrow>
     ledger_le L L' \<and> fresh_pending L L' \<and>
     (r' = r \<and> p' = p \<or>
      r' = Suc r \<and> p' = p \<and> (\<exists>x. L oid = Some x \<and> payment_status x = Pending) \<and> is_paid L' oid \<or>
      r = Suc r' \<and> p' = Suc p \<and> L' = L))"

definition order_counts ::
    "('t, 'v, 'p, 'g, 'x) daemon_env \<Rightarrow> ('t \<Rightarrow> bytes \<rightharpoonup> 'v) \<Rightarrow> string
      \<Rightarrow> ('t, 'r, 'w) system \<Rightarrow> ledger \<times> nat \<times> nat" where
  "order_counts D contents oid s =
     (book_of D contents s, reaps oid (sys_in_flight s), payouts_of oid (sys_payouts s))"

lemma order_effect_same: "order_counts D contents oid s' = order_counts D contents oid s \<Longrightarrow>
    order_effect oid (order_counts D contents oid s) (order_counts D contents oid s')"
  by (simp add: order_effect_def order_counts_def ledger_le_refl)

lemma handle_event_effect:
  assumes "daemon_inv D contents (sys_daemon s)"
  shows "order_effect oid (order_counts D contents oid s) (order_counts D contents oid (handle_event D ev s))"
proof -
  obtain r d' out where ev: "on_event D ev (sys_daemon s) = (r, d', out)" by (rule prod_cases3)
  note evolves = on_event_evolves [OF assms ev] and fresh = on_event_fresh [OF assms ev]
  from on_event_reaps [OF assms ev, of oid] have "reaps oid out = 0 \<or> reaps oid out = 1 \<and>
      (\<exists>x. book_of D contents s oid = Some x \<and> payment_status x = Pending) \<and>
      is_paid (ledger_in D contents d') oid"
    by (cases "reaps oid out = 1") (auto simp: is_paid_def book_of_def)
  then show ?thesis
    using evolves fresh
    by (auto simp: order_effect_def order_counts_def handle_event_def ev book_of_def)
qed

lemma absorb_effect:
  assumes "tracker_step L connect chain x (sys_watchers s n) (sys_world s) = Some res"
  shows "order_counts D contents oid (absorb n res s) = (book_of D contents s, reaps oid (sys_in_flight s),
    payouts_of oid (sys_payouts s) + (case x of Receive now req \<Rightarrow> if is_reap oid (n, req) then 1 else 0 | _ \<Rightarrow> 0))"
proof -
  obtain t out w where res: "res = (t, out, w)" by (rule prod_cases3)
  have "payouts_of oid (concat (map (begun n) out)) =
      (case x of Receive now req \<Rightarrow> if is_reap oid (n, req) then 1 else 0 | _ \<Rightarrow> 0)"
    unfolding tracker_step_spawns [OF assms [unfolded res], of n]
    using assms by (auto simp: is_reap_def payouts_of_def
        split: tracker_input.splits tracker_request.splits tracker_phase.splits)
  then show ?thesis by (simp add: absorb_def res order_counts_def book_of_def)
qed

lemma watcher_effect:
  assumes "own_input x"
    and "tracker_step L connect chain x (sys_watchers s n) (sys_world s) = Some res"
  shows "order_effect oid (order_counts D contents oid s) (order_counts D contents oid (absorb n res s))"
proof -
  have "(case x of Receive now req \<Rightarrow> if is_reap oid (n, req) then 1 else 0 | _ \<Rightarrow> 0) = (0 :: nat)"
    using assms(1) by (cases x rule: own_input.cases) (auto simp: is_reap_def)
  with absorb_effect [OF assms(2), of D contents oid] show ?thesis
    by (intro order_effect_same) (simp add: order_counts_def)
qed

lemma deliver_effect:
  assumes take: "take_for n (sys_in_flight s) = Some (req, rest)"
    and t: "tracker_step L connect chain (Receive now req) (sys_watchers s n) (sys_world s) = Some res"
  shows "order_effect oid (order_counts D contents oid s)
    (order_counts D contents oid (absorb n res (s\<lparr>sys_in_flight := rest\<rparr>)))"
proof -
  from take_for_Some [OF take] obtain pre post where
    "sys_in_flight s = pre @ (n, req) # post" "rest = pre @ post" by blast
  with absorb_effect [where s = "s\<lparr>sys_in_flight := rest\<rparr>" and x = "Receive now req" and n = n
      and chain = chain and res = res and D = D and contents = contents and oid = oid] t
  show ?thesis
    by (simp add: order_effect_def order_counts_def book_of_def ledger_le_refl)
qed

lemma cancel_effect:
  assumes "daemon_inv D contents (sys_daemon s)" and t: "t = handle_event D (Cancelled k) s"
  shows "order_effect oid (order_counts D contents oid s)
    (order_counts D contents oid (t\<lparr>sys_in_flight := sys_in_flight t @ stop_requests D k (sys_daemon s)\<rparr>))"
proof -
  have "reaps oid (stop_requests D k (sys_daemon s)) = 0"
    by (auto simp: reaps_def is_reap_def stop_requests_def)
  then have "order_counts D contents oid
      (t\<lparr>sys_in_flight := sys_in_flight t @ stop_requests D k (sys_daemon s)\<rparr>) = order_counts D contents oid t"
    by (simp add: order_counts_def book_of_def)
  with handle_event_effect [OF assms(1), of oid "Cancelled k"] show ?thesis by (simp add: t)
qed

lemma sys_step_effect:
  assumes inv: "sys_inv D contents L rec s" and step: "sys_step D L connect config ev s = Some s'"
  shows "order_effect oid (order_counts D contents oid s) (order_counts D contents oid s')"
proof -
  have di: "daemon_inv D contents (sys_daemon s)" using inv by (simp add: sys_inv_def)
  show ?thesis
  proof (cases ev)
    case (Web k alive req)
    with step handle_event_effect [OF di] show ?thesis by (auto split: if_splits)
  next
    case (Message k)
    with step obtain req reqs where
      s': "s' = handle_event D (Request k True req) (s\<lparr>sys_to_state := reqs\<rparr>)"
      by (auto split: list.splits)
    from di handle_event_effect [of D contents "s\<lparr>sys_to_state := reqs\<rparr>" oid "Request k True req"]
    show ?thesis unfolding s' by (simp add: order_counts_def book_of_def)
  next
    case (Cancel k)
    with step cancel_effect [OF di refl, where oid = oid and k = k] show ?thesis by (simp add: Let_def)
  next
    case Restore
    with step obtain m ms where q: "sys_restoring s = m # ms" and
      s': "s' = s\<lparr>sys_restoring := ms, sys_in_flight := sys_in_flight s @ [m]\<rparr>"
      by (auto split: list.splits)
    have "\<exists>a. snd m = TrackWatch a" using inv q by (simp add: sys_inv_def sys_msgs_def)
    then have "is_reap oid m = False" by (auto simp: is_reap_def)
    then show ?thesis unfolding s' by (intro order_effect_same) (simp add: order_counts_def book_of_def)
  next
    case (Watcher n x)
    with step watcher_effect show ?thesis by (auto split: if_splits)
  next
    case (Deliver n now)
    with step deliver_effect show ?thesis by (auto split: if_splits option.splits)
  qed
qed

text \<open>The phases follow.\<close>

lemma phase_step:
  assumes "order_effect oid (order_counts D contents oid s) (order_counts D contents oid s')"
    and "count_ok (book_of D contents s) s"
  shows "order_phase D contents oid s' = order_phase D contents oid s \<or>
    order_step (order_phase D contents oid s) (order_phase D contents oid s')"
proof -
  let ?L = "book_of D contents s" and ?M = "book_of D contents s'"
  from assms(1) have le: "ledger_le ?L ?M" and fresh: "fresh_pending ?L ?M"
    by (simp_all add: order_effect_def order_counts_def)
  have count: "reaps oid (sys_in_flight s) + payouts_of oid (sys_payouts s) \<le> (if is_paid ?L oid then 1 else 0)"
    using assms(2) by (simp add: count_ok_def)
  show ?thesis
  proof (cases "?L oid")
    case None
    with fresh have "case ?M oid of None \<Rightarrow> True | Some x \<Rightarrow> payment_status x = Pending"
      by (simp add: fresh_pending_def split: option.split)
    with None show ?thesis
      by (auto simp: order_phase_def created split: option.splits)
  next
    case (Some x)
    with le obtain y where y: "?M oid = Some y" "order_le x y" by (auto simp: ledger_le_def)
    show ?thesis
    proof (cases "payment_status x")
      case Pending
      with Some count have "reaps oid (sys_in_flight s) = 0" "payouts_of oid (sys_payouts s) = 0"
        by (auto simp: is_paid_def)
      with assms(1) have "payouts_of oid (sys_payouts s') = 0"
        by (auto simp: order_effect_def order_counts_def)
      with Some Pending y show ?thesis
        by (auto simp: order_phase_def intro: order_step.intros)
    next
      case Paid
      with y(2) have "y = x" by (simp add: order_le_def)
      with assms(1) Some Paid y count show ?thesis
        by (auto simp: order_effect_def order_counts_def order_phase_def is_paid_def intro: order_step.begun)
    qed
  qed
qed

section \<open>Properties\<close>

text \<open>C6. The whole daemon refines the life of an order: whatever step is taken in whatever reachable state, the
  order stays in its phase or makes one step of the five-phase machine. In particular no order skips its
  payment, none is paid out before it is paid, and none returns to an earlier phase.\<close>

theorem daemon_refines_order_life:
  assumes "daemon_inv D contents d"
    and "reachable D L connect config (system_start D k m d w) s"
    and "sys_step D L connect config ev s = Some s'"
  shows "order_phase D contents oid s' = order_phase D contents oid s \<or>
    order_step (order_phase D contents oid s) (order_phase D contents oid s')"
proof -
  from reachable_inv [OF assms(2) system_start_inv [OF assms(1)]]
  have inv: "sys_inv D contents L (recipient d) s" .
  then have "count_ok (book_of D contents s) s" by (simp add: sys_inv_def)
  with sys_step_effect [OF inv assms(3)] phase_step show ?thesis by blast
qed

theorem daemon_refines_order_life_witness:
  "order_step AwaitingPayment PayoutOrdered \<and>
   (\<exists>s s'. sys_step toy_env toy_lib toy_connect [toy_chain] (Message sample_tick) s = Some s' \<and>
      order_phase toy_env map_of ''a'' s = AwaitingPayment \<and>
      order_phase toy_env map_of ''a'' s' = PayoutOrdered)"
proof -
  let ?s = "toy_system toy_saved Pending [] (toy_serving []) [] [SOrderPaid ''a''] [] (Some toy_assets)"
  let ?s' = "toy_system toy_saved Paid [] (toy_serving []) [(0, TrackReap (WatchAccount toy_paid_invoice))]
    [] [] (Some toy_assets)"
  have step: "sys_step toy_env toy_lib toy_connect [toy_chain] (Message sample_tick) ?s = Some ?s'"
    by (rule toy_step_paid [OF toy_saved_base])
  have reach: "reachable toy_env toy_lib toy_connect [toy_chain] (system_start toy_env sample_tick
      (Some toy_routes) (toy_daemon [(''a'', toy_order Pending)]) ()) ?s"
    unfolding toy_system_start by (rule toy_reachable_report [OF toy_saved_base])
  have "(db toy_saved)\<lparr>orders := orders (mem_state [(''a'', toy_order p)])\<rparr> = mem_state [(''a'', toy_order p)]"
    for p by (simp add: toy_saved_def mem_state_def)
  then have phases: "order_phase toy_env map_of ''a'' ?s = AwaitingPayment"
    "order_phase toy_env map_of ''a'' ?s' = PayoutOrdered"
    by (simp_all add: order_phase_def book_of_def toy_system_def update_currencies_def toy_order_def
        payouts_of_def is_reap_def toy_invoice_def)
  from daemon_refines_order_life [OF toy_daemon_inv reach step, of "''a''"] phases step show ?thesis
    by auto
qed



end
