(* ===== verification/Order_Watch.thy ===== *)
theory Order_Watch
  imports Order_Life
begin

text \<open>
  Which orders the daemon still looks after. An order is out of sight when no watcher has it, no request to watch it
  is on its way and no report of its payment either. Nothing a shop or a chain does brings it back before the
  next start: \<open>create_invoice\<close> of \<open>src/state.rs\<close> has an order watched when it is new, and only then.
\<close>

section \<open>Out of sight\<close>

definition is_watch :: "string \<Rightarrow> nat \<times> tracker_request \<Rightarrow> bool" where
  "is_watch oid m \<longleftrightarrow> (case snd m of TrackWatch a \<Rightarrow> inv_id (watch_invoice a) = oid | _ \<Rightarrow> False)"

lemma is_watch_iff: "is_watch oid m \<longleftrightarrow> (\<exists>a. snd m = TrackWatch a \<and> inv_id (watch_invoice a) = oid)"
  by (auto simp: is_watch_def split: tracker_request.split)

definition out_of_sight :: "string \<Rightarrow> ('t, 'r, 'w) system \<Rightarrow> bool" where
  "out_of_sight oid s \<longleftrightarrow>
     (\<forall>n. \<forall>oi \<in> set (watching (sys_watchers s n)). fst oi \<noteq> oid) \<and>
     \<not> list_ex (is_watch oid) (sys_restoring s @ sys_in_flight s) \<and>
     SOrderPaid oid \<notin> set (sys_to_state s)"

definition pending :: "ledger \<Rightarrow> string \<Rightarrow> bool" where
  "pending L oid \<longleftrightarrow> (\<exists>x. L oid = Some x \<and> payment_status x = Pending)"

section \<open>What keeps an order pending\<close>

lemma spec_create_pending: "pending L oid \<Longrightarrow> pending (snd (spec_create death o' q c a L)) oid"
  by (auto simp: pending_def spec_create_def order_info_new_def Let_def split: option.splits)

lemma spec_mark_paid_pending: "pending L oid \<Longrightarrow> o' \<noteq> oid \<Longrightarrow> pending (snd (spec_mark_paid o' L)) oid"
  by (auto simp: pending_def spec_mark_paid_def split: option.splits)

context order_ledger begin

lemma create_pending:
  "inv s \<Longrightarrow> create k o' q c a s = (r, s') \<Longrightarrow> pending (view s) oid \<Longrightarrow> pending (view s') oid"
  using create_view spec_create_pending by metis

lemma paid_pending:
  "inv s \<Longrightarrow> paid k o' s = (r, s') \<Longrightarrow> o' \<noteq> oid \<Longrightarrow> pending (view s) oid \<Longrightarrow> pending (view s') oid"
  using paid_view spec_mark_paid_pending by metis

lemma create_new_unknown:
  "inv s \<Longrightarrow> create k oid q c a s = (Inr (New x), s') \<Longrightarrow> view s oid = None"
  by (drule (1) create_ok) (auto simp: spec_create_def Let_def split: option.splits if_splits)

end

lemma on_event_pending:
  assumes inv: "daemon_inv D contents d" and "on_event D ev d = (r, d', out)"
    and p: "pending (ledger_in D contents d) oid" and "\<And>k alive. ev \<noteq> Request k alive (SOrderPaid oid)"
  shows "pending (ledger_in D contents d') oid"
  using assms(2)
proof (cases rule: on_event_book)
  case same
  with p show ?thesis by (simp add: db_view_def)
next
  case (create k alive q c a x)
  from database.create_pending [OF inv create(2) p] show ?thesis .
next
  case (paid k alive o' x)
  with assms(4) have "o' \<noteq> oid" by blast
  from database.paid_pending [OF inv paid(2) this p] show ?thesis .
next
  case (lookup k o' x)
  from database.lookup_inv [OF inv this] p show ?thesis by simp
qed

text \<open>An order that is known is not watched anew.\<close>

lemma on_event_no_watch:
  assumes inv: "daemon_inv D contents d" and "on_event D ev d = (r, d', out)" and "pending (ledger_in D contents d) oid"
  shows "\<not> list_ex (is_watch oid) out"
proof
  assume "list_ex (is_watch oid) out"
  then obtain n a where m: "(n, TrackWatch a) \<in> set out" and a: "inv_id (watch_invoice a) = oid"
    by (auto simp: list_ex_iff is_watch_iff)
  from assms(2) m show False
  proof (cases rule: on_event_sends)
    case (created k alive q r1 d1)
    from create_invoice_sends [OF created(2) m] obtain p account x where
      call: "call_create_order (de_db D) (de_life D) k (query_order q) q p account (db d) = (Inr (New x), db d1)"
      and w: "watch_account_new (de_crypto D) (query_order q) x (recipient d) = Inr a" by blast
    from w a have "query_order q = oid" by (auto simp: watch_account_new_def and_then_Inr_iff)
    with database.create_new_unknown [OF inv call] assms(3) show False by (simp add: pending_def)
  next
    case (paid k alive o')
    from order_paid_sends [OF paid(2) m] show False by blast
  qed
qed

section \<open>The steps\<close>

lemma handle_event_out_of_sight:
  assumes "daemon_inv D contents (sys_daemon s)" and "pending (book_of D contents s) oid" and "out_of_sight oid s"
    and "\<And>k alive. ev \<noteq> Request k alive (SOrderPaid oid)"
  shows "pending (book_of D contents (handle_event D ev s)) oid \<and> out_of_sight oid (handle_event D ev s)"
proof -
  obtain r d' out where ev: "on_event D ev (sys_daemon s) = (r, d', out)" by (rule prod_cases3)
  from on_event_pending [OF assms(1) ev _ assms(4)] on_event_no_watch [OF assms(1) ev] assms(2,3)
  show ?thesis by (simp add: book_of_def out_of_sight_def handle_event_def ev)
qed

lemma absorb_out_of_sight:
  fixes s :: "('t, 'r, 'w) system"
  assumes "sys_inv D contents L rec s" and "out_of_sight oid s"
    and step: "tracker_step L connect chain x (sys_watchers s n) (sys_world s) = Some res"
    and told: "\<And>now a. x = Receive now (TrackWatch a) \<Longrightarrow> inv_id (watch_invoice a) \<noteq> oid"
  shows "out_of_sight oid (absorb n res s)"
proof -
  obtain t out w where res: "res = (t, out, w)" by (rule prod_cases3)
  from assms(1) have "fst oi = inv_id (snd oi)" if "oi \<in> set (watching (sys_watchers s n))" for oi
    using that by (simp add: sys_inv_def sys_msgs_def)
  moreover from assms(2) have "fst oi \<noteq> oid" if "oi \<in> set (watching (sys_watchers s n))" for oi
    using that by (auto simp: out_of_sight_def)
  ultimately have watched: "\<forall>(o', i) \<in> set (watching (sys_watchers s n)). o' = inv_id i \<and> inv_id i \<noteq> oid"
    by force
  have "(\<forall>(o', i) \<in> set (watching t). o' = inv_id i \<and> inv_id i \<noteq> oid) \<and>
      (\<forall>o'. OrderPaid o' \<in> set out \<longrightarrow> (\<exists>i (C :: 'w client). inv_id i \<noteq> oid \<and> inv_id i = o' \<and> funded L i C))"
    by (rule tracker_step_sound [OF step [unfolded res] watched told])
  then have "\<forall>oi \<in> set (watching t). fst oi \<noteq> oid" and out: "OrderPaid oid \<notin> set out" by auto
  moreover have "SOrderPaid oid \<notin> set (concat (map report out))"
    using in_report [of "SOrderPaid oid" out] out by auto
  ultimately show ?thesis using assms(2) by (simp add: out_of_sight_def absorb_def res)
qed

lemma sys_step_out_of_sight:
  assumes inv: "sys_inv D contents L rec s" and step: "sys_step D L connect config ev s = Some s'"
    and p: "pending (book_of D contents s) oid" and gone: "out_of_sight oid s"
  shows "pending (book_of D contents s') oid \<and> out_of_sight oid s'"
proof -
  have di: "daemon_inv D contents (sys_daemon s)" using inv by (simp add: sys_inv_def)
  show ?thesis
  proof (cases ev)
    case (Web k alive req)
    with step have s': "s' = handle_event D (Request k alive req) s" "from_web req" by (auto split: if_splits)
    then have "req \<noteq> SOrderPaid oid" by auto
    then show ?thesis unfolding s' by (intro handle_event_out_of_sight [OF di p gone]) simp
  next
    case (Message k)
    with step obtain req reqs where q: "sys_to_state s = req # reqs" and
      s': "s' = handle_event D (Request k True req) (s\<lparr>sys_to_state := reqs\<rparr>)"
      by (auto split: list.splits)
    from gone q have "out_of_sight oid (s\<lparr>sys_to_state := reqs\<rparr>)" "req \<noteq> SOrderPaid oid"
      by (auto simp: out_of_sight_def)
    with handle_event_out_of_sight [of D contents "s\<lparr>sys_to_state := reqs\<rparr>" oid "Request k True req"] di p
    show ?thesis by (simp add: s' book_of_def)
  next
    case (Cancel k)
    have "\<not> list_ex (is_watch oid) (stop_requests D k (sys_daemon s))"
      by (auto simp: stop_requests_def list_ex_iff is_watch_iff)
    moreover have "s' = (handle_event D (Cancelled k) s)\<lparr>sys_in_flight :=
        sys_in_flight (handle_event D (Cancelled k) s) @ stop_requests D k (sys_daemon s)\<rparr>"
      using step Cancel by (simp add: Let_def)
    ultimately show ?thesis using handle_event_out_of_sight [OF di p gone, of "Cancelled k"]
      by (simp add: out_of_sight_def book_of_def)
  next
    case Restore
    with step obtain m ms where q: "sys_restoring s = m # ms" and
      s': "s' = s\<lparr>sys_restoring := ms, sys_in_flight := sys_in_flight s @ [m]\<rparr>"
      by (auto split: list.splits)
    from gone have "out_of_sight oid s'" unfolding out_of_sight_def q s' by simp
    then show ?thesis using p by (simp add: s' book_of_def)
  next
    case (Watcher n x)
    with step obtain res where
      res: "tracker_step L connect (config ! n) x (sys_watchers s n) (sys_world s) = Some res" "own_input x" and
      s': "s' = absorb n res s" by (auto simp del: tracker_step.simps split: if_splits)
    have "out_of_sight oid s'"
      unfolding s' by (rule absorb_out_of_sight [OF inv gone res(1)]) (use res(2) in auto)
    with p show ?thesis by (simp add: s' absorb_def book_of_def split: prod.split)
  next
    case (Deliver n now)
    with step obtain req rest res where take: "take_for n (sys_in_flight s) = Some (req, rest)" and
      res: "tracker_step L connect (config ! n) (Receive now req) (sys_watchers s n) (sys_world s) = Some res" and
      s': "s' = absorb n res (s\<lparr>sys_in_flight := rest\<rparr>)"
      by (auto simp del: tracker_step.simps split: if_splits option.splits prod.splits)
    from take_for_Some [OF take] obtain pre post where
      flight: "sys_in_flight s = pre @ (n, req) # post" "rest = pre @ post" by blast
    with gone have "out_of_sight oid (s\<lparr>sys_in_flight := rest\<rparr>)" and "\<not> is_watch oid (n, req)"
      by (auto simp: out_of_sight_def)
    moreover have "out_of_sight oid (absorb n res s)"
      by (rule absorb_out_of_sight [OF inv gone res]) (use \<open>\<not> is_watch oid (n, req)\<close> in \<open>auto simp: is_watch_iff\<close>)
    ultimately show ?thesis using p by (auto simp: s' absorb_def out_of_sight_def book_of_def split: prod.splits)
  qed
qed

section \<open>Properties\<close>

lemma phase_pending: "order_phase D contents oid s = AwaitingPayment \<longleftrightarrow> pending (book_of D contents s) oid"
  by (auto simp: order_phase_def pending_def split: option.split)

text \<open>C11. An order that is out of sight stays unpaid: once a pending order is watched by no watcher (the first block
  after it was taken up is enough for that, unless it is funded by then) and no message about it is on its
  way, it is pending and out of sight for as long as the daemon runs, whatever is paid to its account and
  even if the shop posts the order again. Only a start takes it up.\<close>

theorem unseen_order_never_paid:
  assumes "daemon_inv D contents d"
    and "reachable D L connect config (system_start D k m d w) s"
    and "order_phase D contents oid s = AwaitingPayment" and "out_of_sight oid s"
    and "reachable D L connect config s s'"
  shows "order_phase D contents oid s' = AwaitingPayment \<and> out_of_sight oid s'"
proof -
  have "sys_inv D contents L (recipient d) s"
    by (rule reachable_inv [OF assms(2) system_start_inv [OF assms(1)]])
  from assms(5) this assms(3,4)
  have "sys_inv D contents L (recipient d) s' \<and> order_phase D contents oid s' = AwaitingPayment \<and> out_of_sight oid s'"
    unfolding phase_pending
  proof (induction rule: reachable.induct)
    case (step s1 ev s2)
    then have "sys_inv D contents L (recipient d) s1" "pending (book_of D contents s1) oid" "out_of_sight oid s1"
      by auto
    with sys_step_out_of_sight [OF this(1) step(2) this(2,3)] sys_step_inv [OF this(1) step(2)] show ?case by simp
  qed simp
  then show ?thesis by simp
qed

text \<open>An order whose currency is no longer configured is out of sight from the start on.\<close>

theorem unseen_order_never_paid_witness:
  "\<exists>s. s = system_start toy_env sample_tick (Some \<lparr>watch_chain = [], currency_chain = []\<rparr>)
      (toy_daemon [(''a'', toy_order Pending)]) () \<and>
    order_phase toy_env map_of ''a'' (handle_event toy_env (Request sample_tick True (SGetInvoiceStatus ''b'')) s
      :: (_, unit, unit) system) = AwaitingPayment"
proof -
  let ?m = "\<lparr>watch_chain = [], currency_chain = []\<rparr> :: manager"
  let ?s = "system_start toy_env sample_tick (Some ?m) (toy_daemon [(''a'', toy_order Pending)]) ()
    :: (_, unit, unit) system"
  let ?req = "SGetInvoiceStatus ''b''"
  have "manager_call (\<lambda>_ _. True) (Some ?m) (ManageWatch a) = (Inl (InvalidCurrency (inv_currency (watch_invoice a))), [])" for a
    by (simp add: manager_call_def route_def)
  moreover have "serving (mem_state [(''a'', toy_order Pending)])" by (simp add: mem_state_def)
  note list = toy_order_list [OF this refl]
  ultimately have s: "?s = system_from ((toy_daemon [(''a'', toy_order Pending)])\<lparr>chain_manager := Some ?m,
      currencies := Map.empty, handler := HandlerRuns\<rparr>) [] ()"
    using list by (simp add: system_start_def state_start_def add_invoice_def toy_watch_order toy_ack toy_daemon_def)
  have start: "order_phase toy_env map_of ''a'' ?s = AwaitingPayment" "out_of_sight ''a'' ?s"
    unfolding s by (simp_all add: system_from_def order_phase_def book_of_def toy_order_def toy_daemon_def
        out_of_sight_def tracker_start_def)
  have "sys_step toy_env toy_lib toy_connect [toy_chain] (Web sample_tick True ?req) ?s =
      Some (handle_event toy_env (Request sample_tick True ?req) ?s)" by simp
  from unseen_order_never_paid [OF toy_daemon_inv reachable.start start reachable.step [OF reachable.start this]]
  show ?thesis by simp
qed

end
