(* ===== verification/Order_Liveness.thy ===== *)
theory Order_Liveness
  imports Order_Watch
begin

text \<open>
  Progress of one order through the whole daemon: a reported payment leads to a payout that is begun, under the
  fairness the source relies on. The state handler takes its messages in turn, a watcher takes its requests in turn, and
  the database answers; whatever else the daemon does meanwhile does not matter.
\<close>

section \<open>Runs of the daemon\<close>




section \<open>A database that answers\<close>




section \<open>What a running handler leaves alone\<close>





section \<open>Requests to a watcher are taken in turn\<close>

definition for_watcher :: "nat \<Rightarrow> sent \<Rightarrow> tracker_request list" where
  "for_watcher n ms = map snd (filter (\<lambda>m. fst m = n) ms)"

lemma for_watcher_append [simp]: "for_watcher n (xs @ ys) = for_watcher n xs @ for_watcher n ys"
  by (simp add: for_watcher_def)











section \<open>Messages to the state handler are served in turn\<close>













lemma watch_account_paid [simp]:
  "watch_account_new Cr oid (x\<lparr>payment_status := p\<rparr>) rec = watch_account_new Cr oid x rec"
  by (simp add: watch_account_new_def)





section \<open>Property\<close>




end
