(* ===== verification/Handlers.thy ===== *)
theory Handlers
  imports State_Properties
begin

text \<open>
  The HTTP handlers of \<open>src/handlers/order.rs\<close> and \<open>src/handlers/health.rs\<close>: validation of an
  order request, its two calls of the state's handle with whatever else the state serves in
  between, and the status code and body of every outcome. Routing and JSON transport are the web
  framework's.
\<close>

section \<open>Orders\<close>

definition AMOUNT :: string where
  "AMOUNT = ''amount''"

definition CURRENCY :: string where
  "CURRENCY = ''currency''"

text \<open>The double nearest to 0.07.\<close>

definition EXISTENTIAL_DEPOSIT :: f64 where
  "EXISTENTIAL_DEPOSIT = Finite (1261007895663739 / 18014398509481984)"

record order_payload =
  payload_amount :: "f64 option"
  payload_currency :: "string option"
  payload_callback :: "string option"

text \<open>
  \<open>k1\<close>, \<open>k2\<close>: what the world supplies to the two requests; \<open>evs\<close>: the events the handler task
  serves between them.
\<close>

definition process_order ::
    "('t, 'v, 'p, 'g, 'w) daemon_env \<Rightarrow> db_tick \<Rightarrow> db_tick \<Rightarrow> state_event list \<Rightarrow> string
      \<Rightarrow> order_payload option \<Rightarrow> 't daemon \<Rightarrow> (order_error + order_response) \<times> 't daemon \<times> sent" where
  "process_order D k1 k2 evs order_id payload d = (case payload of
     Some pl \<Rightarrow> (case payload_amount pl of
         None \<Rightarrow> (Inl (MissingParameter AMOUNT), d, [])
       | Some a \<Rightarrow>
           if f64_less a EXISTENTIAL_DEPOSIT
           then (Inl (LessThanExistentialDeposit EXISTENTIAL_DEPOSIT), d, [])
           else (case payload_currency pl of
               None \<Rightarrow> (Inl (MissingParameter CURRENCY), d, [])
             | Some c \<Rightarrow> (case handle_is_currency_supported D k1 c d of
                 (Inl _, d1, out1) \<Rightarrow> (Inl InternalError, d1, out1)
               | (Inr supported, d1, out1) \<Rightarrow>
                   if \<not> supported then (Inl UnknownCurrency, d1, out1)
                   else (case state_run D evs d1 of (_, d2, out2) \<Rightarrow>
                     (case handle_create_order D k2 \<lparr>query_order = order_id, query_amount = a,
                         query_callback = (case payload_callback pl of Some cb \<Rightarrow> cb | None \<Rightarrow> []),
                         query_currency = c\<rparr> d2 of (r, d3, out3) \<Rightarrow>
                       (map_err (\<lambda>_. InternalError) r, d3, out1 @ out2 @ out3))))))
   | None \<Rightarrow> (case handle_order_status D k1 order_id d of (r, d1, out) \<Rightarrow>
       (map_err (\<lambda>_. InternalError) r, d1, out)))"

datatype http_body = StatusBody order_status | InvalidBody "invalid_parameter list" | NoBody

type_synonym http_response = "nat \<times> http_body"

text \<open>The answers of the \<open>order\<close> route; \<open>show\<close> prints a number.\<close>

fun order_http :: "(f64 \<Rightarrow> string) \<Rightarrow> order_error + order_response \<Rightarrow> http_response" where
  "order_http shw (Inr (NewOrder st)) = (201, StatusBody st)"
| "order_http shw (Inr (FoundOrder st)) = (200, StatusBody st)"
| "order_http shw (Inr (ModifiedOrder st)) = (200, StatusBody st)"
| "order_http shw (Inr (CollidedOrder st)) = (409, StatusBody st)"
| "order_http shw (Inr NotFound) = (404, NoBody)"
| "order_http shw (Inl (LessThanExistentialDeposit e)) = (400, InvalidBody
     [\<lparr>parameter = AMOUNT,
       message = ''provided amount is less than the currency's existential deposit ('' @ shw e @ '')''\<rparr>])"
| "order_http shw (Inl UnknownCurrency) = (400, InvalidBody
     [\<lparr>parameter = CURRENCY, message = ''provided currency isn't supported''\<rparr>])"
| "order_http shw (Inl (MissingParameter p)) = (400, InvalidBody
     [\<lparr>parameter = p, message = ''parameter wasn't found''\<rparr>])"
| "order_http shw (Inl (InvalidParameter p)) = (400, InvalidBody
     [\<lparr>parameter = p, message = ''parameter's format is invalid''\<rparr>])"
| "order_http shw (Inl InternalError) = (500, NoBody)"

definition order_route ::
    "('t, 'v, 'p, 'g, 'w) daemon_env \<Rightarrow> (f64 \<Rightarrow> string) \<Rightarrow> db_tick \<Rightarrow> db_tick \<Rightarrow> state_event list
      \<Rightarrow> string \<Rightarrow> order_payload option \<Rightarrow> 't daemon \<Rightarrow> http_response \<times> 't daemon \<times> sent" where
  "order_route D shw k1 k2 evs order_id payload d =
     (case process_order D k1 k2 evs order_id payload d of (r, d', out) \<Rightarrow> (order_http shw r, d', out))"

text \<open>The forced withdrawal's answers (the state's own operation is a \<open>todo!()\<close>), and \<open>investigate\<close>.\<close>

fun force_withdrawal_http :: "force_withdrawal_error + order_status \<Rightarrow> http_response" where
  "force_withdrawal_http (Inr a) = (201, StatusBody a)"
| "force_withdrawal_http (Inl (WithdrawalError a)) = (400, StatusBody a)"
| "force_withdrawal_http (Inl (WithdrawalMissingParameter p)) = (400, InvalidBody
     [\<lparr>parameter = p, message = ''parameter wasn't found''\<rparr>])"
| "force_withdrawal_http (Inl (WithdrawalInvalidParameter p)) = (400, InvalidBody
     [\<lparr>parameter = p, message = ''parameter's format is invalid''\<rparr>])"

section \<open>Status\<close>

text \<open>\<open>GET /status\<close>: an uncacheable answer, or a panic (\<open>None\<close>) when the state is gone.\<close>

definition status_route ::
    "('t, 'v, 'p, 'g, 'w) daemon_env \<Rightarrow> db_tick \<Rightarrow> 't daemon
      \<Rightarrow> ((string \<times> string) list \<times> server_status) option \<times> 't daemon" where
  "status_route D k d = (case handle_server_status D k d of
     (Inr status, d', _) \<Rightarrow> (Some ([(''cache-control'', ''no-store'')], status), d')
   | (Inl _, d', _) \<Rightarrow> (None, d'))"

section \<open>Lemmas\<close>

lemma handle_supported_eq:
  "handle_is_currency_supported D k c d =
     (if handler d = HandlerRuns then (Inr (currencies d c \<noteq> None), d, []) else (Inl Fatal, d, []))"
  by (simp add: handle_is_currency_supported_def deliver_def)

lemma handle_create_eq:
  "handle_create_order D k q d =
     (if handler d = HandlerRuns then create_invoice D k q d else (Inl Fatal, d, []))"
  by (simp add: handle_create_order_def deliver_def split: prod.split)

lemma handle_status_eq:
  "handle_order_status D k oid d = (if handler d = HandlerRuns
     then (case get_invoice_status D k oid d of (r, d') \<Rightarrow> (r, d', [])) else (Inl Fatal, d, []))"
  by (simp add: handle_order_status_def deliver_def split: prod.split)

lemma create_invoice_outcomes:
  "create_invoice D k q d = (Inr r, d', out) \<Longrightarrow>
     (\<exists>st. r = NewOrder st \<or> r = ModifiedOrder st \<or> r = CollidedOrder st)"
  by (auto simp: create_invoice_def Let_def
      split: option.splits sum.splits prod.splits order_create_response.splits)

lemma get_invoice_outcomes:
  "get_invoice_status D k oid d = (Inr r, d') \<Longrightarrow> r = NotFound \<or> (\<exists>st. r = FoundOrder st)"
  by (auto simp: get_invoice_status_def split: option.splits sum.splits prod.splits)

lemma create_invoice_collision:
  assumes "daemon_inv D contents d" and "create_invoice D k q d = (Inr (CollidedOrder st), d', out)"
  shows "\<exists>x. ledger_in D contents d' (query_order q) = Some x \<and> payment_status x = Paid \<and>
    status_order_info st = x \<and> out = []"
proof -
  from assms(2) obtain p account x where
    call: "call_create_order (de_db D) (de_life D) k (query_order q) q (info p (query_currency q))
      account (db d) = (Inr (Collision x), db d')" and
    st: "status_order_info st = x" and out: "out = []"
    by (auto simp: create_invoice_def Let_def order_status_def
        split: option.splits sum.splits prod.splits order_create_response.splits)
  from database.create_ok [OF assms(1) call] have "ledger_in D contents d (query_order q) = Some x"
      "payment_status x = Paid" "ledger_in D contents d' = ledger_in D contents d"
    by (auto simp: spec_create_def Let_def split: option.splits if_splits)
  with st out show ?thesis by simp
qed

lemma get_invoice_missing:
  assumes "daemon_inv D contents d" and "get_invoice_status D k oid d = (Inr NotFound, d')"
  shows "ledger_in D contents d' oid = None"
proof -
  from assms(2) have call: "call_read_order (de_db D) (de_life D) k oid (db d) = (Inr None, db d')"
    by (auto simp: get_invoice_status_def split: option.splits sum.splits prod.splits)
  from database.lookup_ok [OF assms(1) call] database.lookup_inv [OF assms(1) call] show ?thesis
    by simp
qed

lemma ledger_le_absent: "ledger_le L M \<Longrightarrow> M oid = None \<Longrightarrow> L oid = None"
  by (cases "L oid") (fastforce simp: ledger_le_def)+

text \<open>The replies of \<open>process_order\<close> that carry no error, by the operation they come from.\<close>

lemma process_order_ok:
  assumes "process_order D k1 k2 evs oid payload d = (Inr r, d', out)"
  shows "(payload = None \<and> get_invoice_status D k1 oid d = (Inr r, d')) \<or>
    (\<exists>pl a c d2 q out2 out3 rs. payload = Some pl \<and> payload_amount pl = Some a \<and>
      \<not> f64_less a EXISTENTIAL_DEPOSIT \<and> payload_currency pl = Some c \<and>
      state_run D evs d = (rs, d2, out2) \<and> query_order q = oid \<and> query_amount q = a \<and>
      query_currency q = c \<and> create_invoice D k2 q d2 = (Inr r, d', out3) \<and> out = out2 @ out3)"
proof (cases payload)
  case None
  with assms show ?thesis
    by (auto simp: process_order_def handle_status_eq split: if_splits prod.splits)
next
  case (Some pl)
  with assms obtain a c where ac: "payload_amount pl = Some a" "payload_currency pl = Some c"
      "\<not> f64_less a EXISTENTIAL_DEPOSIT"
    by (auto simp: process_order_def split: option.splits if_splits)
  obtain rs d2 out2 where run: "state_run D evs d = (rs, d2, out2)" by (metis prod_cases3)
  define q where "q = \<lparr>query_order = oid, query_amount = a,
    query_callback = (case payload_callback pl of Some cb \<Rightarrow> cb | None \<Rightarrow> []), query_currency = c\<rparr>"
  from assms Some ac run have "\<exists>out3. create_invoice D k2 q d2 = (Inr r, d', out3) \<and> out = out2 @ out3"
    by (auto simp: process_order_def handle_supported_eq handle_create_eq q_def
        split: if_splits prod.splits)
  then obtain out3 where out3: "create_invoice D k2 q d2 = (Inr r, d', out3)" "out = out2 @ out3" by blast
  have "query_order q = oid" "query_amount q = a" "query_currency q = c" by (simp_all add: q_def)
  with Some ac run out3 show ?thesis by blast
qed

text \<open>The answers of an order request that was served, by what they tell.\<close>

lemma process_order_tells:
  assumes "daemon_inv D contents d" and "process_order D k1 k2 evs oid payload d = (Inr r, d', out)"
  shows "case r of
      NewOrder st \<Rightarrow> (\<exists>x pl n a. ledger_in D contents d oid = None \<and>
        ledger_in D contents d' oid = Some x \<and> payment_status x = Pending \<and>
        payload = Some pl \<and> payload_amount pl = Some (order_amount x) \<and>
        \<not> f64_less (order_amount x) EXISTENTIAL_DEPOSIT \<and>
        (n, TrackWatch a) \<in> set out \<and> inv_id (watch_invoice a) = oid)
    | CollidedOrder st \<Rightarrow> (\<exists>x. ledger_in D contents d' oid = Some x \<and> payment_status x = Paid)
    | NotFound \<Rightarrow> ledger_in D contents d' oid = None
    | _ \<Rightarrow> True"
  using process_order_ok [OF assms(2)]
proof (elim disjE exE conjE)
  assume "get_invoice_status D k1 oid d = (Inr r, d')"
  with get_invoice_outcomes [OF this] get_invoice_missing [OF assms(1)] show ?thesis by auto
next
  fix pl a c d2 q out2 out3 rs
  assume pl: "payload = Some pl" "payload_amount pl = Some a" "\<not> f64_less a EXISTENTIAL_DEPOSIT"
    and run: "state_run D evs d = (rs, d2, out2)" and q: "query_order q = oid" "query_amount q = a"
    and create: "create_invoice D k2 q d2 = (Inr r, d', out3)" and out: "out = out2 @ out3"
  from state_run_evolves [OF assms(1) run] have inv2: "daemon_inv D contents d2"
    and le: "ledger_le (ledger_in D contents d) (ledger_in D contents d2)" by auto
  show ?thesis
  proof (cases r)
    case (NewOrder st)
    from create_invoice_new [OF inv2 create [unfolded NewOrder]] obtain p account x aa n where
      new: "x = order_info_new q (info p (query_currency q)) account
          (calculate_death_ts (now_millis k2) (de_life D))"
        "ledger_in D contents d2 oid = None"
        "ledger_in D contents d' = (ledger_in D contents d2)(oid \<mapsto> x)"
        "watch_account_new (de_crypto D) oid x (recipient d2) = Inr aa"
        "out3 = [(n, TrackWatch aa)]"
      by (auto simp: q)
    have "inv_id (watch_invoice aa) = oid"
      using new(4) by (auto simp: watch_account_new_def and_then_Inr_iff)
    moreover have "order_amount x = a" "payment_status x = Pending"
      using new(1) q(2) by (simp_all add: order_info_new_def)
    ultimately show ?thesis
      using NewOrder pl out new(2,3,5) ledger_le_absent [OF le] by fastforce
  next
    case (CollidedOrder st)
    from create_invoice_collision [OF inv2 create [unfolded CollidedOrder]] CollidedOrder q show ?thesis by auto
  next
    case NotFound
    with create_invoice_outcomes [OF create] show ?thesis by simp
  qed simp_all
qed

section \<open>Properties\<close>

text \<open>C38. A request with no amount, with an amount below the existential deposit, with no currency or with
  a currency no connected chain serves is answered 400 naming the offending parameter, in this
  order of precedence, and has no effect on any component.\<close>

theorem invalid_orders_rejected:
  assumes "handler d = HandlerRuns"
  shows "(payload_amount pl = None \<longrightarrow> order_route D shw k1 k2 evs oid (Some pl) d =
      ((400, InvalidBody [\<lparr>parameter = ''amount'', message = ''parameter wasn't found''\<rparr>]), d, [])) \<and>
    (\<forall>a. payload_amount pl = Some a \<and> f64_less a EXISTENTIAL_DEPOSIT \<longrightarrow>
      (\<exists>msg. order_route D shw k1 k2 evs oid (Some pl) d =
        ((400, InvalidBody [\<lparr>parameter = ''amount'', message = msg\<rparr>]), d, []))) \<and>
    (\<forall>a. payload_amount pl = Some a \<and> \<not> f64_less a EXISTENTIAL_DEPOSIT \<and> payload_currency pl = None \<longrightarrow>
      order_route D shw k1 k2 evs oid (Some pl) d =
        ((400, InvalidBody [\<lparr>parameter = ''currency'', message = ''parameter wasn't found''\<rparr>]), d, [])) \<and>
    (\<forall>a c. payload_amount pl = Some a \<and> \<not> f64_less a EXISTENTIAL_DEPOSIT \<and>
        payload_currency pl = Some c \<and> currencies d c = None \<longrightarrow>
      order_route D shw k1 k2 evs oid (Some pl) d =
        ((400, InvalidBody [\<lparr>parameter = ''currency'', message = ''provided currency isn't supported''\<rparr>]),
         d, []))"
  using assms by (auto simp: order_route_def process_order_def handle_supported_eq AMOUNT_def CURRENCY_def)

theorem invalid_orders_rejected_witness:
  "fst (order_route toy_env (\<lambda>_. ''0.07'') sample_tick sample_tick [] ''a''
      (Some \<lparr>payload_amount = Some (Finite 2), payload_currency = Some ''BTC'', payload_callback = None\<rparr>)
      (toy_daemon [])) =
    (400, InvalidBody [\<lparr>parameter = ''currency'', message = ''provided currency isn't supported''\<rparr>])"
proof -
  have "\<not> f64_less (Finite 2) EXISTENTIAL_DEPOSIT" by (simp add: EXISTENTIAL_DEPOSIT_def)
  with invalid_orders_rejected [of "toy_daemon []" "\<lparr>payload_amount = Some (Finite 2),
      payload_currency = Some ''BTC'', payload_callback = None\<rparr>" toy_env "\<lambda>_. ''0.07''"]
  show ?thesis by simp
qed

text \<open>C13. What the status codes tell of the order book, whatever else the daemon serves meanwhile: 201 means
  the order was unknown and is now recorded as pending, for the requested amount, with its
  watcher told; 409 means it is recorded as paid; 404 means it is not recorded.\<close>

theorem status_codes_tell_the_book:
  assumes "daemon_inv D contents d"
    and "order_route D shw k1 k2 evs oid payload d = ((code, body), d', out)"
  shows "(code = 201 \<longrightarrow> (\<exists>x pl n a. ledger_in D contents d oid = None \<and>
      ledger_in D contents d' oid = Some x \<and> payment_status x = Pending \<and>
      payload = Some pl \<and> payload_amount pl = Some (order_amount x) \<and>
      \<not> f64_less (order_amount x) EXISTENTIAL_DEPOSIT \<and>
      (n, TrackWatch a) \<in> set out \<and> inv_id (watch_invoice a) = oid)) \<and>
    (code = 409 \<longrightarrow> (\<exists>x. ledger_in D contents d' oid = Some x \<and> payment_status x = Paid)) \<and>
    (code = 404 \<longrightarrow> ledger_in D contents d' oid = None)"
proof -
  obtain res where po: "process_order D k1 k2 evs oid payload d = (res, d', out)"
    and http: "order_http shw res = (code, body)"
    using assms(2) by (auto simp: order_route_def split: prod.splits)
  show ?thesis
  proof (cases res)
    case (Inl e)
    with http show ?thesis by (cases e) auto
  next
    case (Inr r)
    from process_order_tells [OF assms(1) po [unfolded Inr]] http Inr show ?thesis
      by (cases r) auto
  qed
qed

theorem status_codes_tell_the_book_witness:
  "fst (fst (order_route toy_env (\<lambda>_. ''0.07'') sample_tick sample_tick [] ''b'' None (toy_daemon []))) = 404 \<and>
    db_view mem_env map_of (db (fst (snd (order_route toy_env (\<lambda>_. ''0.07'') sample_tick sample_tick []
      ''b'' None (toy_daemon []))))) ''b'' = None"
proof -
  let ?r = "order_route toy_env (\<lambda>_. ''0.07'') sample_tick sample_tick [] ''b'' None (toy_daemon [])"
  have "?r = ((404, snd (fst ?r)), fst (snd ?r), snd (snd ?r))"
    by (simp add: order_route_def process_order_def handle_status_eq get_invoice_status_def
        call_read_order_eq read_order_def call_then_def db_get_def call_map_err_def mem_state_def)
  from status_codes_tell_the_book [OF toy_daemon_inv this] this show ?thesis
    by (metis (no_types) fst_conv toy_env_simps(1))
qed

end
