(* ===== verification/Shutdown.thy ===== *)
theory Shutdown
  imports Errors
begin

text \<open>
  How the daemon ends: the shutdown notification, the panic hook and its message
  (\<open>src/shutdown.rs\<close>), the task tracker that collects the errors of the tasks
  (\<open>src/task_tracker.rs\<close>) and the exit code of \<open>src/main.rs\<close>.
\<close>

section \<open>The notification and the panic hook\<close>

datatype shutdown_reason = UserRequested | UnrecoverableError

record notification =
  token :: bool
  reason :: shutdown_reason

definition notification_new :: notification where
  "notification_new = \<lparr>token = False, reason = UserRequested\<rparr>"

definition is_ignited :: "notification \<Rightarrow> bool" where
  "is_ignited n = token n"

definition ignite_shutdown :: "notification \<Rightarrow> notification" where
  "ignite_shutdown n = n\<lparr>reason := UnrecoverableError, token := True\<rparr>"

definition CARGO_PKG_REPOSITORY :: string where
  "CARGO_PKG_REPOSITORY = ''https://github.com/Alzymologist/Kalatori-backend''"

text \<open>The message: the location if known, the panic's message if it is a string, and the request to
  report the bug when \<open>first\<close>.\<close>

definition pretty_panic :: "string option \<Rightarrow> string option \<Rightarrow> bool \<Rightarrow> string" where
  "pretty_panic location payload first =
     ''A panic detected'' @
     (case location of Some l \<Rightarrow> '' at '' @ l | None \<Rightarrow> []) @
     (case payload of Some m \<Rightarrow> '':'' @ newline @ ''    '' @ m | None \<Rightarrow> []) @ ''.'' @
     (if first then newline @ newline @ ''This is a bug. Please report it at '' @
        CARGO_PKG_REPOSITORY @ ''/issues.'' else [])"

definition panic_hook ::
    "string option \<Rightarrow> string option \<Rightarrow> notification \<Rightarrow> string \<times> notification" where
  "panic_hook location payload n =
     (let (first, n') = (case reason n of
        UserRequested \<Rightarrow> (False, n)
      | UnrecoverableError \<Rightarrow> (True, n\<lparr>reason := UnrecoverableError\<rparr>))
      in (pretty_panic location payload first, n'\<lparr>token := True\<rparr>))"

section \<open>The task tracker\<close>

text \<open>A finished task logs its message or sends its error to the tracker.\<close>

definition task_finished :: "string \<Rightarrow> error + string \<Rightarrow> (string \<times> error) option" where
  "task_finished name result = (case result of Inr _ \<Rightarrow> None | Inl e \<Rightarrow> Some (name, e))"

text \<open>What the tracker sees while it waits: the next error of a task, the user's signal (the listener
  cancels the token) or a panic of some task (the hook runs).\<close>

datatype wait_event =
    TaskFailed string error
  | UserSignal
  | TaskPanics "string option" "string option"

text \<open>
  \<open>aborts\<close> tells whether a panic of a task ends the process (\<open>None\<close>) instead of unwinding that one
  task. The release profile of \<open>Cargo.toml\<close> sets \<open>panic = "abort"\<close>; and whatever the profile, the hook
  reads the reason with \<open>blocking_read\<close>, which tokio documents to panic inside the runtime, and a panic
  inside the hook aborts. The other case is what the hook is written for.
\<close>

fun wait_step :: "bool \<Rightarrow> wait_event \<Rightarrow> bool \<times> notification \<Rightarrow> (bool \<times> notification) option" where
  "wait_step aborts (TaskFailed name e) (failed, n) =
     Some (if failed \<or> \<not> is_ignited n then (True, ignite_shutdown n) else (failed, n))"
| "wait_step aborts UserSignal (failed, n) = Some (failed, n\<lparr>token := True\<rparr>)"
| "wait_step aborts (TaskPanics l m) (failed, n) =
     (if aborts then None else Some (failed, snd (panic_hook l m n)))"

fun wait_loop :: "bool \<Rightarrow> wait_event list \<Rightarrow> bool \<Rightarrow> notification \<Rightarrow> notification option" where
  "wait_loop aborts [] failed n = Some n"
| "wait_loop aborts (ev # evs) failed n = (case wait_step aborts ev (failed, n) of
     None \<Rightarrow> None | Some (failed', n') \<Rightarrow> wait_loop aborts evs failed' n')"

definition wait_with_notification ::
    "bool \<Rightarrow> wait_event list \<Rightarrow> notification \<Rightarrow> shutdown_reason option" where
  "wait_with_notification aborts evs n = map_option reason (wait_loop aborts evs False n)"

section \<open>The signal listener and the end of \<open>async_try_main\<close>\<close>

text \<open>The listener awaits the first signal or the cancellation, then the end of the shutdown or the
  second signal. The tip it prints after 30 seconds has no effect.\<close>

datatype listener_phase = AwaitSignal | AwaitCompletion

text \<open>A signal comes with an error when the handler of the signal could not be installed.\<close>

datatype main_event =
    Failed string error
  | Panicked "string option" "string option"
  | Signal "foreign_error option"
  | ListenerWakes
  | TrackerDone

datatype daemon_end = Exits "error + shutdown_reason" | Aborts

record main_state =
  listener :: listener_phase
  has_failed :: bool
  notice :: notification
  tracker_done :: bool

definition main_start :: main_state where
  "main_start = \<lparr>listener = AwaitSignal, has_failed = False, notice = notification_new,
     tracker_done = False\<rparr>"

definition main_wait :: "bool \<Rightarrow> wait_event \<Rightarrow> main_state \<Rightarrow> daemon_end + main_state" where
  "main_wait aborts ev s = (case wait_step aborts ev (has_failed s, notice s) of
     None \<Rightarrow> Inl Aborts | Some (failed, n) \<Rightarrow> Inr (s\<lparr>has_failed := failed, notice := n\<rparr>))"

text \<open>The listener passes to its second wait, which is over at once when the tracker is done.\<close>

definition listener_second :: "main_state \<Rightarrow> daemon_end + main_state" where
  "listener_second s = (if tracker_done s then Inl (Exits (Inr (reason (notice s))))
     else Inr (s\<lparr>listener := AwaitCompletion\<rparr>))"

fun main_step :: "bool \<Rightarrow> main_event \<Rightarrow> main_state \<Rightarrow> daemon_end + main_state" where
  "main_step aborts (Failed name e) s = main_wait aborts (TaskFailed name e) s"
| "main_step aborts (Panicked l m) s = main_wait aborts (TaskPanics l m) s"
| "main_step aborts (Signal (Some e)) s = Inl (Exits (Inl (ShutdownSignal e)))"
| "main_step aborts (Signal None) s = (case listener s of
     AwaitSignal \<Rightarrow> listener_second (s\<lparr>notice := (notice s)\<lparr>token := True\<rparr>\<rparr>)
   | AwaitCompletion \<Rightarrow> Inl Aborts)"
| "main_step aborts ListenerWakes s =
     (if listener s = AwaitSignal \<and> token (notice s) then listener_second s else Inr s)"
| "main_step aborts TrackerDone s = (case listener s of
     AwaitSignal \<Rightarrow> Inr (s\<lparr>tracker_done := True\<rparr>)
   | AwaitCompletion \<Rightarrow> Inl (Exits (Inr (reason (notice s)))))"

text \<open>\<open>None\<close>: the daemon still runs.\<close>

fun main_loop :: "bool \<Rightarrow> main_event list \<Rightarrow> main_state \<Rightarrow> daemon_end option" where
  "main_loop aborts [] s = None"
| "main_loop aborts (ev # evs) s = (case main_step aborts ev s of
     Inl e \<Rightarrow> Some e | Inr s' \<Rightarrow> main_loop aborts evs s')"

section \<open>The exit code\<close>

datatype exit_code = SUCCESS | FAILURE

definition main_exit :: "error + shutdown_reason \<Rightarrow> exit_code" where
  "main_exit result = (case result of
     Inr UserRequested \<Rightarrow> SUCCESS
   | Inr UnrecoverableError \<Rightarrow> FAILURE
   | Inl _ \<Rightarrow> FAILURE)"

section \<open>Lemmas\<close>

lemma ignite_shutdown_simps [simp]:
  "reason (ignite_shutdown n) = UnrecoverableError" "token (ignite_shutdown n) = True"
  by (simp_all add: ignite_shutdown_def)

lemma panic_hook_simps [simp]:
  "reason (snd (panic_hook l m n)) = reason n" "token (snd (panic_hook l m n)) = True"
  by (simp_all add: panic_hook_def Let_def split: shutdown_reason.split)

text \<open>Whether some task panics.\<close>

definition panics :: "wait_event list \<Rightarrow> bool" where
  "panics evs = list_ex (\<lambda>ev. case ev of TaskPanics _ _ \<Rightarrow> True | _ \<Rightarrow> False) evs"

lemma panics_simps [simp]:
  "\<not> panics []" "panics (TaskFailed name e # evs) = panics evs" "panics (UserSignal # evs) = panics evs"
  "panics (TaskPanics l m # evs)"
  by (simp_all add: panics_def)

lemma wait_loop_aborted: "wait_loop aborts evs failed n = None \<longleftrightarrow> aborts \<and> panics evs"
proof (induction evs arbitrary: failed n)
  case (Cons ev evs)
  then show ?case by (cases ev) auto
qed simp

lemma wait_loop_unrecoverable:
  "reason n = UnrecoverableError \<Longrightarrow> map_option reason (wait_loop aborts evs failed n) =
     (if aborts \<and> panics evs then None else Some UnrecoverableError)"
proof (induction evs arbitrary: failed n)
  case (Cons ev evs)
  then show ?case by (cases ev) auto
qed simp

text \<open>What the hook does, in one line: the request to report goes only with a panic that follows a
  recorded error, and the reason is never changed.\<close>

lemma panic_hook_eq:
  "panic_hook l m n = (pretty_panic l m (reason n = UnrecoverableError), n\<lparr>token := True\<rparr>)"
  by (cases n; cases "reason n") (simp_all add: panic_hook_def)

text \<open>Once the token is cancelled without a recorded failure, nothing sets the reason any more.\<close>

lemma wait_loop_ignited:
  "token n \<Longrightarrow> map_option reason (wait_loop aborts evs False n) =
     (if aborts \<and> panics evs then None else Some (reason n))"
proof (induction evs arbitrary: n)
  case (Cons ev evs)
  show ?case
  proof (cases ev)
    case (TaskPanics l m)
    with Cons.prems Cons.IH [of "snd (panic_hook l m n)"] show ?thesis by (cases aborts) simp_all
  qed (use Cons in \<open>simp_all add: is_ignited_def\<close>)
qed simp

text \<open>The first event that has the daemon shut down.\<close>

fun is_cause :: "main_event \<Rightarrow> bool" where
  "is_cause (Failed name e) = True"
| "is_cause (Panicked l m) = True"
| "is_cause (Signal None) = True"
| "is_cause (Signal (Some e)) = False"
| "is_cause ListenerWakes = False"
| "is_cause TrackerDone = False"

definition first_cause :: "main_event list \<Rightarrow> main_event option" where
  "first_cause evs = find is_cause evs"

lemma first_cause_simps [simp]:
  "first_cause [] = None" "is_cause ev \<Longrightarrow> first_cause (ev # evs) = Some ev"
  "\<not> is_cause ev \<Longrightarrow> first_cause (ev # evs) = first_cause evs"
  by (simp_all add: first_cause_def)

lemmas main_defs = main_wait_def listener_second_def is_ignited_def

lemma main_step_on:
  assumes "main_step aborts ev s = Inr s'" and "listener s = AwaitCompletion \<longrightarrow> token (notice s)"
  shows "(listener s' = AwaitCompletion \<longrightarrow> token (notice s')) \<and>
    (token (notice s') \<longleftrightarrow> token (notice s) \<or> is_cause ev) \<and>
    (reason (notice s) = UnrecoverableError \<longrightarrow> reason (notice s') = UnrecoverableError) \<and>
    (\<not> has_failed s \<longrightarrow> (if token (notice s) \<or> \<not> (\<exists>name e. ev = Failed name e)
      then \<not> has_failed s' \<and> reason (notice s') = reason (notice s)
      else reason (notice s') = UnrecoverableError))"
  using assms
  by (cases "(aborts, ev, s)" rule: main_step.cases)
    (auto simp: main_defs split: if_splits listener_phase.splits)

lemma main_step_ends:
  assumes "main_step aborts ev s = Inl how" and "listener s = AwaitCompletion \<longrightarrow> token (notice s)"
  shows "case how of Exits (Inr r) \<Rightarrow> r = reason (notice s) \<and> (token (notice s) \<or> ev = Signal None)
    | Exits (Inl e) \<Rightarrow> (\<exists>io. e = ShutdownSignal io \<and> ev = Signal (Some io))
    | Aborts \<Rightarrow> aborts \<and> (\<exists>l m. ev = Panicked l m) \<or> ev = Signal None \<and> token (notice s)"
  using assms
  by (cases "(aborts, ev, s)" rule: main_step.cases)
    (auto simp: main_defs split: if_splits listener_phase.splits)

lemma main_loop_exits:
  assumes "main_loop aborts evs s = Some (Exits (Inr r))"
    and "listener s = AwaitCompletion \<longrightarrow> token (notice s)"
  shows "(reason (notice s) = UnrecoverableError \<longrightarrow> r = UnrecoverableError) \<and>
    (reason (notice s) = UserRequested \<and> \<not> has_failed s \<longrightarrow>
      (r = UnrecoverableError \<longleftrightarrow>
        \<not> token (notice s) \<and> (\<exists>name e. first_cause evs = Some (Failed name e))))"
  using assms
proof (induction aborts evs s rule: main_loop.induct)
  case (2 aborts ev evs s)
  show ?case
  proof (cases "main_step aborts ev s")
    case (Inl how)
    with 2(2) main_step_ends [OF Inl 2(3)]
    have "r = reason (notice s)" "token (notice s) \<or> ev = Signal None" by auto
    then show ?thesis by auto
  next
    case (Inr s')
    from 2(2) Inr have "main_loop aborts evs s' = Some (Exits (Inr r))" by simp
    from 2(1) [OF Inr this] main_step_on [OF Inr 2(3)] show ?thesis
      by (cases ev rule: is_cause.cases) (auto split: if_splits)
  qed
qed simp

lemma main_loop_error:
  "main_loop aborts evs s = Some (Exits (Inl e)) \<Longrightarrow> listener s = AwaitCompletion \<longrightarrow> token (notice s) \<Longrightarrow>
     \<exists>io. e = ShutdownSignal io \<and> Signal (Some io) \<in> set evs"
proof (induction aborts evs s rule: main_loop.induct)
  case (2 aborts ev evs s)
  show ?case
  proof (cases "main_step aborts ev s")
    case (Inl how)
    with 2(2) main_step_ends [OF Inl 2(3)] show ?thesis by auto
  next
    case (Inr s')
    from 2(2) Inr have "main_loop aborts evs s' = Some (Exits (Inl e))" by simp
    from 2(1) [OF Inr this] main_step_on [OF Inr 2(3)] show ?thesis by auto
  qed
qed simp

lemma main_loop_aborts:
  assumes "main_loop aborts evs s = Some Aborts"
    and "listener s = AwaitCompletion \<longrightarrow> token (notice s)"
  shows "(aborts \<and> (\<exists>l m. Panicked l m \<in> set evs)) \<or>
    (\<exists>pre post. evs = pre @ Signal None # post \<and> (token (notice s) \<or> first_cause pre \<noteq> None))"
  using assms
proof (induction aborts evs s rule: main_loop.induct)
  case (2 aborts ev evs s)
  show ?case
  proof (cases "main_step aborts ev s")
    case (Inl how)
    with 2(2) main_step_ends [OF Inl 2(3)]
    have "aborts \<and> (\<exists>l m. ev = Panicked l m) \<or> ev = Signal None \<and> token (notice s)" by simp
    then show ?thesis by fastforce
  next
    case (Inr s')
    from 2(2) Inr have run: "main_loop aborts evs s' = Some Aborts" by simp
    note on = main_step_on [OF Inr 2(3)]
    from 2(1) [OF Inr run conjunct1 [OF on]] show ?thesis
    proof (elim disjE exE conjE)
      fix pre post
      assume evs: "evs = pre @ Signal None # post" and "token (notice s')"
      with on have "token (notice s) \<or> first_cause (ev # pre) \<noteq> None" by auto
      with evs show ?thesis by (metis append_Cons)
    next
      fix pre post
      assume evs: "evs = pre @ Signal None # post" and "first_cause pre \<noteq> None"
      then have "first_cause (ev # pre) \<noteq> None" by (cases "is_cause ev") auto
      with evs show ?thesis by (metis append_Cons)
    qed auto
  qed
qed simp

lemma main_start_simps [simp]: "listener main_start = AwaitSignal" "\<not> has_failed main_start"
  "\<not> token (notice main_start)" "reason (notice main_start) = UserRequested" "\<not> tracker_done main_start"
  by (simp_all add: main_start_def notification_new_def)

section \<open>Properties\<close>

text \<open>C40. How a daemon that came up ends. With success or failure according to the first thing that had it
  shut down: the exit is a failure exactly when that was the error of a task, and a success when it was
  the user's signal (or a panic that unwound), whatever failed afterwards. With the error of the signal
  handler only when that could not be installed. By an abort only after a panic that aborts or by
  a signal of the user when the shutdown had a cause already.\<close>

theorem exit_tells_first_cause:
  assumes "main_loop aborts evs main_start = Some how"
  shows "(\<forall>r. how = Exits (Inr r) \<longrightarrow>
      main_exit (Inr r) = (if \<exists>name e. first_cause evs = Some (Failed name e) then FAILURE else SUCCESS)) \<and>
    (\<forall>e. how = Exits (Inl e) \<longrightarrow> (\<exists>io. e = ShutdownSignal io \<and> Signal (Some io) \<in> set evs)) \<and>
    (how = Aborts \<longrightarrow> aborts \<and> (\<exists>l m. Panicked l m \<in> set evs) \<or>
      (\<exists>pre post. evs = pre @ Signal None # post \<and> first_cause pre \<noteq> None))"
proof (intro conjI allI impI)
  fix r assume "how = Exits (Inr r)"
  with main_loop_exits [of aborts evs main_start r] assms
  have "r = UnrecoverableError \<longleftrightarrow> (\<exists>name e. first_cause evs = Some (Failed name e))"
    by simp
  then show "main_exit (Inr r) =
      (if \<exists>name e. first_cause evs = Some (Failed name e) then FAILURE else SUCCESS)"
    by (cases r) (auto simp: main_exit_def)
next
  fix e assume "how = Exits (Inl e)"
  with main_loop_error [of aborts evs main_start e] assms show "\<exists>io. e = ShutdownSignal io \<and> Signal (Some io) \<in> set evs" by simp
next
  assume "how = Aborts"
  with main_loop_aborts [of aborts evs main_start] assms
  show "aborts \<and> (\<exists>l m. Panicked l m \<in> set evs) \<or>
      (\<exists>pre post. evs = pre @ Signal None # post \<and> first_cause pre \<noteq> None)"
    by auto
qed

theorem exit_tells_first_cause_witness:
  "main_exit (Inr UserRequested) = SUCCESS \<and>
   main_loop True [Signal None, Failed ''the server module'' Fatal, TrackerDone] main_start =
     Some (Exits (Inr UserRequested))"
proof -
  have run: "main_loop True [Signal None, Failed ''the server module'' Fatal, TrackerDone] main_start =
      Some (Exits (Inr UserRequested))"
    by (simp add: main_defs)
  from exit_tells_first_cause [OF this] run show ?thesis by simp
qed

text \<open>The daemon, once started, ends by an abort exactly when the build aborts on panics and a task
  panics. Otherwise it exits with a failure exactly when the very first thing to happen to it is
  the error of a task: when the user's signal (or a panic of a build that unwinds) comes first,
  the exit is a success, whatever fails afterwards.\<close>

theorem exit_failure_iff_first_is_error:
  "map_option (\<lambda>r. main_exit (Inr r)) (wait_with_notification aborts evs notification_new) =
     (if aborts \<and> panics evs then None
      else Some (if \<exists>name e rest. evs = TaskFailed name e # rest then FAILURE else SUCCESS))"
proof (cases evs)
  case Nil
  then show ?thesis by (simp add: wait_with_notification_def notification_new_def main_exit_def)
next
  case (Cons ev rest)
  then show ?thesis
    by (cases ev)
      (simp_all add: wait_with_notification_def notification_new_def main_exit_def is_ignited_def
        wait_loop_unrecoverable wait_loop_ignited)
qed

end
