(* ===== verification/Server.thy ===== *)
theory Server
  imports Handlers Shutdown
begin

text \<open>
  The web server of \<open>src/server.rs\<close>: its routes, the handlers behind them that
  \<open>src/handlers/health.rs\<close> and \<open>src/handlers/order.rs\<close> leave as stubs, and what a request does to the
  daemon. Matching a path with the patterns and rejecting malformed requests is axum's; both are
  parameters. A handler that panics has no answer.
\<close>

section \<open>The other handlers\<close>

datatype http_reply =
    OrderAnswer http_response
  | StatusAnswer "(string \<times> string) list" server_status
  | BareStatus nat

text \<open>The state's \<open>force_withdrawal\<close> is a \<open>todo!()\<close>: it panics on every order.\<close>

definition handle_force_withdrawal :: "string \<Rightarrow> (order_status + order_status) option" where
  "handle_force_withdrawal order = None"

definition process_force_withdrawal ::
    "string \<Rightarrow> (force_withdrawal_error + order_status) option" where
  "process_force_withdrawal order_id =
     map_option (map_err WithdrawalError) (handle_force_withdrawal order_id)"

definition force_withdrawal_route :: "string \<Rightarrow> http_reply option" where
  "force_withdrawal_route order_id =
     map_option (\<lambda>r. OrderAnswer (force_withdrawal_http r)) (process_force_withdrawal order_id)"

definition health_route :: "http_reply option" where
  "health_route = None"

definition audit_route :: "http_reply option" where
  "audit_route = Some (BareStatus 501)"

definition investigate_route :: "string \<Rightarrow> http_reply option" where
  "investigate_route order_id = Some (BareStatus 501)"

definition public_payment_account :: "http_reply option" where
  "public_payment_account = None"

section \<open>The routes\<close>

datatype http_method = GET | HEAD | POST | OtherMethod string

datatype endpoint =
    OrderEndpoint
  | ForceWithdrawalEndpoint
  | StatusEndpoint
  | HealthEndpoint
  | AuditEndpoint
  | InvestigateEndpoint
  | PaymentEndpoint

definition v2 :: "(string \<times> http_method \<times> endpoint) list" where
  "v2 = [(''/order/:order_id'', POST, OrderEndpoint),
     (''/order/:order_id/forceWithdrawal'', POST, ForceWithdrawalEndpoint),
     (''/status'', GET, StatusEndpoint),
     (''/health'', GET, HealthEndpoint),
     (''/audit'', GET, AuditEndpoint),
     (''/order/:order_id/investigate'', POST, InvestigateEndpoint)]"

definition app :: "(string \<times> http_method \<times> endpoint) list" where
  "app = (''/public/v2/payment/:paymentAccount'', POST, PaymentEndpoint) #
     map (\<lambda>(p, m, e). (''/v2'' @ p, m, e)) v2"

text \<open>A route of \<open>routing::get\<close> serves HEAD requests too.\<close>

definition serves :: "http_method \<Rightarrow> http_method \<Rightarrow> bool" where
  "serves m m' \<longleftrightarrow> m' = m \<or> (m = GET \<and> m' = HEAD)"

text \<open>
  A request: method and path; the status with which one of the handler's extractors rejects it, if any
  (a path segment or a query that cannot be decoded); the order's payload, if the body is one.
\<close>

record http_request =
  req_method :: http_method
  req_path :: string
  req_rejection :: "nat option"
  req_payload :: "order_payload option"

text \<open>\<open>matchit\<close> picks the pattern that fits a path, with the value of its parameter.\<close>

type_synonym path_matcher = "string list \<Rightarrow> string \<Rightarrow> (string \<times> string) option"

datatype routed = RouteTo endpoint string | Answer nat

definition route_http :: "path_matcher \<Rightarrow> http_request \<Rightarrow> routed" where
  "route_http matchit req = (case matchit (map fst app) (req_path req) of
     None \<Rightarrow> Answer 404
   | Some (pattern, param) \<Rightarrow>
       (case filter (\<lambda>(p, m, e). p = pattern \<and> serves m (req_method req)) app of
          [] \<Rightarrow> Answer 405
        | (_, _, e) # _ \<Rightarrow>
            (case req_rejection req of Some code \<Rightarrow> Answer code | None \<Rightarrow> RouteTo e param)))"

fun serve_endpoint ::
    "('t, 'v, 'p, 'g, 'w) daemon_env \<Rightarrow> (f64 \<Rightarrow> string) \<Rightarrow> db_tick \<Rightarrow> db_tick \<Rightarrow> state_event list
      \<Rightarrow> order_payload option \<Rightarrow> endpoint \<Rightarrow> string \<Rightarrow> 't daemon
      \<Rightarrow> http_reply option \<times> 't daemon \<times> sent" where
  "serve_endpoint D shw k1 k2 evs payload OrderEndpoint param d =
     (case order_route D shw k1 k2 evs param payload d of (r, d', out) \<Rightarrow> (Some (OrderAnswer r), d', out))"
| "serve_endpoint D shw k1 k2 evs payload ForceWithdrawalEndpoint param d =
     (force_withdrawal_route param, d, [])"
| "serve_endpoint D shw k1 k2 evs payload StatusEndpoint param d =
     (case status_route D k1 d of (r, d') \<Rightarrow> (map_option (\<lambda>(h, s). StatusAnswer h s) r, d', []))"
| "serve_endpoint D shw k1 k2 evs payload HealthEndpoint param d = (health_route, d, [])"
| "serve_endpoint D shw k1 k2 evs payload AuditEndpoint param d = (audit_route, d, [])"
| "serve_endpoint D shw k1 k2 evs payload InvestigateEndpoint param d = (investigate_route param, d, [])"
| "serve_endpoint D shw k1 k2 evs payload PaymentEndpoint param d = (public_payment_account, d, [])"

definition serve_http ::
    "('t, 'v, 'p, 'g, 'w) daemon_env \<Rightarrow> (f64 \<Rightarrow> string) \<Rightarrow> path_matcher \<Rightarrow> db_tick \<Rightarrow> db_tick
      \<Rightarrow> state_event list \<Rightarrow> http_request \<Rightarrow> 't daemon \<Rightarrow> http_reply option \<times> 't daemon \<times> sent" where
  "serve_http D shw matchit k1 k2 evs req d = (case route_http matchit req of
     Answer code \<Rightarrow> (Some (BareStatus code), d, [])
   | RouteTo e param \<Rightarrow> serve_endpoint D shw k1 k2 evs (req_payload req) e param d)"

text \<open>How the tracker sees the requests that were served: those that panicked are panics of the process.\<close>

definition http_panics :: "string option \<Rightarrow> http_reply option \<Rightarrow> wait_event list" where
  "http_panics msg reply = (if reply = None then [TaskPanics None msg] else [])"

section \<open>Lemmas\<close>

lemmas stub_defs = force_withdrawal_route_def process_force_withdrawal_def handle_force_withdrawal_def
  health_route_def audit_route_def investigate_route_def public_payment_account_def

lemma status_route_None: "fst (status_route D k d) = None \<longleftrightarrow> handler d \<noteq> HandlerRuns"
  by (auto simp: status_route_def handle_server_status_def deliver_def)

lemma status_route_keeps: "snd (status_route D k d) = d"
  by (auto simp: status_route_def handle_server_status_def deliver_def)

lemma serve_endpoint_None: "fst (serve_endpoint D shw k1 k2 evs payload e param d) = None \<longleftrightarrow>
    e \<in> {ForceWithdrawalEndpoint, HealthEndpoint, PaymentEndpoint} \<or>
    e = StatusEndpoint \<and> handler d \<noteq> HandlerRuns"
  using status_route_None [of D k1 d] by (cases e) (auto simp: stub_defs split: prod.split)

lemma process_order_evolves:
  assumes "daemon_inv D contents d" and "process_order D k1 k2 evs oid payload d = (r, d', out)"
  shows "daemon_inv D contents d' \<and> ledger_le (ledger_in D contents d) (ledger_in D contents d')"
proof (cases payload)
  case None
  obtain r1 d1 where st: "get_invoice_status D k1 oid d = (r1, d1)" by fastforce
  from assms(2) None st have "d' = d \<or> d' = d1"
    by (auto simp: process_order_def handle_status_eq split: if_splits)
  with assms(1) get_invoice_status_evolves [OF assms(1) st] show ?thesis by auto
next
  case (Some pl)
  obtain rs d2 out2 where run: "state_run D evs d = (rs, d2, out2)" by (metis prod_cases3)
  note run_ok = state_run_evolves [OF assms(1) run]
  from assms(2) Some run consider "d' = d" | "d' = d2"
    | q r3 out3 where "create_invoice D k2 q d2 = (r3, d', out3)"
    by (auto simp: process_order_def handle_supported_eq handle_create_eq
        split: option.splits if_splits prod.splits)
  then show ?thesis
  proof cases
    case 3
    from create_invoice_evolves [OF conjunct1 [OF run_ok] this] run_ok show ?thesis
      using ledger_le_trans by blast
  qed (use assms(1) run_ok in auto)
qed

section \<open>The server's task\<close>

text \<open>\<open>new\<close> binds the socket before it hands out the task, which serves until the cancellation has been seen or
  serving fails (\<open>axum::serve\<close>, a parameter).\<close>

definition server_new :: "(string \<Rightarrow> bool) \<Rightarrow> string \<Rightarrow> server_error + (string \<times> http_method \<times> endpoint) list" where
  "server_new bind host = (if bind host then Inr app else Inl (TcpListenerBind host))"

definition server_task :: "(foreign_error + unit) \<Rightarrow> error + string" where
  "server_task served = (case served of
     Inl _ \<Rightarrow> Inl (ErrServer ThreadError) | Inr _ \<Rightarrow> Inr ''The server module is shut down.'')"

text \<open>A server that cannot go on takes the daemon with it: unless a signal or a panic is seen before, the exit is a
  failure; one that ends after the cancellation leaves nothing behind.\<close>

lemma server_failure_ends:
  "wait_with_notification aborts (case task_finished ''the server module'' (server_task (Inl e)) of
     Some (name, err) \<Rightarrow> TaskFailed name err # later | None \<Rightarrow> later) notification_new \<noteq> Some UserRequested"
  by (simp add: task_finished_def server_task_def wait_with_notification_def notification_new_def is_ignited_def
      wait_loop_unrecoverable)

lemma server_end_silent: "task_finished ''the server module'' (server_task (Inr ())) = None"
  by (simp add: task_finished_def server_task_def)

section \<open>The callback to the shop\<close>

text \<open>
  \<open>callback\<close> of \<open>src/callback.rs\<close>, which nothing calls yet: one blocking POST of the order's status by the
  \<open>ureq\<close> client (\<open>send_json\<close>, a parameter). Its answer is unwrapped in the blocking task, and the task's in the
  caller, so that a failure panics twice.
\<close>

definition callback ::
    "(string \<Rightarrow> order_status \<Rightarrow> 'w \<Rightarrow> (foreign_error + unit) \<times> 'w) \<Rightarrow> string option \<Rightarrow> string option
      \<Rightarrow> string \<Rightarrow> order_status \<Rightarrow> 'w \<Rightarrow> wait_event list \<times> 'w" where
  "callback send_json inner outer path st w = (case send_json path st w of
     (Inr _, w') \<Rightarrow> ([], w')
   | (Inl _, w') \<Rightarrow> ([TaskPanics None inner, TaskPanics None outer], w'))"

text \<open>Called as it is, it would let a shop end the daemon: an answer that is an error ends one whose build aborts
  on panics.\<close>

lemma callback_failure_aborts:
  assumes "send_json path st w = (Inl e, w')"
  shows "wait_with_notification True (before @ fst (callback send_json inner outer path st w) @ later) n = None"
  by (simp add: callback_def assms wait_with_notification_def wait_loop_aborted panics_def)

text \<open>Requests in miniature, and a matcher that knows the patterns of the status and the health check.\<close>

definition toy_matchit :: path_matcher where
  "toy_matchit patterns path = Some (if path = ''/v2/status'' then (''/v2/status'', '''')
     else (''/v2/health'', ''''))"

definition toy_get :: "string \<Rightarrow> http_request" where
  "toy_get path = \<lparr>req_method = GET, req_path = path, req_rejection = None, req_payload = None\<rparr>"

lemma toy_routed_http: "route_http toy_matchit (toy_get ''/v2/status'') = RouteTo StatusEndpoint ''''"
  "route_http toy_matchit (toy_get ''/v2/health'') = RouteTo HealthEndpoint ''''"
  by (simp_all add: route_http_def toy_matchit_def toy_get_def app_def v2_def serves_def)

section \<open>Properties\<close>

text \<open>No HTTP request harms the order book: whatever is requested, an order stays recorded and a paid one
  stays as it is; and a request that is not routed to the order handler changes no component at all.\<close>

theorem http_keeps_book:
  assumes "daemon_inv D contents d"
    and "serve_http D shw matchit k1 k2 evs req d = (reply, d', out)"
  shows "daemon_inv D contents d' \<and> ledger_le (ledger_in D contents d) (ledger_in D contents d') \<and>
    ((\<exists>param. route_http matchit req = RouteTo OrderEndpoint param) \<or> d' = d \<and> out = [])"
proof (cases "route_http matchit req")
  case (RouteTo e param)
  show ?thesis
  proof (cases "e = OrderEndpoint")
    case True
    with assms(2) RouteTo obtain r where "process_order D k1 k2 evs param (req_payload req) d = (r, d', out)"
      by (auto simp: serve_http_def order_route_def split: prod.splits)
    from process_order_evolves [OF assms(1) this] RouteTo True show ?thesis by blast
  next
    case False
    with assms(2) RouteTo status_route_keeps [of D k1 d] have "d' = d \<and> out = []"
      by (cases e) (auto simp: serve_http_def split: prod.splits)
    with assms(1) show ?thesis by simp
  qed
qed (use assms in \<open>simp add: serve_http_def\<close>)

theorem http_keeps_book_witness:
  "\<exists>out. serve_http toy_env (\<lambda>_. ''0.07'') (\<lambda>_ _. None) sample_tick sample_tick []
     (toy_get ''/v1'') (toy_daemon []) = (Some (BareStatus 404), toy_daemon [], out) \<and> out = []"
proof -
  obtain reply d out where run: "serve_http toy_env (\<lambda>_. ''0.07'') (\<lambda>_ _. None) sample_tick sample_tick []
      (toy_get ''/v1'') (toy_daemon []) = (reply, d, out)" by (metis prod_cases3)
  moreover have route: "route_http (\<lambda>_ _. None) (toy_get ''/v1'') = Answer 404" by (simp add: route_http_def)
  ultimately have "d = toy_daemon [] \<and> out = []"
    using http_keeps_book [OF toy_daemon_inv run] by auto
  moreover have "reply = Some (BareStatus 404)" using run route by (simp add: serve_http_def)
  ultimately show ?thesis using run by blast
qed

text \<open>C14. The requests that panic are exactly those routed to the forced withdrawal, the health check and the
  payment page, and the status request once the state handler is gone. In a build that aborts on a
  panic each of them ends the daemon, whatever came before and whatever would follow.\<close>

theorem panicking_requests:
  "(fst (serve_http D shw matchit k1 k2 evs req d) = None \<longleftrightarrow>
     (\<exists>e param. route_http matchit req = RouteTo e param \<and>
       e \<in> {ForceWithdrawalEndpoint, HealthEndpoint, PaymentEndpoint} \<union>
         (if handler d = HandlerRuns then {} else {StatusEndpoint}))) \<and>
   (wait_with_notification True (before @ http_panics m (fst (serve_http D shw matchit k1 k2 evs req d)) @ later) n
      = (if fst (serve_http D shw matchit k1 k2 evs req d) = None then None
         else wait_with_notification True (before @ later) n))"
proof
  show "fst (serve_http D shw matchit k1 k2 evs req d) = None \<longleftrightarrow>
     (\<exists>e param. route_http matchit req = RouteTo e param \<and>
       e \<in> {ForceWithdrawalEndpoint, HealthEndpoint, PaymentEndpoint} \<union>
         (if handler d = HandlerRuns then {} else {StatusEndpoint}))"
    by (cases "route_http matchit req")
      (auto simp: serve_http_def serve_endpoint_None split: if_splits)
next
  have "panics (before @ http_panics m reply @ later) = (reply = None \<or> panics (before @ later))"
    for reply :: "http_reply option"
    by (auto simp: panics_def http_panics_def)
  moreover have "http_panics m (Some a) = []" for a by (simp add: http_panics_def)
  ultimately show "wait_with_notification True
      (before @ http_panics m (fst (serve_http D shw matchit k1 k2 evs req d)) @ later) n =
    (if fst (serve_http D shw matchit k1 k2 evs req d) = None then None
     else wait_with_notification True (before @ later) n)"
    by (cases "fst (serve_http D shw matchit k1 k2 evs req d)")
      (simp_all add: wait_with_notification_def wait_loop_aborted)
qed

theorem panicking_requests_witness:
  "fst (serve_http toy_env (\<lambda>_. ''0.07'') toy_matchit sample_tick sample_tick []
     (toy_get ''/v2/health'') (toy_daemon [])) = None"
  using panicking_requests [where D = toy_env and d = "toy_daemon []" and matchit = toy_matchit and
      req = "toy_get ''/v2/health''"] toy_routed_http(2) by auto

text \<open>C15. One client that goes away while it waits for an answer, and one status request after it, end the
  daemon of a build that aborts on a panic, whatever else happens: the first ends the state handler,
  which the status handler answers with a panic.\<close>

theorem disconnect_then_status_aborts:
  assumes "handler d = HandlerRuns"
    and "(\<exists>order. rq = SGetInvoiceStatus order) \<or> (\<exists>q. rq = SCreateInvoice q) \<or>
      (\<exists>c. rq = SIsCurrencySupported c) \<or> rq = SServerStatus"
    and "on_event D (Request k False rq) d = (r, d', out)"
    and "route_http matchit req = RouteTo StatusEndpoint param"
  shows "wait_with_notification True
    (before @ http_panics m (fst (serve_http D shw matchit k1 k2 evs req d')) @ later) n = None"
proof -
  have "handler d' = HandlerFailed Fatal"
    using assms(1-3) by (auto simp: deliver_def split: prod.splits)
  then have "fst (serve_http D shw matchit k1 k2 evs req d') = None"
    using assms(4) by (simp add: serve_http_def serve_endpoint_None del: serve_endpoint.simps)
  then show ?thesis by (simp add: wait_with_notification_def wait_loop_aborted panics_def http_panics_def)
qed

theorem disconnect_then_status_aborts_witness:
  "wait_with_notification True (http_panics (Some ''db connection is down, state is lost'')
     (fst (serve_http toy_env (\<lambda>_. ''0.07'') toy_matchit sample_tick sample_tick [] (toy_get ''/v2/status'')
       (fst (snd (on_event toy_env (Request sample_tick False SServerStatus) (toy_daemon [])))))))
     notification_new = None"
proof -
  let ?r = "on_event toy_env (Request sample_tick False SServerStatus) (toy_daemon [])"
  have "?r = (fst ?r, fst (snd ?r), snd (snd ?r))" by (simp only: prod.collapse)
  from disconnect_then_status_aborts [OF _ _ this toy_routed_http(1), where before = "[]" and later = "[]"]
  show ?thesis by (simp del: on_event.simps)
qed

end
