(* ===== verification/Startup.thy ===== *)
theory Startup
  imports Kalatori_State Server
begin

text \<open>
  How the daemon starts: the seed variables of the environment and the configuration
  (\<open>src/arguments.rs\<close>), the default log filter (\<open>src/logger.rs\<close>), and the order in which
  \<open>src/main.rs\<close> brings the components up.
\<close>

section \<open>Text of the environment\<close>

text \<open>\<open>str::from_utf8\<close>: whether bytes are well-formed UTF-8 (table 3-7 of the Unicode standard).\<close>

definition between :: "nat \<Rightarrow> nat \<Rightarrow> nat \<Rightarrow> bool" where
  "between lo hi b = (lo \<le> b \<and> b \<le> hi)"

fun utf8 :: "nat list \<Rightarrow> bool" where
  "utf8 [] = True"
| "utf8 (a # bs) =
     (if a < 128 then utf8 bs
      else if between 194 223 a then
        (case bs of b # r \<Rightarrow> between 128 191 b \<and> utf8 r | _ \<Rightarrow> False)
      else if between 224 239 a then
        (case bs of b # c # r \<Rightarrow> between (if a = 224 then 160 else 128) (if a = 237 then 159 else 191) b \<and>
           between 128 191 c \<and> utf8 r | _ \<Rightarrow> False)
      else if between 240 244 a then
        (case bs of b # c # d # r \<Rightarrow> between (if a = 240 then 144 else 128) (if a = 244 then 143 else 191) b \<and>
           between 128 191 c \<and> between 128 191 d \<and> utf8 r | _ \<Rightarrow> False)
      else False)"

definition valid_text :: "string \<Rightarrow> bool" where
  "valid_text s = utf8 (map of_char s)"

section \<open>The seed variables\<close>

definition SEED :: string where
  "SEED = ''KALATORI_SEED''"

definition OLD_SEED :: string where
  "OLD_SEED = ''KALATORI_OLD_SEED_''"

record seed_env_vars =
  seed :: string
  old_seeds :: "(string \<times> string) list"

text \<open>
  The loop over the variables, as the operating system lists them. A variable that is recognised
  is removed from the environment before its value is looked at; \<open>removed\<close> collects the keys.
\<close>

fun parse_vars ::
    "(string \<times> string) list \<Rightarrow> string option \<Rightarrow> (string \<times> string) list \<Rightarrow> string list
      \<Rightarrow> (seed_env_error + seed_env_vars) \<times> string list" where
  "parse_vars [] seed_option olds removed =
     (and_then (ok_or SeedNotPresent seed_option) (\<lambda>s. Inr \<lparr>seed = s, old_seeds = olds\<rparr>), removed)"
| "parse_vars ((raw_key, raw_value) # vars) seed_option olds removed =
     (if raw_key = SEED then
        (if valid_text raw_value then parse_vars vars (Some raw_value) olds (removed @ [raw_key])
         else (Inl (InvalidUnicodeValue SEED), removed @ [raw_key]))
      else (case strip_prefix OLD_SEED raw_key of
          Some stripped \<Rightarrow>
            (if \<not> valid_text stripped then (Inl InvalidUnicodeOldSeedKey, removed @ [raw_key])
             else if \<not> valid_text raw_value then
               (Inl (InvalidUnicodeValue (OLD_SEED @ stripped)), removed @ [raw_key])
             else parse_vars vars seed_option (AList.update stripped raw_value olds) (removed @ [raw_key]))
        | None \<Rightarrow> parse_vars vars seed_option olds removed))"

definition seed_env_parse ::
    "(string \<times> string) list \<Rightarrow> (seed_env_error + seed_env_vars) \<times> string list" where
  "seed_env_parse vars = parse_vars vars None [] []"

text \<open>What is left of the environment.\<close>

definition environment_after :: "(string \<times> string) list \<Rightarrow> (string \<times> string) list" where
  "environment_after vars = filter (\<lambda>(k, _). k \<notin> set (snd (seed_env_parse vars))) vars"

section \<open>The log filter\<close>

definition TARGETS :: "string list" where
  "TARGETS = [''kalatori::callback'', ''kalatori::database'', ''kalatori::chain'',
     ''kalatori::server'', ''kalatori'']"

definition COMMA :: string where "COMMA = '',''"

definition INFO :: string where "INFO = ''=info''"

definition OFF :: string where "OFF = ''off''"

text \<open>\<open>usize::saturating_add\<close> on a 64-bit target.\<close>

definition saturating_add :: "nat \<Rightarrow> nat \<Rightarrow> nat" where
  "saturating_add a b = min (a + b) (2 ^ 64 - 1)"

definition default_filter_capacity :: nat where
  "default_filter_capacity = saturating_add (length OFF)
     (sum_list (map (\<lambda>m. saturating_add (saturating_add (length COMMA) (length m)) (length INFO)) TARGETS))"

fun push_targets :: "string list \<Rightarrow> string \<Rightarrow> string" where
  "push_targets [] flt = flt"
| "push_targets (target # targets) flt = push_targets targets (((flt @ COMMA) @ target) @ INFO)"

definition default_filter :: string where
  "default_filter = push_targets TARGETS OFF"

section \<open>The configuration and the start\<close>

record config =
  account_lifetime :: timestamp
  host :: string
  database_opt :: "string option"
  debug_opt :: "bool option"
  in_memory_db :: bool
  chain_configs :: "chain_config list"

definition DATABASE_DEFAULT :: string where
  "DATABASE_DEFAULT = ''kalatori.db''"

definition database_path :: "config \<Rightarrow> string option" where
  "database_path c = (if in_memory_db c then None
     else Some (case database_opt c of Some p \<Rightarrow> p | None \<Rightarrow> DATABASE_DEFAULT))"

text \<open>\<open>Database::init\<close>: the path that \<open>sled\<close> opens.\<close>

definition opened_path :: "string option \<Rightarrow> string" where
  "opened_path path_option = (case path_option of Some path \<Rightarrow> path | None \<Rightarrow> ''temp.db'')"

text \<open>
  A seed phrase that cannot be read ends the signer's task only: the error travels through the
  task tracker, the start goes on with a signer that answers \<open>SignerDown\<close>.
\<close>

definition start_signer :: "('p, 'g, 'w) crypto_env \<Rightarrow> string \<Rightarrow> signer_state \<times> wait_event list" where
  "start_signer Cr phrase = (case signer_init Cr phrase of
     Inr s \<Rightarrow> (s, [])
   | Inl e \<Rightarrow> (\<lparr>seed_entropy = [], signer_running = False\<rparr>, [TaskFailed ''Signer'' (ErrSigner e)]))"

text \<open>The state handler before its task starts: nothing connected, no currency offered.\<close>

definition initial_daemon ::
    "account \<Rightarrow> bool option \<Rightarrow> string option \<Rightarrow> 't db_state \<Rightarrow> string \<Rightarrow> signer_state \<Rightarrow> 't daemon" where
  "initial_daemon rec dbg remark db0 ident sg =
     \<lparr>currencies = Map.empty, recipient = rec,
      server_info = \<lparr>version = CARGO_PKG_VERSION, instance_id = ident,
        debug = (case dbg of Some b \<Rightarrow> b | None \<Rightarrow> False), kalatori_remark = remark\<rparr>,
      db = db0, chain_manager = None, signer = sg, handler = HandlerRuns\<rparr>"

text \<open>
  \<open>open_db\<close> opens a path and the orders tree in it, with the tree of the server information; \<open>bind\<close> tells
  whether the server's socket can be bound. The lifetime of the accounts comes from the configuration.
\<close>

definition async_try_main ::
    "('t, 'v, 'p, 'g, 'w) daemon_env \<Rightarrow> (string \<Rightarrow> foreign_error + 't \<times> 't) \<Rightarrow> (string \<Rightarrow> bool)
      \<Rightarrow> db_tick \<Rightarrow> string \<Rightarrow> string option \<Rightarrow> config \<Rightarrow> seed_env_vars
      \<Rightarrow> error + ('t daemon \<times> sent \<times> wait_event list)" where
  "async_try_main D open_db bind k recipient_string remark c seeds =
     and_then (map_err RecipientAccount (account_from_base58 (de_crypto D) recipient_string)) (\<lambda>(rec, _).
       (case start_signer (de_crypto D) (seed seeds) of (sg, failed) \<Rightarrow>
         and_then (map_err (\<lambda>e. ErrDb (DbStartError e)) (open_db (opened_path (database_path c)))) (\<lambda>(t, infos).
           (case call_initialize_server_info (de_db D) (account_lifetime c) k
                \<lparr>orders = t, server_infos = infos, serving = True\<rparr> of (r, db0) \<Rightarrow>
             and_then (map_err ErrDb r) (\<lambda>ident.
               and_then (ignite (chain_configs c)) (\<lambda>m.
                 and_then (map_err ErrServer (server_new bind (host c))) (\<lambda>_.
                   case state_start (D\<lparr>de_life := account_lifetime c\<rparr>) k (Some m)
                       (initial_daemon rec (debug_opt c) remark db0 ident sg) of
                     (d, out) \<Rightarrow> Inr (d, out, failed))))))))"

text \<open>
  \<open>try_main\<close> on parsed arguments. The machine it runs on: the filter parser's verdict on log directives, the
  environment, the files, the parser of configurations, the start of the runtime, the database and
  the socket.
\<close>

record cli_args =
  cli_config :: string
  cli_log :: string
  cli_remark :: "string option"
  cli_recipient :: string

definition logger_initialize :: "(string \<Rightarrow> foreign_error option) \<Rightarrow> string \<Rightarrow> error + unit" where
  "logger_initialize filter_error directives = (case filter_error directives of
     Some e \<Rightarrow> Inl (LoggerDirectives directives e) | None \<Rightarrow> Inr ())"

definition config_parse ::
    "(string \<Rightarrow> foreign_error + string) \<Rightarrow> (string \<Rightarrow> foreign_error + config) \<Rightarrow> string
      \<Rightarrow> error + config" where
  "config_parse read_file toml path =
     and_then (map_err (ConfigFileRead path) (read_file path)) (\<lambda>unparsed_config.
       map_err ConfigFileParse (toml unparsed_config))"

record 't machine =
  m_filter_error :: "string \<Rightarrow> foreign_error option"
  m_environment :: "(string \<times> string) list"
  m_read_file :: "string \<Rightarrow> foreign_error + string"
  m_toml :: "string \<Rightarrow> foreign_error + config"
  m_runtime :: "foreign_error + unit"
  m_open_db :: "string \<Rightarrow> foreign_error + 't \<times> 't"
  m_bind :: "string \<Rightarrow> bool"

definition try_main ::
    "('t, 'v, 'p, 'g, 'w) daemon_env \<Rightarrow> 't machine \<Rightarrow> db_tick \<Rightarrow> cli_args
      \<Rightarrow> error + (config \<times> 't daemon \<times> sent \<times> wait_event list)" where
  "try_main D M k args =
     and_then (logger_initialize (m_filter_error M) (cli_log args)) (\<lambda>_.
       and_then (map_err SeedEnv (fst (seed_env_parse (m_environment M)))) (\<lambda>seeds.
         and_then (config_parse (m_read_file M) (m_toml M) (cli_config args)) (\<lambda>c.
           and_then (map_err Runtime (m_runtime M)) (\<lambda>_.
             and_then (async_try_main D (m_open_db M) (m_bind M) k (cli_recipient args) (cli_remark args) c seeds)
               (\<lambda>r. Inr (c, r))))))"

section \<open>Lemmas\<close>

text \<open>The keys the loop recognises.\<close>

definition secret_key :: "string \<Rightarrow> bool" where
  "secret_key k \<longleftrightarrow> k = SEED \<or> strip_prefix OLD_SEED k \<noteq> None"

lemma parse_vars_ok:
  "parse_vars vars so olds removed = (Inr r, gone) \<Longrightarrow>
     gone = removed @ filter secret_key (map fst vars) \<and>
     (case map_of (rev vars) SEED of Some v \<Rightarrow> seed r = v \<and> valid_text v
      | None \<Rightarrow> so = Some (seed r))"
proof (induction vars so olds removed rule: parse_vars.induct)
  case (1 so olds removed)
  then show ?case by (cases so) auto
next
  case (2 k v vars so olds removed)
  show ?case
  proof (cases "k = SEED")
    case True
    with 2(4) have ok: "valid_text v" "parse_vars vars (Some v) olds (removed @ [k]) = (Inr r, gone)"
      by (auto split: if_splits)
    from 2(1) [OF True ok] True ok(1) show ?thesis
      by (auto simp: map_add_def secret_key_def split: option.splits)
  next
    case False
    show ?thesis
    proof (cases "strip_prefix OLD_SEED k")
      case None
      with 2(4) False have "parse_vars vars so olds removed = (Inr r, gone)" by simp
      from 2(2) [OF False None this] False None show ?thesis
        by (auto simp: map_add_def secret_key_def split: option.splits)
    next
      case (Some stripped)
      with 2(4) False have ok: "valid_text stripped" "valid_text v"
          "parse_vars vars so (AList.update stripped v olds) (removed @ [k]) = (Inr r, gone)"
        by (auto split: if_splits)
      from 2(3) [OF False Some _ _ ok(3)] ok False Some show ?thesis
        by (auto simp: map_add_def secret_key_def split: option.splits)
    qed
  qed
qed

section \<open>Properties\<close>

text \<open>When the seed variables are read, the seed is the (last) value of \<open>KALATORI_SEED\<close>, valid text, and
  the environment is left with none of the secret variables and with every other one.\<close>

theorem seeds_leave_environment:
  assumes "seed_env_parse vars = (Inr r, removed)"
  shows "(SEED, seed r) \<in> set vars \<and> valid_text (seed r) \<and>
    environment_after vars = filter (\<lambda>(k, _). \<not> (k = SEED \<or> take (length OLD_SEED) k = OLD_SEED)) vars"
proof -
  from parse_vars_ok [OF assms [unfolded seed_env_parse_def]]
  have gone: "removed = filter secret_key (map fst vars)"
    and last: "map_of (rev vars) SEED = Some (seed r)" "valid_text (seed r)"
    by (auto split: option.splits)
  have "(SEED, seed r) \<in> set vars"
    using map_of_SomeD [OF last(1)] by simp
  with last(2) have "(SEED, seed r) \<in> set vars \<and> valid_text (seed r)" by simp
  moreover have "environment_after vars = filter (\<lambda>(k, _). \<not> secret_key k) vars"
    unfolding environment_after_def assms snd_conv gone
    by (rule filter_cong) (auto simp: image_iff)
  moreover have "secret_key k \<longleftrightarrow> k = SEED \<or> take (length OLD_SEED) k = OLD_SEED" for k
    by (simp add: secret_key_def strip_prefix_def)
  ultimately show ?thesis by simp
qed

theorem seeds_leave_environment_witness:
  "environment_after [(''PATH'', ''bin''), (''KALATORI_SEED'', ''bottom drive''),
      (''KALATORI_OLD_SEED_x'', ''obey'')] = [(''PATH'', ''bin'')]"
proof -
  have ok: "valid_text ''bottom drive''" "valid_text ''obey''" "valid_text ''x''"
    by (simp_all add: valid_text_def)
  have "seed_env_parse [(''PATH'', ''bin''), (''KALATORI_SEED'', ''bottom drive''),
      (''KALATORI_OLD_SEED_x'', ''obey'')] =
    (Inr \<lparr>seed = ''bottom drive'', old_seeds = [(''x'', ''obey'')]\<rparr>,
     [''KALATORI_SEED'', ''KALATORI_OLD_SEED_x''])"
    by (simp add: seed_env_parse_def SEED_def OLD_SEED_def strip_prefix_def ok)
  from seeds_leave_environment [OF this] show ?thesis by (simp add: SEED_def OLD_SEED_def)
qed

text \<open>The default log filter is \<open>off\<close> followed by an \<open>=info\<close> directive for every target, separated
  by commas, and its length is the capacity reserved for it.\<close>

theorem default_filter_fits:
  "split_char (CHR '','') default_filter = ''off'' # map (\<lambda>t. t @ ''=info'') TARGETS \<and>
   length default_filter = default_filter_capacity"
  by (simp add: default_filter_def TARGETS_def COMMA_def INFO_def OFF_def default_filter_capacity_def
      saturating_add_def)

end
