(* ===== verification/Error_Display.thy ===== *)
theory Error_Display
  imports Startup
begin

text \<open>
  The texts of the errors of \<open>src/error.rs\<close> (\<open>#[error("...")]\<close>), which of them have a source (\<open>#[from]\<close>, \<open>#[source]\<close>),
  and the message the daemon leaves with when it cannot start (\<open>main\<close> of \<open>src/main.rs\<close>). An error of another crate is
  carried as its text; the texts of its own sources, and how the other crates print JSON values and an order's
  status, are parameters.
\<close>

section \<open>Printing\<close>

record display_env =
  dv_sources :: "foreign_error \<Rightarrow> string list"
  dv_json :: "json \<Rightarrow> string"
  dv_json_debug :: "json \<Rightarrow> string"
  dv_status_debug :: "order_status \<Rightarrow> string"
  dv_unsignable :: string

text \<open>\<open>{:?}\<close> of a string: quoted, with the quote, the backslash and the control characters escaped. Characters beyond
  ASCII are taken to be printable.\<close>

definition hex_digit :: "nat \<Rightarrow> char" where
  "hex_digit n = ''0123456789abcdef'' ! n"

definition escape_debug :: "char \<Rightarrow> string" where
  "escape_debug c = (
     if c = CHR 0x00 then [CHR 0x5C, CHR ''0'']
     else if c = CHR 0x09 then [CHR 0x5C, CHR ''t'']
     else if c = CHR 0x0A then [CHR 0x5C, CHR ''n'']
     else if c = CHR 0x0D then [CHR 0x5C, CHR ''r'']
     else if c = CHR 0x22 \<or> c = CHR 0x5C then [CHR 0x5C, c]
     else if of_char c < (16 :: nat) then [CHR 0x5C] @ ''u{'' @ [hex_digit (of_char c)] @ ''}''
     else if of_char c < (32 :: nat) \<or> c = CHR 0x7F
     then [CHR 0x5C] @ ''u{'' @ [hex_digit (of_char c div 16), hex_digit (of_char c mod 16)] @ ''}''
     else [c])"

definition debug_str :: "string \<Rightarrow> string" where
  "debug_str s = [CHR 0x22] @ concat (map escape_debug s) @ [CHR 0x22]"

section \<open>The texts\<close>

fun display_not_hex :: "not_hex \<Rightarrow> string" where
  "display_not_hex HexBlockHash = ''block hash string isn't a valid hexadecimal''"
| "display_not_hex HexMetadata = ''encoded metadata string isn't a valid hexadecimal''"
| "display_not_hex HexStorageKey = ''encoded storage key string isn't a valid hexadecimal''"
| "display_not_hex HexStorageValue = ''encoded storage value string isn't a valid hexadecimal''"

fun display_util :: "util_error \<Rightarrow> string" where
  "display_util (NotHex _) = ''...''"

fun display_signer :: "signer_error \<Rightarrow> string" where
  "display_signer (Env a) = ''failed to read '' @ debug_str a"
| "display_signer SignerDown = ''signer is down''"
| "display_signer (InvalidSeed _) = ''seed phrase is invalid''"
| "display_signer (InvalidDerivation _) = ''derivation was failed''"

definition display_chain :: "display_env \<Rightarrow> chain_error \<Rightarrow> string" where
  "display_chain V err = (case err of
     AssetId \<Rightarrow> ''asset ID is missing''
   | AssetIdFormat \<Rightarrow> ''asset ID isn't `u32`''
   | AssetsInvalid a \<Rightarrow> ''invalid assets for the chain '' @ debug_str a
   | AssetKeyEmpty \<Rightarrow> ''asset key has no parceable part''
   | AssetKeyNotSingleHash \<Rightarrow> ''asset key isn't single hash''
   | AssetMetadataPlain \<Rightarrow> ''asset metadata isn't a map''
   | AssetMetadataUnexpected \<Rightarrow> ''unexpected assets metadata value structure''
   | AssetMetadataType \<Rightarrow> ''wrong data type''
   | AssetMetadataMapSize \<Rightarrow> ''expected a map with a single entry, got multiple entries''
   | AssetBalanceFormat \<Rightarrow> ''asset balance format is unexpected''
   | AssetBalanceNotFound \<Rightarrow> ''no balance field in an asset record''
   | Base58PrefixFormatNotSupported a \<Rightarrow> ''format of the fetched Base58 prefix '' @
     debug_str (dv_json V a) @ '' isn't supported''
   | Base58PrefixMismatch a b \<Rightarrow> ''Base58 prefixes in metadata ('' @ show_nat (unat b) @
     '') and specs ('' @ show_nat (unat a) @ '') do not match.''
   | BlockNumberFormat \<Rightarrow> ''unexpected block number format''
   | BlockHashFormat \<Rightarrow> ''unexpected block hash format''
   | BlockHashLength \<Rightarrow> ''unexpected block hash length''
   | Client _ \<Rightarrow> ''WS client error is occurred''
   | Tokio _ \<Rightarrow> ''threading error is occurred''
   | DecimalsFormatNotSupported a \<Rightarrow> ''format of fetched decimals ('' @ dv_json V a @
     '') isn't supported''
   | GenesisHashFormat \<Rightarrow> ''unexpected genesis hash format''
   | MetadataFormat \<Rightarrow> ''...''
   | MetadataNotDecodeable \<Rightarrow> ''...''
   | NoBase58Prefix \<Rightarrow> ''no Base58 prefix is fetched as system properties or found in metadata''
   | NoBlockNumberDefinition \<Rightarrow> ''block number definition isn't found''
   | NoDecimals \<Rightarrow> ''no decimals value is fetched''
   | NoMetadataV15 \<Rightarrow> ''metadata v15 isn't available through RPC''
   | NoMetaPrefix \<Rightarrow> ''metadata must start with the `meta` prefix''
   | NoPallet \<Rightarrow> ''pallet isn't found''
   | NoStorage \<Rightarrow> ''no pallets with a storage found''
   | NoSystem \<Rightarrow> [CHR 0x22] @ ''System'' @ [CHR 0x22] @ '' pallet isn't found''
   | NoStorageInSystem \<Rightarrow> ''no storage variants in the '' @ [CHR 0x22] @ ''System'' @ [CHR 0x22] @
     '' pallet''
   | NoUnit \<Rightarrow> ''no unit value is fetched''
   | PropertiesFormat \<Rightarrow> ''...''
   | RawMetadataNotDecodeable \<Rightarrow> ''...''
   | UnitFormatNotSupported a \<Rightarrow> ''format of the fetched unit ('' @ dv_json V a @
     '') isn't supported''
   | StorageValueFormat a \<Rightarrow> ''unexpected storage value format for the key '' @ [CHR 0x22] @
     dv_json_debug V a @ [CHR 0x22]
   | Util _ \<Rightarrow> ''internal error is occurred''
   | InvoiceAccount _ \<Rightarrow> ''invoice account couldn't be parsed''
   | InvalidChain a \<Rightarrow> ''chain '' @ debug_str a @ '' isn't found''
   | InvalidCurrency a \<Rightarrow> ''currency '' @ debug_str a @ '' isn't found''
   | MessageDropped \<Rightarrow> ''chain manager dropped a message, probably due to '' @
     ''a chain disconnect; maybe it should be sent again''
   | BlockSubscriptionTerminated \<Rightarrow> ''block subscription is terminated''
   | MetaVersionErrorPallets _ \<Rightarrow> ''metadata error is occurred''
   | StorageRegistryError _ \<Rightarrow> ''storage registry error is occurred''
   | BalanceNotFound \<Rightarrow> ''balance wasn't found''
   | StorageQuery \<Rightarrow> ''storage query couldn't be formed''
   | EventsMissing \<Rightarrow> ''events couldn't be fetched''
   | EventsNonexistant \<Rightarrow> ''no events in this chain''
   | ParserError _ \<Rightarrow> ''substrate parser error is occurred''
   | StorageDecodeError _ \<Rightarrow> ''storage entry decoding error is occurred''
   | RegistryError _ \<Rightarrow> ''type registry error is occurred''
   | SubstrateConstructor _ \<Rightarrow> ''substrate constructor error is occurred''
   | TransactionNotSignable \<Rightarrow> ''transaction isn't ready to be signed: '' @ dv_unsignable V
   | ChainSigner _ \<Rightarrow> ''signing was failed''
   | NothingToSend \<Rightarrow> ''transaction couldn't be completed''
   | StorageEntryNotMap \<Rightarrow> ''storage entry isn't a map''
   | StorageEntryMapMultiple \<Rightarrow> ''storage entry map has more than one record''
   | StorageKeyNotFound a \<Rightarrow> ''storage key '' @ debug_str a @ '' isn't found''
   | StorageKeyNotU32 \<Rightarrow> ''storage key isn't `u32`''
   | WrongNetwork a b c \<Rightarrow> ''RPC runs on an unexpected network: instead of '' @ debug_str a @
     '', found '' @ debug_str b @ '' at '' @ debug_str c
   | Serde _ \<Rightarrow> ''failed to parse JSON data from a block stream'')"

fun display_db :: "db_error \<Rightarrow> string" where
  "display_db CurrencyKeyNotFound = ''currency key isn't found''"
| "display_db DbEngineDown = ''database engine isn't running''"
| "display_db (DbInternalError _) = ''database internal error is occurred''"
| "display_db (DbStartError _) = ''failed to start the database service''"
| "display_db (IoError _) = ''operating system related I/O error is occurred''"
| "display_db (CodecError _) = ''database storage decoding error is occurred''"
| "display_db (OrderNotFound a) = ''order '' @ debug_str a @ '' isn't found''"
| "display_db (AlreadyPaid a) = ''order '' @ debug_str a @ '' was already paid''"
| "display_db (NotPaid a) = ''order '' @ debug_str a @ '' isn't paid yet''"
| "display_db (WithdrawalWasAttempted a) = ''there was already an attempt to withdraw order '' @ debug_str a"
| "display_db (SerializationError a) = ''wasn't able to serialize '' @ debug_str a @ '' field''"
| "display_db (DeserializationError a) = ''wasn't able to deserialize '' @ debug_str a @ '' table''"

fun display_order :: "order_error \<Rightarrow> string" where
  "display_order (LessThanExistentialDeposit _) = ''invoice amount is less than the existential deposit''"
| "display_order UnknownCurrency = ''unknown currency''"
| "display_order (MissingParameter a) = ''order parameter is missing: '' @ debug_str a"
| "display_order (InvalidParameter a) = ''order parameter invalid: '' @ debug_str a"
| "display_order InternalError = ''internal error is occurred''"

fun display_force_withdrawal :: "display_env \<Rightarrow> force_withdrawal_error \<Rightarrow> string" where
  "display_force_withdrawal V (WithdrawalMissingParameter a) = ''order parameter is missing: '' @ debug_str a"
| "display_force_withdrawal V (WithdrawalInvalidParameter a) = ''order parameter is invalid: '' @ debug_str a"
| "display_force_withdrawal V (WithdrawalError a) = ''withdrawal was failed: '' @ [CHR 0x22] @
     dv_status_debug V a @ [CHR 0x22]"

fun display_server :: "server_error \<Rightarrow> string" where
  "display_server (TcpListenerBind a) = ''failed to bind the TCP listener to '' @ [CHR 0x22] @ a @ [CHR 0x22]"
| "display_server ThreadError = ''internal threading error is occurred''"

fun display_seed_env :: "seed_env_error \<Rightarrow> string" where
  "display_seed_env InvalidUnicodeOldSeedKey = ''one of the `'' @ OLD_SEED @
     ''*` variables has an invalid Unicode key''"
| "display_seed_env (InvalidUnicodeValue a) = ''`'' @ a @ ''` variable contains an invalid Unicode text''"
| "display_seed_env SeedNotPresent = ''`'' @ SEED @ ''` isn't present''"

fun display_error :: "error \<Rightarrow> string" where
  "display_error (SeedEnv _) = ''failed to read a seed environment variable''"
| "display_error (ConfigFileRead a _) = ''failed to read the config file at '' @ debug_str a"
| "display_error (ConfigFileParse _) = ''failed to parse the config''"
| "display_error (ConfigParse a) = ''failed to parse the config parameter `'' @ a @ ''`''"
| "display_error (EmptyEndpoints a) = ''chain '' @ debug_str a @ '' doesn't have any `endpoints` in the config''"
| "display_error (ErrChain _) = ''RPC server error is occurred''"
| "display_error (ErrDb _) = ''database error is occurred''"
| "display_error (ErrOrder _) = ''order error is occurred''"
| "display_error (ErrServer _) = ''daemon server error is occurred''"
| "display_error (ErrSigner _) = ''signer error is occurred''"
| "display_error (ShutdownSignal _) = ''failed to listen for the shutdown signal''"
| "display_error (Runtime _) = ''failed to initialize the asynchronous runtime''"
| "display_error (LoggerDirectives a _) = ''failed to parse given filter directives for the logger ('' @
     debug_str a @ '')''"
| "display_error (RecipientAccount _) = ''receiver account couldn't be parsed''"
| "display_error Fatal = ''fatal error is occurred''"
| "display_error (DuplicateCurrency a) = ''found duplicate config record for the token '' @ debug_str a"

section \<open>The sources\<close>

text \<open>The texts of the sources of an error, the direct one first.\<close>

definition foreign_causes :: "display_env \<Rightarrow> foreign_error \<Rightarrow> string list" where
  "foreign_causes V e = e # dv_sources V e"

fun signer_causes :: "display_env \<Rightarrow> signer_error \<Rightarrow> string list" where
  "signer_causes V (InvalidSeed e) = foreign_causes V e"
| "signer_causes V (InvalidDerivation e) = foreign_causes V e"
| "signer_causes V (Env _) = []"
| "signer_causes V SignerDown = []"

definition chain_causes :: "display_env \<Rightarrow> chain_error \<Rightarrow> string list" where
  "chain_causes V err = (case err of
     Client e \<Rightarrow> foreign_causes V e
   | Tokio e \<Rightarrow> foreign_causes V e
   | Util e \<Rightarrow> [display_util e]
   | InvoiceAccount e \<Rightarrow> foreign_causes V e
   | MetaVersionErrorPallets e \<Rightarrow> foreign_causes V e
   | StorageRegistryError e \<Rightarrow> foreign_causes V e
   | ParserError e \<Rightarrow> foreign_causes V e
   | StorageDecodeError e \<Rightarrow> foreign_causes V e
   | RegistryError e \<Rightarrow> foreign_causes V e
   | SubstrateConstructor e \<Rightarrow> foreign_causes V e
   | ChainSigner e \<Rightarrow> display_signer e # signer_causes V e
   | Serde e \<Rightarrow> foreign_causes V e
   | _ \<Rightarrow> [])"

definition db_causes :: "display_env \<Rightarrow> db_error \<Rightarrow> string list" where
  "db_causes V err = (case err of
     DbInternalError e \<Rightarrow> foreign_causes V e
   | IoError e \<Rightarrow> foreign_causes V e
   | CodecError e \<Rightarrow> foreign_causes V e
   | _ \<Rightarrow> [])"

fun error_causes :: "display_env \<Rightarrow> error \<Rightarrow> string list" where
  "error_causes V (SeedEnv e) = [display_seed_env e]"
| "error_causes V (ConfigFileRead _ e) = foreign_causes V e"
| "error_causes V (ConfigFileParse e) = foreign_causes V e"
| "error_causes V (ConfigParse _) = []"
| "error_causes V (EmptyEndpoints _) = []"
| "error_causes V (ErrChain e) = display_chain V e # chain_causes V e"
| "error_causes V (ErrDb e) = display_db e # db_causes V e"
| "error_causes V (ErrOrder e) = [display_order e]"
| "error_causes V (ErrServer e) = [display_server e]"
| "error_causes V (ErrSigner e) = display_signer e # signer_causes V e"
| "error_causes V (ShutdownSignal e) = foreign_causes V e"
| "error_causes V (Runtime e) = foreign_causes V e"
| "error_causes V (LoggerDirectives _ e) = foreign_causes V e"
| "error_causes V (RecipientAccount e) = foreign_causes V e"
| "error_causes V Fatal = []"
| "error_causes V (DuplicateCurrency _) = []"

text \<open>The message of \<open>main\<close> for an error that ends it.\<close>

definition fatal_message :: "display_env \<Rightarrow> error \<Rightarrow> string" where
  "fatal_message V err = ''Badbye! The daemon's got a fatal error:'' @ newline @ ''    '' @
     display_error err @ ''.'' @ pretty_cause (error_causes V err)"

section \<open>What a message tells\<close>










lemma foreign_cause [simp]: "e \<in> set (foreign_causes V e)"
  by (simp add: foreign_causes_def)




text \<open>Which of the hexadecimal strings was at fault is not told, neither in the text nor as a source.\<close>

lemma hex_fault_not_told:
  "fatal_message V (ErrChain (Util (NotHex h))) = fatal_message V (ErrChain (Util (NotHex h')))"
  by (simp add: fatal_message_def display_chain_def chain_causes_def)

end
