(* ===== verification/Spec2Isabelle.thy ===== *)
theory Spec2Isabelle
  imports Amounts Error_Tests Database_Properties Signer Chain_Properties Tracker_Properties Currency_Typing
    Chain_Manager Channel_Properties System_Properties Order_Liveness Server Startup Error_Display
begin

text \<open>
  Kalatori: a verification library for the payment daemon under \<open>src/src/\<close>.

  The program. Kalatori offers a web shop payment over Substrate chains. A shop posts an order over HTTP
  (\<open>handlers/\<close>); the state handler (\<open>state.rs\<close>) derives an account for it through the signer (\<open>signer.rs\<close>),
  stores it (\<open>database.rs\<close>) and has the chain manager (\<open>chain/mod.rs\<close>) tell the watcher of the
  order's currency (\<open>chain/tracker.rs\<close>). The watcher follows the finalized blocks of one chain over JSON
  RPC (\<open>chain/rpc.rs\<close>, \<open>chain/utils.rs\<close>) and reports accounts that have been paid to the state handler, which
  marks the order as paid and has the watcher start a payout (\<open>chain/payout.rs\<close>) to the
  recipient. \<open>main.rs\<close>, \<open>shutdown.rs\<close> and \<open>task_tracker.rs\<close> bring the tasks up and down. Each part is a task
  with a channel of requests; here each is a step function on an explicit state.

  The theories, in the order in which they build on each other.

  \<^item> \<open>Prelude\<close>: fallible computations as sums (\<open>and_then\<close>, \<open>map_err\<close>, \<open>ok_or\<close> for \<open>?\<close>, \<open>map_err\<close>, \<open>ok_or\<close>), the
    calls that thread the state of an external party (\<open>call_then\<close>), machine integers, bytes.
  \<^item> \<open>Task\<close>: the loop of a task that serves its queue, as locales: any task (\<open>task\<close>), one whose state shows a
    view that only evolves (\<open>evolving_task\<close>), one whose answers are paid from a budget (\<open>budgeted_task\<close>). The
    database server, the signer and the state handler are interpretations (\<open>db_task\<close>, \<open>signer_task\<close>,
    \<open>handler_task\<close>).
  \<^item> \<open>Floats\<close>: the IEEE double operations of the amount conversion, on rationals with rounding to 53 bits.
  \<^item> \<open>Json\<close>: the part of \<open>serde_json::Value\<close> that the daemon looks at.
  \<^item> \<open>Definitions\<close>, \<open>Amounts\<close>: \<open>definitions.rs\<close>, and what the conversion between API amounts
    and units keeps.
  \<^item> \<open>Errors\<close>, \<open>Error_Tests\<close>, \<open>Error_Display\<close>: \<open>error.rs\<close>, every error type, the printer of a chain of causes and its
    unit tests, the texts and the sources of the errors and the message \<open>main\<close> ends with.
  \<^item> \<open>Database\<close>, \<open>Order_Ledger\<close>, \<open>Database_Properties\<close>: \<open>database.rs\<close> over a key-value tree. \<open>Order_Ledger\<close>
    abstracts the tree to a map from ids to orders and proves that each request refines an operation of that
    map; its locale \<open>order_ledger\<close> is what the state handler relies on, and the interpretation
    \<open>database\<close> discharges its laws for the code's model.
  \<^item> \<open>Signer\<close>: \<open>signer.rs\<close>; derivation and signatures are parameters (\<open>crypto_env\<close>).
  \<^item> \<open>Chain_Data\<close>, \<open>Chain_Utils\<close>, \<open>Chain_Calls\<close>: \<open>utils.rs\<close>, \<open>chain/utils.rs\<close> and the block hashes of
    \<open>chain/definitions.rs\<close>: reading system properties, metadata and storage keys; filling calls and queries.
  \<^item> \<open>Chain_Rpc\<close>, \<open>Chain_Properties\<close>: \<open>chain/rpc.rs\<close> over a client that answers as it likes.
  \<^item> \<open>Tracker\<close>, \<open>Toy_Node\<close>, \<open>Tracker_Properties\<close>: \<open>chain/tracker.rs\<close>; \<open>tracker_step\<close> is one turn of the
    endpoint loop or of the request loop, \<open>tracker_run\<close> (inductive) its runs. \<open>Toy_Node\<close> is a node in
    miniature for the witnesses.
  \<^item> \<open>Node_Simulation\<close>: two nodes side by side. The locale \<open>node_simulation\<close> says when one client goes with another
    (each request answered alike, from related states of the world), \<open>watcher_simulation\<close> when one way of
    connecting does; in them every routine of the node RPC and of the watcher is followed once. They are
    interpreted for a client and the same client under a recorder of submissions (\<open>recorded_node\<close>,
    \<open>recorded_watcher\<close>).
  \<^item> \<open>Payout\<close>, \<open>Submission\<close>: \<open>chain/payout.rs\<close>; \<open>Submission\<close> runs a payout under the recorder and
    follows the accounts through the forms it fills in (\<open>accounts_in\<close>).
  \<^item> \<open>Chain_Manager\<close>: \<open>chain/mod.rs\<close>: ignition and routing.
  \<^item> \<open>Kalatori_State\<close>, \<open>State_Properties\<close>: \<open>state.rs\<close>; \<open>state_step\<close> serves one request, \<open>on_event\<close> also
    the cancellation, \<open>state_run\<close> a sequence of both, \<open>state_start\<close> the start.
  \<^item> \<open>System\<close>, \<open>Toy_Daemon\<close>, \<open>System_Invariant\<close>, \<open>System_Properties\<close>: the whole daemon. \<open>sys_step\<close> interleaves the
    state handler, one watcher per configured chain, the messages in flight between them, the restore task and
    the cancellation; \<open>reachable\<close> is inductive and \<open>sys_inv\<close> its invariant. \<open>Toy_Daemon\<close> is a daemon in miniature
    for the witnesses.
  \<^item> \<open>Channels\<close>, \<open>Channel_Properties\<close>: the bounded channels between these tasks and who waits for whom.
    \<open>channel_step\<close> moves one message or ends one wait, each move a definition of its own; what a request or a
    block leads to is left open, so that \<open>channel_run\<close> over-approximates the daemon. \<open>channels_inv\<close> says that
    the request a task waits for is in exactly one place; on it rest what a waiting handler waits for, and the two
    ways in which it keeps everyone waiting.
  \<^item> \<open>Order_Life\<close>: the five phases of one order (\<open>order_step\<close>), which the whole daemon refines.
  \<^item> \<open>Order_Watch\<close>: the orders the daemon has lost sight of (\<open>out_of_sight\<close>), which only a start takes up again.
  \<^item> \<open>Order_Liveness\<close>: runs of the daemon in which messages and requests are taken in turn (\<open>for_watcher\<close>), and what
    becomes of a reported payment in every one of them, whatever else is interleaved.
  \<^item> \<open>Settlement\<close>: the whole daemon with its payout tasks: \<open>settle_step\<close> is a step of \<open>System\<close>, the run of a
    payout task that was spawned, or a change of the world from elsewhere, with every submission recorded;
    \<open>settles\<close> is inductive and \<open>settle_inv\<close> its invariant.
  \<^item> \<open>Currency_Typing\<close>: kinds and asset ids of currencies, from a node's answers to the payout.
  \<^item> \<open>Handlers\<close>, \<open>Server\<close>: \<open>handlers/order.rs\<close>, \<open>handlers/health.rs\<close>, the routes and the task of
    \<open>server.rs\<close>, and \<open>callback.rs\<close>.
  \<^item> \<open>Shutdown\<close>, \<open>Startup\<close>: \<open>shutdown.rs\<close>, \<open>task_tracker.rs\<close>, \<open>main.rs\<close>, \<open>arguments.rs\<close> and \<open>logger.rs\<close>:
    the signal listener and the exit code; \<open>try_main\<close> with every error on the way up.
  \<^item> \<open>Spec2Isabelle\<close>: the properties that join the start, the state and the whole daemon.

  What is outside. Third-party crates are parameters of the definitions: \<open>db_env\<close> (sled's tree and the SCALE
  codec), \<open>crypto_env\<close> (\<open>substrate_crypto_light\<close>, \<open>mnemonic_external\<close>), \<open>chain_lib\<close> (the hashers, the SCALE
  decoder, \<open>substrate_constructor\<close>) and \<open>client\<close> (the JSON RPC node, over a state of the world of any type). What the
  code relies on is a named hypothesis where a property needs it: \<open>sled_contract\<close> and \<open>codec_contract\<close> inside
  \<open>db_inv\<close>, the round trip of the hexadecimal digits, and \<open>forms_empty\<close>: the constructor library hands out its
  forms with no account in them. The properties of the watcher and of the
  whole daemon assume nothing of the nodes: a client may fail, lie, or change its mind between calls.

  What the lemmas show. The ledger lemmas give each database request its abstract operation, and that the order book
  only evolves (\<open>ledger_le\<close>: orders stay, keep account, callback and transactions, and are frozen once
  paid). The watcher lemmas say what is reported and what is dropped after each outcome of a block. The state
  lemmas tie a reply to the book and to the messages sent. The system invariant joins them: everything on its way is
  about an order of the book, and payouts begun or ordered are counted against the order's payment status. On top
  of it, the daemon under the recorder does step by step what the daemon does (\<open>sys_step_recorded\<close>) and submits
  nothing but by its payouts, so that the record holds one rightful extrinsic per paid order. The
  remaining groups are the amount conversion (bounds and round trip), calls (what the filled calls carry and
  whom they name, up to the extrinsic submitted), and
  the start, shutdown and HTTP behaviour.

  Bounds and choices. Machine integers are words of their width, so that overflow wraps; Rust panics on overflow
  in a debug build, and where the two differ (the payout's subtraction, the order's death) the release build is
  modelled. Its panics abort the process (\<open>panic = "abort"\<close> in \<open>Cargo.toml\<close>); \<open>Shutdown\<close> takes as an argument
  whether they do. The scan of storage keys makes at most 256 requests (\<open>MAX_KEY_PAGES\<close>), which is the recursion
  bound of \<open>key_pages\<close> and not fuel of the model. Every loop is structurally recursive; the unbounded loops
  of the tasks are runs over a list of events or an inductive relation.

  In \<open>System\<close> the interleaving is over-approximated: any message that could be delivered next may be, requests of
  shops come at any time, block numbers and clock readings are arbitrary, and whether a forwarded request is acknowledged
  is an argument (\<open>de_ack\<close>). A request sent to a watcher that has ended is never delivered. A payout task runs
  at any time after it was spawned, in one piece: it shares with the rest of the daemon only the signer, which is
  asked once, and the world, which its client may find changed at every call.

  Not modelled. Path matching and the connections of the web server (axum; matching is a parameter), command line and
  TOML parsing (clap, toml_edit; the parsed values are arguments), the JSON of request and response bodies (serde), the
  120-second timeouts of the channels other than as an input of the watcher (\<open>NoRequest\<close>) and of the manager's
  shutdown, and log output other than the message of a fatal error. What the source leaves as \<open>todo!()\<close> (the
  state's forced withdrawal, the health route and the payments page) panics in the model as well. Commented-out code
  (half of \<open>database.rs\<close>), types that nothing uses, integration tests and the build script are not part of the daemon.

  What modelling showed is stated as theorems, each where the code's behaviour differs from its evident intent: the
  raw-byte lookup of \<open>mark_withdrawn\<close> and \<open>mark_stuck\<close>, the inverted death test of the watcher, chains with
  both kinds of currency that never connect, asset transfers that are never seen, modified orders whose watcher is
  not told, the state handler that ends with its caller, the requests that panic, the inverted test of the panic
  hook, the payout's unchecked subtraction, the daemon that waits for itself and the one that waits for a chain, and
  the reasons that error messages leave out. The lemma \<open>asset_poses_as_native\<close> shows a node that is accepted with an
  asset in the place of the native token.
\<close>

section \<open>Across the components\<close>

text \<open>C7. Whenever a payout is ordered, it is for a payment just recorded: the order was pending and is now
  paid, the request carries the order's id, the account derived from its stored address, its
  amount in units of its currency and the daemon's recipient, and it goes to the watcher the
  order's currency is routed to.\<close>

theorem payout_request_matches_order:
  assumes "daemon_inv D contents d" and "on_event D ev d = (r, d', out)"
    and "(n, TrackReap a) \<in> set out"
  shows "\<exists>oid x m. ledger_in D contents d oid = Some x \<and> payment_status x = Pending \<and>
    ledger_in D contents d' = (ledger_in D contents d)(oid \<mapsto> x\<lparr>payment_status := Paid\<rparr>) \<and>
    inv_id (watch_invoice a) = oid \<and> inv_recipient (watch_invoice a) = recipient d \<and>
    inv_amount (watch_invoice a) =
      balance_parse (order_amount x) (ci_decimals (order_currency x)) \<and>
    (\<exists>v. account_from_base58 (de_crypto D) (payment_account x) = Inr (inv_address (watch_invoice a), v)) \<and>
    chain_manager d = Some m \<and> route m (ci_currency (order_currency x)) = Inr n"
proof -
  from state_sends_reap [OF assms(2,3)] obtain k oid x m where
    call: "call_mark_paid (de_db D) (de_life D) k oid (db d) = (Inr x, db d')" and
    a: "watch_account_new (de_crypto D) oid x (recipient d) = Inr a" and
    m: "chain_manager d = Some m" "route m (inv_currency (watch_invoice a)) = Inr n"
    by blast
  from database.paid_marks [OF assms(1) call] obtain y where
    y: "ledger_in D contents d oid = Some y" "payment_status y = Pending"
      "x = y\<lparr>payment_status := Paid\<rparr>"
      "ledger_in D contents d' = (ledger_in D contents d)(oid \<mapsto> x)"
    by blast
  from a have "inv_id (watch_invoice a) = oid" "inv_recipient (watch_invoice a) = recipient d"
    "inv_amount (watch_invoice a) = balance_parse (order_amount y) (ci_decimals (order_currency y))"
    "inv_currency (watch_invoice a) = ci_currency (order_currency y)"
    "\<exists>v. account_from_base58 (de_crypto D) (payment_account y) = Inr (inv_address (watch_invoice a), v)"
    by (auto simp: watch_account_new_def and_then_Inr_iff map_err_def y(3) split: sum.splits)
  with y m show ?thesis by auto
qed


theorem payout_request_matches_order_witness:
  "\<exists>a d'. on_event toy_env (Request sample_tick True (SOrderPaid ''a''))
      (toy_daemon [(''a'', sample_order Pending)]) = (None, d', [(0, TrackReap a)]) \<and>
    inv_id (watch_invoice a) = ''a'' \<and> inv_recipient (watch_invoice a) = [3] \<and>
    db_view mem_env map_of (db d') ''a'' = Some (sample_order Paid)"
proof -
  let ?d = "toy_daemon [(''a'', sample_order Pending)]"
  obtain i where i: "watch_account_new toy_crypto ''a'' (sample_order Paid) [3] = Inr (WatchAccount i)"
    by (simp add: watch_account_new_def toy_crypto_def)
  then have "inv_currency i = ''DOT''"
    by (auto simp: watch_account_new_def and_then_Inr_iff sample_defs)
  with i have run: "on_event toy_env (Request sample_tick True (SOrderPaid ''a'')) ?d =
      (None, ?d\<lparr>db := mem_state [(''a'', sample_order Paid)]\<rparr>, [(0, TrackReap (WatchAccount i))])"
    by (simp add: order_paid_def mem_paid reap_def manager_call_def route_def toy_manager_def)
  have "(0, TrackReap (WatchAccount i)) \<in> set [(0, TrackReap (WatchAccount i))]" by simp
  from payout_request_matches_order [OF toy_daemon_inv run this] obtain oid where
    "inv_id (watch_invoice (WatchAccount i)) = oid"
    "inv_recipient (watch_invoice (WatchAccount i)) = recipient ?d"
    "ledger_in toy_env map_of ?d oid \<noteq> None" by auto
  then have "inv_id i = ''a''" "inv_recipient i = [3]"
    by (auto simp: db_view_def ledger_of_def mem_state_def mem_enc_def split: if_splits)
  with run show ?thesis by fastforce
qed

text \<open>A start in miniature.\<close>

definition toy_config :: config where
  "toy_config = \<lparr>account_lifetime = Timestamp 60, host = ''127.0.0.1:16726'', database_opt = None,
     debug_opt = None, in_memory_db = False, chain_configs = [toy_chain]\<rparr>"

lemma toy_start:
  "\<exists>d out. async_try_main toy_env (\<lambda>_. Inr ([], [])) (\<lambda>_. True) sample_tick ''rr'' None toy_config
      \<lparr>seed = phrase, old_seeds = []\<rparr> = Inr (d, out, snd (start_signer toy_crypto phrase)) \<and>
    handler d = HandlerRuns"
proof -
  have "\<exists>a. account_from_base58 toy_crypto ''rr'' = Inr a" by (simp add: toy_crypto_def)
  moreover have "\<exists>m. ignite [toy_chain] = Inr m"
    by (simp add: ignite_def toy_chain_def currency_names_def)
  moreover have "\<exists>n s. call_initialize_server_info mem_env (Timestamp 60) sample_tick
      \<lparr>orders = [], server_infos = [], serving = True\<rparr> = (Inr n, s) \<and> orders s = [] \<and> serving s"
    by (simp add: call_initialize_server_info_def db_call_def initialize_server_info_def call_then_def
        db_get_def db_insert_def call_map_err_def sample_tick_def Let_def mem_env_def
        SERVER_INFO_ID_def)
  ultimately show ?thesis
    by (auto simp: async_try_main_def server_new_def toy_config_def map_err_def state_start_def initial_daemon_def
        call_order_list_def db_call_def active_order_list_def split: prod.split)
qed

text \<open>What a start leaves behind.\<close>

lemma async_try_main_Inr:
  assumes "async_try_main D open_db bind k rs remark c seeds = Inr (d, out, failed)"
  shows "\<exists>sg recv v t infos r db0 ident m. account_from_base58 (de_crypto D) rs = Inr (recv, v) \<and>
    start_signer (de_crypto D) (seed seeds) = (sg, failed) \<and>
    open_db (opened_path (database_path c)) = Inr (t, infos) \<and>
    call_initialize_server_info (de_db D) (account_lifetime c) k
      \<lparr>orders = t, server_infos = infos, serving = True\<rparr> = (r, db0) \<and>
    ignite (chain_configs c) = Inr m \<and>
    state_start (D\<lparr>de_life := account_lifetime c\<rparr>) k (Some m)
      (initial_daemon recv (debug_opt c) remark db0 ident sg) = (d, out)"
proof -
  obtain sg fl where sg: "start_signer (de_crypto D) (seed seeds) = (sg, fl)" by fastforce
  from assms obtain recv v where rec: "account_from_base58 (de_crypto D) rs = Inr (recv, v)"
    by (cases "account_from_base58 (de_crypto D) rs") (auto simp: async_try_main_def)
  from assms obtain t infos where t: "open_db (opened_path (database_path c)) = Inr (t, infos)"
    by (cases "open_db (opened_path (database_path c))") (auto simp: async_try_main_def rec sg)
  obtain r db0 where init: "call_initialize_server_info (de_db D) (account_lifetime c) k
      \<lparr>orders = t, server_infos = infos, serving = True\<rparr> = (r, db0)" by fastforce
  from assms obtain ident where r: "r = Inr ident"
    by (cases r) (auto simp: async_try_main_def rec sg t init)
  from assms obtain m where m: "ignite (chain_configs c) = Inr m"
    by (cases "ignite (chain_configs c)") (auto simp: async_try_main_def rec sg t init r)
  obtain d' out' where start: "state_start (D\<lparr>de_life := account_lifetime c\<rparr>) k (Some m)
      (initial_daemon recv (debug_opt c) remark db0 ident sg) = (d', out')" by fastforce
  from assms have "d' = d" "out' = out" "fl = failed"
    by (simp_all add: async_try_main_def server_new_def map_err_def rec sg t init r m start split: if_splits)
  with rec sg t init m start show ?thesis by blast
qed

lemma state_start_keeps:
  "state_start D k m d = (d', out) \<Longrightarrow> signer d' = signer d \<and>
     (currencies d = Map.empty \<longrightarrow> currencies d' = Map.empty)"
  by (auto simp: state_start_def split: option.splits sum.splits prod.splits)

text \<open>A seed phrase that cannot be read does not stop the start: the daemon runs on, but the signer's
  failure is on its way to the task tracker, so that the exit is no success whatever follows, unless
  a signal or a panic is seen before it, and until then every new order fails for want of an
  address, whatever currencies are offered.\<close>

theorem unreadable_seed_fails:
  assumes "async_try_main D open_db bind k rs remark c seeds = Inr (d, out, failed)"
    and "entropy_from_phrase (de_crypto D) (seed seeds) = Inl e"
    and "\<forall>ev \<in> set earlier. \<exists>name err. ev = TaskFailed name err"
  shows "failed = [TaskFailed ''Signer'' (ErrSigner e)] \<and>
    map_option (\<lambda>r. main_exit (Inr r)) (wait_with_notification aborts (earlier @ failed @ later)
      notification_new) \<noteq> Some SUCCESS \<and>
    (\<exists>err. create_invoice D k' q (update_currencies cs d) = (Inl err, update_currencies cs d, []))"
proof -
  from async_try_main_Inr [OF assms(1)] obtain sg recv db0 ident m where
    sg: "start_signer (de_crypto D) (seed seeds) = (sg, failed)" and
    start: "state_start (D\<lparr>de_life := account_lifetime c\<rparr>) k (Some m) (initial_daemon recv (debug_opt c) remark db0 ident sg) = (d, out)"
    by blast
  from sg assms(2) have failed: "failed = [TaskFailed ''Signer'' (ErrSigner e)]"
    and down: "\<not> signer_running sg"
    by (auto simp: start_signer_def signer_init_def)
  obtain name err rest where "earlier @ failed @ later = TaskFailed name err # rest"
    using assms(3) failed by (cases earlier) auto
  then have "map_option (\<lambda>r. main_exit (Inr r)) (wait_with_notification aborts (earlier @ failed @ later)
      notification_new) \<noteq> Some SUCCESS"
    by (simp add: wait_with_notification_def notification_new_def main_exit_def is_ignited_def
        wait_loop_unrecoverable)
  moreover have "signer (update_currencies cs d) = sg"
    using state_start_keeps [OF start] by (simp add: update_currencies_def initial_daemon_def)
  ultimately show ?thesis
    using down by (auto simp: failed create_invoice_def Let_def signer_public_def split: option.splits)
qed

theorem unreadable_seed_fails_witness:
  "map_option (\<lambda>r. main_exit (Inr r)) (wait_with_notification True
     [TaskFailed ''Signer'' (ErrSigner (InvalidSeed ''not a word'')), UserSignal] notification_new) \<noteq> Some SUCCESS"
proof -
  have e: "entropy_from_phrase toy_crypto [] = Inl (InvalidSeed ''not a word'')"
    by (simp add: entropy_from_phrase_def toy_crypto_def)
  then have "snd (start_signer toy_crypto []) =
      [TaskFailed ''Signer'' (ErrSigner (InvalidSeed ''not a word''))]"
    by (simp add: start_signer_def signer_init_def)
  with toy_start [of "[]"] obtain d out where start:
    "async_try_main toy_env (\<lambda>_. Inr ([], [])) (\<lambda>_. True) sample_tick ''rr'' None toy_config
      \<lparr>seed = [], old_seeds = []\<rparr> =
     Inr (d, out, [TaskFailed ''Signer'' (ErrSigner (InvalidSeed ''not a word''))])"
    by auto
  from unreadable_seed_fails [OF start, of "InvalidSeed ''not a word''" "[]" True "[UserSignal]"] e
  show ?thesis by simp
qed

text \<open>After a start no currency is offered until a watcher has connected: every request for a new order
  is answered 400 and nothing is recorded.\<close>

theorem no_orders_before_connection:
  assumes "async_try_main D open_db bind k rs remark c seeds = Inr (d, out, failed)"
    and "handler d = HandlerRuns"
  shows "\<exists>body. order_route D shw k1 k2 evs oid (Some pl) d = ((400, body), d, [])"
proof -
  from async_try_main_Inr [OF assms(1)] have "currencies d = Map.empty"
    by (auto dest!: state_start_keeps simp: initial_daemon_def)
  with assms(2) show ?thesis
    by (simp add: order_route_def process_order_def handle_supported_eq split: option.split)
qed

theorem no_orders_before_connection_witness:
  "\<exists>d out failed body. async_try_main toy_env (\<lambda>_. Inr ([], [])) (\<lambda>_. True) sample_tick ''rr'' None toy_config
      \<lparr>seed = ''bottom drive'', old_seeds = []\<rparr> = Inr (d, out, failed) \<and>
    order_route toy_env (\<lambda>_. ''0.07'') sample_tick sample_tick [] ''a''
      (Some \<lparr>payload_amount = Some (Finite 2), payload_currency = Some ''TOY'', payload_callback = None\<rparr>) d
      = ((400, body), d, [])"
proof -
  from toy_start [of "''bottom drive''"] obtain d out where
    start: "async_try_main toy_env (\<lambda>_. Inr ([], [])) (\<lambda>_. True) sample_tick ''rr'' None toy_config
      \<lparr>seed = ''bottom drive'', old_seeds = []\<rparr> =
      Inr (d, out, snd (start_signer toy_crypto ''bottom drive''))" and
    runs: "handler d = HandlerRuns"
    by blast
  obtain body where "order_route toy_env (\<lambda>_. ''0.07'') sample_tick sample_tick [] ''a''
      (Some \<lparr>payload_amount = Some (Finite 2), payload_currency = Some ''TOY'', payload_callback = None\<rparr>) d
      = ((400, body), d, [])"
    using no_orders_before_connection [OF start runs] by fast
  with start show ?thesis by (intro exI conjI)
qed

text \<open>The order book of a daemon that came up.\<close>

lemma initialize_keeps_orders:
  assumes "call_initialize_server_info E life k s = (r, s')"
  shows "orders s' = orders s"
  using assms by (auto simp: call_initialize_server_info_def db_call_def
      split: prod.splits option.splits if_splits)

lemma try_main_Inr:
  assumes "try_main D M k args = Inr (c, d, out, failed)"
  shows "\<exists>rec v t infos db0 ident sg m. account_from_base58 (de_crypto D) (cli_recipient args) = Inr (rec, v) \<and>
    m_open_db M (opened_path (database_path c)) = Inr (t, infos) \<and> orders db0 = t \<and>
    state_start (D\<lparr>de_life := account_lifetime c\<rparr>) k (Some m)
      (initial_daemon rec (debug_opt c) (cli_remark args) db0 ident sg) = (d, out)"
proof -
  from assms obtain seeds where
    "async_try_main D (m_open_db M) (m_bind M) k (cli_recipient args) (cli_remark args) c seeds = Inr (d, out, failed)"
    by (auto simp: try_main_def and_then_Inr_iff)
  from async_try_main_Inr [OF this] obtain sg rec v t infos r db0 ident m where
    rec: "account_from_base58 (de_crypto D) (cli_recipient args) = Inr (rec, v)" and
    t: "m_open_db M (opened_path (database_path c)) = Inr (t, infos)" and
    init: "call_initialize_server_info (de_db D) (account_lifetime c) k
      \<lparr>orders = t, server_infos = infos, serving = True\<rparr> = (r, db0)" and
    start: "state_start (D\<lparr>de_life := account_lifetime c\<rparr>) k (Some m)
      (initial_daemon rec (debug_opt c) (cli_remark args) db0 ident sg) = (d, out)"
    by blast
  from initialize_keeps_orders [OF init] have "orders db0 = t" by simp
  with rec t start show ?thesis by blast
qed

text \<open>The miniature started from the command line.\<close>

definition toy_machine :: "(bytes \<times> (order_info + server_info)) list machine" where
  "toy_machine = \<lparr>m_filter_error = (\<lambda>_. None), m_environment = [(''KALATORI_SEED'', ''bottom drive'')],
     m_read_file = (\<lambda>_. Inr ''''), m_toml = (\<lambda>_. Inr toy_config), m_runtime = Inr (),
     m_open_db = (\<lambda>_. Inr (orders (mem_state [(''a'', toy_order Pending)]), [])), m_bind = (\<lambda>_. True)\<rparr>"

definition toy_args :: cli_args where
  "toy_args = \<lparr>cli_config = ''kalatori.toml'', cli_log = '''', cli_remark = None,
     cli_recipient = [CHR ''A'', CHR 0x03]\<rparr>"

lemma toy_main: "\<exists>d failed. try_main toy_env toy_machine sample_tick toy_args =
    Inr (toy_config, d, [(0, TrackWatch (WatchAccount toy_paid_invoice))], failed) \<and> toy_base d \<and>
    signer_running (signer d)"
proof -
  have seeds: "fst (seed_env_parse [(''KALATORI_SEED'', ''bottom drive'')]) =
      Inr \<lparr>seed = ''bottom drive'', old_seeds = []\<rparr>"
    by (simp add: seed_env_parse_def SEED_def valid_text_def)
  have rec: "account_from_base58 toy_crypto [CHR ''A'', CHR 0x03] = Inr ([3], 65)"
    by (simp add: toy_crypto_def bytes_of_def)
  obtain sg failed where sg: "start_signer toy_crypto ''bottom drive'' = (sg, failed)" and running: "signer_running sg"
    using entropy_of_words [of "[''bottom'', ''drive'']" toy_crypto]
    by (auto simp: start_signer_def signer_init_def toy_crypto_def)
  have routes: "ignite [toy_chain] = Inr toy_routes"
    by (simp add: ignite_def toy_chain_def currency_names_def toy_routes_def)
  let ?orders = "orders (mem_state [(''a'', toy_order Pending)])"
  obtain ident db0 where init: "call_initialize_server_info mem_env (Timestamp 60) sample_tick
      \<lparr>orders = ?orders, server_infos = [], serving = True\<rparr> = (Inr ident, db0)"
    and db0: "orders db0 = ?orders" "serving db0"
    by (simp add: call_initialize_server_info_def db_call_def initialize_server_info_def call_then_def
        db_get_def db_insert_def call_map_err_def sample_tick_def Let_def mem_env_def SERVER_INFO_ID_def)
  let ?d = "initial_daemon [3] None None db0 ident sg"
  have d: "recipient ?d = [3]" "serving (db ?d)" "orders (db ?d) = ?orders"
    by (simp_all add: initial_daemon_def db0)
  have env: "toy_env\<lparr>de_life := Timestamp 60\<rparr> = toy_env" by (simp add: toy_env_def)
  have start: "try_main toy_env toy_machine sample_tick toy_args = Inr (toy_config,
      ?d\<lparr>chain_manager := Some toy_routes, currencies := Map.empty, handler := HandlerRuns\<rparr>,
      [(0, TrackWatch (WatchAccount toy_paid_invoice))], failed)"
    by (simp add: try_main_def toy_machine_def toy_args_def logger_initialize_def seeds config_parse_def
        async_try_main_def server_new_def map_err_def rec sg toy_config_def init routes env toy_state_start [OF d])
  then show ?thesis using d running by (auto simp: toy_base_def initial_daemon_def)
qed

text \<open>A database on disk, if it can be opened, is one a daemon left: its entries are encoded orders.\<close>

definition opens_wf :: "'t machine \<Rightarrow> ('t, 'v) db_env \<Rightarrow> ('t \<Rightarrow> bytes \<rightharpoonup> 'v) \<Rightarrow> bool" where
  "opens_wf M E contents \<longleftrightarrow>
     (\<forall>path t infos. m_open_db M path = Inr (t, infos) \<longrightarrow> store_wf E contents t)"

lemma opened_daemon_inv:
  assumes "sled_contract (de_db D) contents" and "codec_contract (de_db D)" and "opens_wf M (de_db D) contents"
    and "m_open_db M path = Inr (t, infos)" and "orders db0 = t"
  shows "daemon_inv (D\<lparr>de_life := life\<rparr>) contents (initial_daemon rec dbg remark db0 ident sg)"
proof -
  have "store_wf (de_db D) contents t" using assms(3,4) unfolding opens_wf_def by blast
  with assms(1,2,5) show ?thesis by (simp add: db_inv_def initial_daemon_def)
qed

text \<open>What a payout of a daemon brought up by \<open>try_main\<close> is about: the recipient of the command line and an
  order that is paid, by the account the book has for it.\<close>

lemma main_payout:
  fixes w :: 'w
  assumes "try_main D M k args = Inr (c, d, out, failed)"
    and "sled_contract (de_db D) contents" and "codec_contract (de_db D)"
    and "opens_wf M (de_db D) contents"
    and "reachable (D\<lparr>de_life := account_lifetime c\<rparr>) L connect (chain_configs c) (system_from d out w) s"
    and "(n, endpoint, i) \<in> set (sys_payouts s)"
  obtains v u x where "account_from_base58 (de_crypto D) (cli_recipient args) = Inr (inv_recipient i, v)"
    and "ledger_in D contents (sys_daemon s) (inv_id i) = Some x" and "payment_status x = Paid"
    and "account_from_base58 (de_crypto D) (payment_account x) = Inr (inv_address i, u)"
    and "filter (\<lambda>(n, endpoint, j). inv_id j = inv_id i) (sys_payouts s) = [(n, endpoint, i)]"
proof -
  let ?D = "D\<lparr>de_life := account_lifetime c\<rparr>"
  from try_main_Inr [OF assms(1)] obtain rec v t infos db0 ident sg m where
    rec: "account_from_base58 (de_crypto D) (cli_recipient args) = Inr (rec, v)" and
    t: "m_open_db M (opened_path (database_path c)) = Inr (t, infos)" "orders db0 = t" and
    start: "state_start ?D k (Some m) (initial_daemon rec (debug_opt c) (cli_remark args) db0 ident sg) = (d, out)"
    by blast
  let ?d = "initial_daemon rec (debug_opt c) (cli_remark args) db0 ident sg"
  have inv: "daemon_inv ?D contents ?d" by (rule opened_daemon_inv [OF assms(2-4) t])
  from assms(5) start have reach: "reachable ?D L connect (chain_configs c) (system_start ?D k (Some m) ?d w) s"
    by (simp add: system_start_def)
  let ?own = "filter (\<lambda>(n, endpoint, j). inv_id j = inv_id i) (sys_payouts s)"
  have "length ?own \<le> 1" by (rule reachable_once [OF inv reach])
  moreover have "(n, endpoint, i) \<in> set ?own" using assms(6) by simp
  ultimately have "?own = [(n, endpoint, i)]" by (cases ?own) auto
  with reachable_payout [OF inv reach assms(6)] rec show thesis
    by (auto simp: initial_daemon_def intro: that)
qed

text \<open>From the command line to the payout: whatever the chains, the shops and the schedule do, every payout
  that a daemon brought up by \<open>try_main\<close> begins goes to the account given as its recipient, is for an
  order its database has as paid, and is the only one for that order.\<close>

theorem main_pays_recipient_once:
  fixes w :: 'w
  assumes "try_main D M k args = Inr (c, d, out, failed)"
    and "sled_contract (de_db D) contents" and "codec_contract (de_db D)"
    and "opens_wf M (de_db D) contents"
    and "reachable (D\<lparr>de_life := account_lifetime c\<rparr>) L connect (chain_configs c) (system_from d out w) s"
    and "(n, endpoint, i) \<in> set (sys_payouts s)"
  shows "(\<exists>v. account_from_base58 (de_crypto D) (cli_recipient args) = Inr (inv_recipient i, v)) \<and>
    (\<exists>x. ledger_in D contents (sys_daemon s) (inv_id i) = Some x \<and> payment_status x = Paid) \<and>
    filter (\<lambda>(n, endpoint, j). inv_id j = inv_id i) (sys_payouts s) = [(n, endpoint, i)]"
  by (rule main_payout [OF assms]) (intro conjI exI)

text \<open>The daemon in miniature, from the command line to its payout.\<close>

lemma toy_main_payout:
  obtains d out failed s where
    "try_main toy_env toy_machine sample_tick toy_args = Inr (toy_config, d, out, failed)"
    and "reachable (toy_env\<lparr>de_life := account_lifetime toy_config\<rparr>) toy_lib toy_connect
      (chain_configs toy_config) (system_from d out ()) s"
    and "sys_payouts s = [(0, ''ws://toy'', toy_paid_invoice)]"
proof -
  from toy_main obtain d failed where
    start: "try_main toy_env toy_machine sample_tick toy_args =
      Inr (toy_config, d, [(0, TrackWatch (WatchAccount toy_paid_invoice))], failed)" and
    base: "toy_base d"
    by blast
  let ?s = "toy_system d Paid [] (toy_serving []) [] [] [(0, ''ws://toy'', toy_paid_invoice)] (Some toy_assets)"
  have config: "toy_env\<lparr>de_life := account_lifetime toy_config\<rparr> = toy_env" "chain_configs toy_config = [toy_chain]"
    by (simp_all add: toy_env_def toy_config_def)
  have "reachable toy_env toy_lib toy_connect [toy_chain]
      (system_from d [(0, TrackWatch (WatchAccount toy_paid_invoice))] ()) ?s"
    unfolding toy_system_from [OF base] by (rule toy_reachable [OF base])
  then show thesis
    using start by (intro that [where s = ?s]) (simp_all only: config, simp add: toy_system_def)
qed

lemma toy_contracts: "sled_contract (de_db toy_env) map_of" "codec_contract (de_db toy_env)"
    "opens_wf toy_machine (de_db toy_env) map_of"
  using mem_inv [of "[(''a'', toy_order Pending)]"] by (auto simp: toy_machine_def db_inv_def opens_wf_def)

theorem main_pays_recipient_once_witness:
  "\<exists>d out failed s. try_main toy_env toy_machine sample_tick toy_args = Inr (toy_config, d, out, failed) \<and>
    reachable (toy_env\<lparr>de_life := account_lifetime toy_config\<rparr>) toy_lib toy_connect
      (chain_configs toy_config) (system_from d out ()) s \<and>
    sys_payouts s = [(0, ''ws://toy'', toy_paid_invoice)] \<and>
    (\<exists>v. account_from_base58 toy_crypto (cli_recipient toy_args) = Inr (inv_recipient toy_paid_invoice, v))"
proof -
  obtain d out failed s where
    start: "try_main toy_env toy_machine sample_tick toy_args = Inr (toy_config, d, out, failed)" and
    reach: "reachable (toy_env\<lparr>de_life := account_lifetime toy_config\<rparr>) toy_lib toy_connect
      (chain_configs toy_config) (system_from d out ()) s" and
    payouts: "sys_payouts s = [(0, ''ws://toy'', toy_paid_invoice)]"
    by (rule toy_main_payout)
  have member: "(0, ''ws://toy'', toy_paid_invoice) \<in> set (sys_payouts s)" by (simp add: payouts)
  from main_pays_recipient_once [OF start toy_contracts reach member]
  have "\<exists>v. account_from_base58 toy_crypto (cli_recipient toy_args) = Inr (inv_recipient toy_paid_invoice, v)"
    by simp
  with start reach payouts show ?thesis by blast
qed

text \<open>And on to the chain: an extrinsic that one payout of such a daemon submits, whoever signs it, is the only one of that
  payout, its call names no account but the recipient of the command line, its author is no account but the
  one the book has for a paid order, and it was signed under that order's id.\<close>

theorem main_submits_to_recipient:
  fixes w w0 :: 'w
  assumes "try_main D M k args = Inr (c, d, out, failed)"
    and "sled_contract (de_db D) contents" and "codec_contract (de_db D)"
    and "opens_wf M (de_db D) contents"
    and "reachable (D\<lparr>de_life := account_lifetime c\<rparr>) L connect (chain_configs c) (system_from d out w) s"
    and "(n, endpoint, i) \<in> set (sys_payouts s)"
    and "forms_empty L"
    and "payout L P (recorded connect) ask_signer endpoint i watcher (w0, []) = (r, (w', sent))"
    and "params \<in> set sent"
  shows "\<exists>rec v x tx to_sign signature extrinsic. sent = [params] \<and>
    account_from_base58 (de_crypto D) (cli_recipient args) = Inr (rec, v) \<and>
    ledger_in D contents (sys_daemon s) (inv_id i) = Some x \<and> payment_status x = Paid \<and>
    params = [JString (''0x'' @ hex_encode L extrinsic)] \<and>
    send_this_signed P tx signature (w_metadata watcher) = Inr (Some extrinsic) \<and>
    sign_this P tx = Some to_sign \<and> ask_signer (inv_id i) to_sign = Inr signature \<and>
    set (accounts_in (call tx)) \<subseteq> {rec} \<and>
    (\<forall>a \<in> set (accounts_in (author tx)). \<exists>u. account_from_base58 (de_crypto D) (payment_account x) = Inr (a, u))"
proof -
  obtain v u x where main: "account_from_base58 (de_crypto D) (cli_recipient args) = Inr (inv_recipient i, v)"
      "ledger_in D contents (sys_daemon s) (inv_id i) = Some x" "payment_status x = Paid"
    and address: "account_from_base58 (de_crypto D) (payment_account x) = Inr (inv_address i, u)"
    by (rule main_payout [OF assms(1-6)])
  from payout_sends [OF assms(7,8)] have one: "length sent \<le> 1"
    and each: "\<forall>params \<in> set sent. pays L P ask_signer (w_metadata watcher) i params" by auto
  from each assms(9) obtain tx to_sign signature extrinsic where
    tx: "params = [JString (''0x'' @ hex_encode L extrinsic)]"
      "send_this_signed P tx signature (w_metadata watcher) = Inr (Some extrinsic)"
      "sign_this P tx = Some to_sign" "ask_signer (inv_id i) to_sign = Inr signature"
      "set (accounts_in (call tx)) \<subseteq> {inv_recipient i}" and
    author: "set (accounts_in (author tx)) \<subseteq> {inv_address i}"
    unfolding pays_def by blast
  from one assms(9) have "sent = [params]" by (cases sent) auto
  moreover have "\<forall>a \<in> set (accounts_in (author tx)). \<exists>u. account_from_base58 (de_crypto D) (payment_account x) = Inr (a, u)"
    using author address by auto
  ultimately show ?thesis using main tx by blast
qed

theorem main_submits_to_recipient_witness:
  "\<exists>v tx to_sign. account_from_base58 toy_crypto (cli_recipient toy_args) = Inr ([3], v) \<and>
    sign_this (toy_payout_lib :: (unit, unit) payout_lib) tx = Some to_sign \<and> set (accounts_in (call tx)) \<subseteq> {[3]}"
proof -
  obtain d out failed s where
    start: "try_main toy_env toy_machine sample_tick toy_args = Inr (toy_config, d, out, failed)" and
    reach: "reachable (toy_env\<lparr>de_life := account_lifetime toy_config\<rparr>) toy_lib toy_connect
      (chain_configs toy_config) (system_from d out ()) s" and
    payouts: "sys_payouts s = [(0, ''ws://toy'', toy_paid_invoice)]"
    by (rule toy_main_payout)
  have member: "(0, ''ws://toy'', toy_paid_invoice) \<in> set (sys_payouts s)" by (simp add: payouts)
  have rec: "account_from_base58 toy_crypto (cli_recipient toy_args) = Inr ([3], 65)"
    by (simp add: toy_args_def toy_crypto_def bytes_of_def)
  have sent: "[JString ''0xh''] \<in> set [[JString ''0xh'']]" by simp
  note run = toy_payout [of "\<lambda>oid b. Inr ()", OF refl]
  from main_submits_to_recipient [OF start toy_contracts reach member toy_forms_empty run sent] rec
  show ?thesis by auto
qed



end
